(* ===== verification/Prelude.thy ===== *)
theory Prelude
  imports Main "HOL-Library.Word" "HOL-Library.Sublist"
begin

text \<open>
  Shared vocabulary of the development: the machine types of the Go program, the fact
  collections the component theories fill, the two interfaces that several components
  implement (a codec and a guarded transition system), and generic lemmas on lists.
\<close>

section \<open>Machine types\<close>

type_synonym u8 = "8 word"
type_synonym u16 = "16 word"
type_synonym u32 = "32 word"
type_synonym u64 = "64 word"

text \<open>A Go \<^verbatim>\<open>[]byte\<close>. A Go \<^verbatim>\<open>string\<close> is an arbitrary byte sequence and is modelled as
  the HOL type \<^typ>\<open>string\<close>, whose characters are bytes.\<close>

type_synonym bytes = "u8 list"

text \<open>Instants and durations are nanoseconds. A \<^verbatim>\<open>time.Duration\<close> is an \<^verbatim>\<open>int64\<close>, so
  arithmetic on durations goes through \<open>i64\<close>.\<close>

type_synonym instant = int
type_synonym duration = int

definition i64 :: "int \<Rightarrow> int" where
  "i64 x = (x + 2 ^ 63) mod 2 ^ 64 - 2 ^ 63"

definition second :: duration where "second = 1000000000"
definition minute :: duration where "minute = 60 * second"
definition hour :: duration where "hour = 60 * minute"

lemma i64_id [simp]: "- (2 ^ 63) \<le> x \<Longrightarrow> x < 2 ^ 63 \<Longrightarrow> i64 x = x"
  by (simp add: i64_def)

lemma i64_range: "- (2 ^ 63) \<le> i64 x \<and> i64 x < 2 ^ 63"
  by (simp add: i64_def)

lemma i64_cong_mod: "(i64 x - x) mod 2 ^ 64 = 0"
proof -
  have "i64 x - x = ((x + 2 ^ 63) mod 2 ^ 64) - (x + 2 ^ 63)"
    by (simp add: i64_def)
  then show ?thesis
    by (metis mod_diff_left_eq cancel_comm_monoid_add_class.diff_cancel mod_0)
qed

section \<open>Fact collections\<close>

text \<open>
  \<open>frame\<close>: which part of the state an operation leaves alone;
  \<open>byte_size\<close>: lengths of encodings; \<open>chain\<close>: what is visible through a wrapped error.
\<close>

named_theorems frame
named_theorems byte_size
named_theorems chain

section \<open>Interfaces\<close>

text \<open>
  A codec: an encoder and a partial decoder. The law a provider promises is that decoding
  an encoding gives the value back; what clients need from it is that distinct valid values
  have distinct encodings.
\<close>

locale codec =
  fixes valid :: "'a \<Rightarrow> bool"
    and enc :: "'a \<Rightarrow> 'b"
    and dec :: "'b \<Rightarrow> 'a option"
  assumes dec_enc: "valid x \<Longrightarrow> dec (enc x) = Some x"
begin

lemma enc_inject: "valid x \<Longrightarrow> valid y \<Longrightarrow> enc x = enc y \<longleftrightarrow> x = y"
  by (metis dec_enc option.inject)

lemma inj_on_enc: "inj_on enc {x. valid x}"
  by (rule inj_onI) (simp add: enc_inject)

end

text \<open>
  A transition system over labelled operations with an invariant every operation keeps.
  Clients get the lifting to whole histories.
\<close>

locale guarded_system =
  fixes step :: "'op \<Rightarrow> 's \<Rightarrow> 's"
    and inv :: "'s \<Rightarrow> bool"
  assumes step_inv: "inv s \<Longrightarrow> inv (step op s)"
begin

lemma run_inv: "inv s \<Longrightarrow> inv (fold step ops s)"
  by (induction ops arbitrary: s) (auto intro: step_inv)

lemma run_prefix_inv: "inv s \<Longrightarrow> inv (fold step (take n ops) s)"
  by (rule run_inv)

end

text \<open>
  The same with a quantity no operation lets shrink (a request log, a handle counter):
  it is monotone along whole histories.
\<close>

locale growing_system = guarded_system step inv
  for step :: "'op \<Rightarrow> 's \<Rightarrow> 's" and inv :: "'s \<Rightarrow> bool" +
  fixes level :: "'s \<Rightarrow> nat"
  assumes step_level: "inv s \<Longrightarrow> level s \<le> level (step op s)"
begin

lemma run_level: "inv s \<Longrightarrow> level s \<le> level (fold step ops s)"
proof (induction ops arbitrary: s)
  case Nil
  then show ?case by simp
next
  case (Cons x ops)
  have "level s \<le> level (step x s)" using Cons.prems by (rule step_level)
  also have "\<dots> \<le> level (fold step ops (step x s))"
    using Cons.prems by (intro Cons.IH step_inv)
  finally show ?case by simp
qed

end

section \<open>Lists\<close>

lemma takeWhile_append_not:
  "\<not> P y \<Longrightarrow> takeWhile P (xs @ y # ys) = takeWhile P xs"
  by (induction xs) auto

lemma takeWhile_all [simp]: "\<forall>x\<in>set xs. P x \<Longrightarrow> takeWhile P xs = xs"
  by (simp add: takeWhile_eq_all_conv)

lemma takeWhile_stop:
  "\<forall>x\<in>set xs. P x \<Longrightarrow> \<not> P y \<Longrightarrow> takeWhile P (xs @ y # ys) = xs"
  by (induction xs) auto

lemma dropWhile_stop:
  "\<forall>x\<in>set xs. P x \<Longrightarrow> \<not> P y \<Longrightarrow> dropWhile P (xs @ y # ys) = y # ys"
  by (induction xs) auto

lemma drop_replicate_append: "drop n (replicate n x @ ys) = ys"
  by simp

end
