(* ===== verification/GoStrings.thy ===== *)
theory GoStrings
  imports Prelude
begin

text \<open>
  The parts of Go's \<^verbatim>\<open>strings\<close>, \<^verbatim>\<open>unicode/utf8\<close> and \<^verbatim>\<open>strconv\<close> packages the program uses, on byte
  strings. Case conversion of code points outside ASCII needs the Unicode tables, which
  enter as a parameter \<^typ>\<open>nat \<Rightarrow> nat\<close> (\<^verbatim>\<open>unicode.ToLower\<close> or \<^verbatim>\<open>unicode.ToUpper\<close>);
  everything else is computed.
\<close>

section \<open>Searching and cutting\<close>

definition HasPrefix :: "string \<Rightarrow> string \<Rightarrow> bool" where
  "HasPrefix s p = prefix p s"

definition HasSuffix :: "string \<Rightarrow> string \<Rightarrow> bool" where
  "HasSuffix s p = prefix (rev p) (rev s)"

text \<open>\<^verbatim>\<open>strings.Index(s, c)\<close> for a one-byte substring: \<open>-1\<close> if absent.\<close>

fun Index :: "string \<Rightarrow> char \<Rightarrow> int" where
  "Index [] c = -1"
| "Index (x # xs) c = (if x = c then 0 else (let i = Index xs c in if i < 0 then -1 else i + 1))"

text \<open>\<^verbatim>\<open>strings.LastIndexAny(s, chars)\<close> for ASCII \<open>chars\<close>.\<close>

definition LastIndexAny :: "string \<Rightarrow> string \<Rightarrow> int" where
  "LastIndexAny s cs =
     (let tail = takeWhile (\<lambda>c. c \<notin> set cs) (rev s)
      in int (length s) - int (length tail) - 1)"

definition ContainsAny :: "string \<Rightarrow> string \<Rightarrow> bool" where
  "ContainsAny s cs = list_ex (\<lambda>c. c \<in> set cs) s"

text \<open>\<^verbatim>\<open>strings.Cut(s, sep)\<close> for a one-byte separator: before, after, found.\<close>

definition Cut :: "string \<Rightarrow> char \<Rightarrow> string \<times> string \<times> bool" where
  "Cut s c = (let (b, r) = (takeWhile (\<lambda>x. x \<noteq> c) s, dropWhile (\<lambda>x. x \<noteq> c) s)
     in case r of [] \<Rightarrow> (s, [], False) | _ # a \<Rightarrow> (b, a, True))"

text \<open>\<^verbatim>\<open>strings.CutSuffix(s, suffix)\<close>.\<close>

definition CutSuffix :: "string \<Rightarrow> string \<Rightarrow> string \<times> bool" where
  "CutSuffix s p = (if HasSuffix s p then (take (length s - length p) s, True) else (s, False))"

text \<open>\<^verbatim>\<open>strings.TrimRight(s, c)\<close> for a one-byte cutset.\<close>

definition TrimRight :: "string \<Rightarrow> char \<Rightarrow> string" where
  "TrimRight s c = rev (dropWhile (\<lambda>x. x = c) (rev s))"

fun Join :: "string list \<Rightarrow> string \<Rightarrow> string" where
  "Join [] sep = []"
| "Join [x] sep = x"
| "Join (x # y # xs) sep = x @ sep @ Join (y # xs) sep"

lemma HasSuffix_append [simp]: "HasSuffix (s @ p) p"
  by (simp add: HasSuffix_def)

lemma HasSuffix_conv: "HasSuffix s p \<longleftrightarrow> (\<exists>t. s = t @ p)"
proof
  assume "HasSuffix s p"
  then obtain r where "rev s = rev p @ r" by (auto simp: HasSuffix_def elim: prefixE)
  then have "s = rev r @ p" by (metis rev_append rev_rev_ident)
  then show "\<exists>t. s = t @ p" ..
qed auto

lemma HasSuffix_lastD: "HasSuffix s p \<Longrightarrow> p \<noteq> [] \<Longrightarrow> s \<noteq> [] \<and> last s = last p"
  by (auto simp: HasSuffix_conv)

lemma Cut_None: "c \<notin> set s \<Longrightarrow> Cut s c = (s, [], False)"
proof -
  assume "c \<notin> set s"
  then have "dropWhile (\<lambda>x. x \<noteq> c) s = []" by (auto simp: dropWhile_eq_Nil_conv)
  then show ?thesis by (simp only: Cut_def Let_def prod.case list.case)
qed

lemma Cut_Some: "c \<notin> set b \<Longrightarrow> Cut (b @ c # a) c = (b, a, True)"
proof -
  assume "c \<notin> set b"
  then have "takeWhile (\<lambda>x. x \<noteq> c) (b @ c # a) = b" "dropWhile (\<lambda>x. x \<noteq> c) (b @ c # a) = c # a"
    by (auto intro!: takeWhile_stop dropWhile_stop)
  then show ?thesis by (simp add: Cut_def)
qed

lemma Cut_found: "snd (snd (Cut s c)) \<longleftrightarrow> c \<in> set s"
  by (cases "c \<in> set s") (auto simp: Cut_None Cut_Some dest!: split_list_first)

lemma Cut_key_free: "c \<notin> set (fst (Cut s c))"
  by (cases "c \<in> set s") (auto simp: Cut_None Cut_Some dest!: split_list_first)

lemma Cut_eq:
  "Cut s c = (k, v, True) \<longleftrightarrow> s = k @ c # v \<and> c \<notin> set k"
proof
  assume a: "Cut s c = (k, v, True)"
  then have "c \<in> set s" using Cut_found[of s c] by simp
  then obtain b r where "s = b @ c # r" "c \<notin> set b" by (meson split_list_first)
  with a show "s = k @ c # v \<and> c \<notin> set k" by (simp add: Cut_Some)
qed (simp add: Cut_Some)

lemma Cut_eq_False: "Cut s c = (k, v, False) \<longleftrightarrow> c \<notin> set s \<and> k = s \<and> v = []"
  using Cut_found[of s c] Cut_None[of c s] by auto

lemma Index_neg: "Index s c < 0 \<longleftrightarrow> c \<notin> set s"
  by (induction s) (auto simp: Let_def)

lemma Index_absent: "c \<notin> set s \<Longrightarrow> Index s c = -1"
  by (induction s) (auto simp: Let_def)

lemma Index_append: "c \<notin> set b \<Longrightarrow> Index (b @ c # a) c = int (length b)"
  by (induction b) (auto simp: Let_def)

lemma TrimRight_idem: "TrimRight (TrimRight s c) c = TrimRight s c"
  by (simp add: TrimRight_def)

lemma TrimRight_last: "TrimRight s c \<noteq> [] \<Longrightarrow> last (TrimRight s c) \<noteq> c"
  using hd_dropWhile[of "\<lambda>x. x = c" "rev s"]
  by (auto simp: TrimRight_def last_rev)

section \<open>UTF-8\<close>

definition byte :: "char \<Rightarrow> nat" where "byte c = of_char c"

definition chr8 :: "nat \<Rightarrow> char" where "chr8 n = char_of n"

lemma byte_less [simp]: "byte c < 256" by (simp add: byte_def)

lemma byte_chr8 [simp]: "byte (chr8 n) = n mod 256" by (simp add: byte_def chr8_def)

lemma chr8_byte [simp]: "chr8 (byte c) = c" by (simp add: byte_def chr8_def)

definition is_ascii :: "char \<Rightarrow> bool" where "is_ascii c = (byte c < 128)"

text \<open>\<^verbatim>\<open>utf8.RuneStart\<close>: every byte but a continuation byte.\<close>

definition RuneStart :: "char \<Rightarrow> bool" where "RuneStart c = (byte c div 64 \<noteq> 2)"

definition cont :: "char \<Rightarrow> bool" where "cont c = (byte c div 64 = 2)"

text \<open>How many bytes the lead byte announces, and the bounds of the second byte (Go's
  \<^verbatim>\<open>first\<close> and \<^verbatim>\<open>acceptRanges\<close> tables).\<close>

definition rune_width :: "nat \<Rightarrow> nat" where
  "rune_width b = (if b < 128 then 1 else if b < 194 then 0 else if b < 224 then 2
     else if b < 240 then 3 else if b < 245 then 4 else 0)"

definition second_ok :: "nat \<Rightarrow> char \<Rightarrow> bool" where
  "second_ok b c = (let x = byte c in
     (if b = 224 then 160 \<le> x else if b = 240 then 144 \<le> x else 128 \<le> x) \<and>
     (if b = 237 then x \<le> 159 else if b = 244 then x \<le> 143 else x \<le> 191))"

text \<open>\<^verbatim>\<open>utf8.DecodeRuneInString\<close> on a non-empty string: code point and width. A byte that starts
  no well-formed sequence decodes to \<open>U+FFFD\<close> with width 1.\<close>

definition rune_error :: nat where "rune_error = 65533"

fun decode_rune :: "string \<Rightarrow> nat \<times> nat" where
  "decode_rune [] = (rune_error, 0)"
| "decode_rune (c # s) = (let b = byte c in
     case (rune_width b, s) of
       (Suc 0, _) \<Rightarrow> (b, 1)
     | (Suc (Suc 0), c1 # _) \<Rightarrow>
         if second_ok b c1 then ((b mod 32) * 64 + byte c1 mod 64, 2) else (rune_error, 1)
     | (Suc (Suc (Suc 0)), c1 # c2 # _) \<Rightarrow>
         if second_ok b c1 \<and> cont c2
         then ((b mod 16) * 4096 + (byte c1 mod 64) * 64 + byte c2 mod 64, 3)
         else (rune_error, 1)
     | (Suc (Suc (Suc (Suc 0))), c1 # c2 # c3 # _) \<Rightarrow>
         if second_ok b c1 \<and> cont c2 \<and> cont c3
         then ((b mod 8) * 262144 + (byte c1 mod 64) * 4096 + (byte c2 mod 64) * 64
                 + byte c3 mod 64, 4)
         else (rune_error, 1)
     | _ \<Rightarrow> (rune_error, 1))"

lemma decode_rune_width: "s \<noteq> [] \<Longrightarrow> 0 < snd (decode_rune s) \<and> snd (decode_rune s) \<le> length s"
  by (cases s) (auto simp: Let_def split: nat.splits list.splits)

text \<open>The string cut into the byte groups a \<^verbatim>\<open>range\<close> loop visits, each with its rune.\<close>

function segments :: "string \<Rightarrow> (nat \<times> string) list" where
  "segments [] = []"
| "segments (c # s) =
     (let (r, n) = decode_rune (c # s) in (r, take n (c # s)) # segments (drop n (c # s)))"
  by pat_completeness auto
termination
proof (relation "measure length")
  fix c s r n p
  assume "p = decode_rune (c # s)" and "(r, n) = p"
  then have "0 < n \<and> n \<le> length (c # s)" using decode_rune_width[of "c # s"]
    by (metis list.distinct(1) snd_conv)
  then show "(drop n (c # s), c # s) \<in> measure length" by auto
qed simp

declare segments.simps(2) [simp del]

text \<open>\<^verbatim>\<open>utf8.AppendRune\<close>. Surrogates and values above \<open>U+10FFFF\<close> are written as \<open>U+FFFD\<close>.\<close>

definition encode_rune :: "nat \<Rightarrow> string" where
  "encode_rune r =
     (let q = (if (55296 \<le> r \<and> r \<le> 57343) \<or> 1114111 < r then rune_error else r) in
      if q < 128 then [chr8 q]
      else if q < 2048 then [chr8 (192 + q div 64), chr8 (128 + q mod 64)]
      else if q < 65536 then
        [chr8 (224 + q div 4096), chr8 (128 + (q div 64) mod 64), chr8 (128 + q mod 64)]
      else [chr8 (240 + q div 262144), chr8 (128 + (q div 4096) mod 64),
            chr8 (128 + (q div 64) mod 64), chr8 (128 + q mod 64)])"

text \<open>\<^verbatim>\<open>utf8.ValidString\<close>: no byte decodes to a width-1 error.\<close>

definition valid_utf8 :: "string \<Rightarrow> bool" where
  "valid_utf8 s = list_all (\<lambda>(r, bs). \<not> (r = rune_error \<and> length bs = 1)) (segments s)"

lemma segments_ascii_Cons: "is_ascii c \<Longrightarrow> segments (c # s) = (byte c, [c]) # segments s"
  by (simp add: segments.simps(2) Let_def is_ascii_def rune_width_def)

lemma segments_ascii: "list_all is_ascii s \<Longrightarrow> segments s = map (\<lambda>c. (byte c, [c])) s"
  by (induction s) (auto simp: segments_ascii_Cons)

lemma concat_segments: "concat (map snd (segments s)) = s"
proof (induction s rule: segments.induct)
  case (2 c s)
  obtain r n where d: "decode_rune (c # s) = (r, n)" by fastforce
  with 2 show ?case by (simp add: segments.simps(2))
qed simp

section \<open>Case and white space\<close>

definition lower_ascii :: "char \<Rightarrow> char" where
  "lower_ascii c = (if 65 \<le> byte c \<and> byte c \<le> 90 then chr8 (byte c + 32) else c)"

definition upper_ascii :: "char \<Rightarrow> char" where
  "upper_ascii c = (if 97 \<le> byte c \<and> byte c \<le> 122 then chr8 (byte c - 32) else c)"

text \<open>\<open>L\<close> stands for \<^verbatim>\<open>unicode.ToLower\<close> and \<open>U\<close> for \<^verbatim>\<open>unicode.ToUpper\<close> on code points from 128 on; ASCII is
  computed here, as Go's fast path does.\<close>

definition ToLower :: "(nat \<Rightarrow> nat) \<Rightarrow> string \<Rightarrow> string" where
  "ToLower L s = (if list_all is_ascii s then map lower_ascii s
     else concat (map (\<lambda>(r, bs). if r < 128 then map lower_ascii bs else encode_rune (L r))
                      (segments s)))"

definition ToUpper :: "(nat \<Rightarrow> nat) \<Rightarrow> string \<Rightarrow> string" where
  "ToUpper U s = (if list_all is_ascii s then map upper_ascii s
     else concat (map (\<lambda>(r, bs). if r < 128 then map upper_ascii bs else encode_rune (U r))
                      (segments s)))"

text \<open>\<^verbatim>\<open>unicode.IsSpace\<close>, complete.\<close>

definition is_space :: "nat \<Rightarrow> bool" where
  "is_space r = (r \<in> {9, 10, 11, 12, 13, 32, 133, 160, 5760, 8232, 8233, 8239, 8287, 12288}
     \<or> 8192 \<le> r \<and> r \<le> 8202)"

definition TrimSpace :: "string \<Rightarrow> string" where
  "TrimSpace s = concat (map snd
     (rev (dropWhile (\<lambda>(r, _). is_space r) (rev (dropWhile (\<lambda>(r, _). is_space r) (segments s))))))"

lemma lower_ascii_idem [simp]: "lower_ascii (lower_ascii c) = lower_ascii c"
  by (auto simp: lower_ascii_def)

lemma is_ascii_lower [simp]: "is_ascii (lower_ascii c) = is_ascii c"
  by (auto simp: lower_ascii_def is_ascii_def)

lemma ToLower_Nil [simp]: "ToLower L [] = []"
  by (simp add: ToLower_def)

lemma ToLower_segments:
  "ToLower L s = concat (map (\<lambda>(r, bs). if r < 128 then map lower_ascii bs else encode_rune (L r))
                             (segments s))"
proof (cases "list_all is_ascii s")
  case True
  then have "concat (map (\<lambda>(r, bs). if r < 128 then map lower_ascii bs else encode_rune (L r))
                 (segments s)) = map lower_ascii s"
    by (induction s) (auto simp: segments_ascii_Cons is_ascii_def)
  with True show ?thesis by (simp add: ToLower_def)
qed (simp add: ToLower_def)

section \<open>Cutting at an ASCII character\<close>

text \<open>UTF-8 is self-synchronising: an ASCII byte always starts its own segment, so a string may be
  cut in front of one.\<close>

lemma not_second_ok_ascii [simp]: "is_ascii c \<Longrightarrow> \<not> second_ok b c"
  by (auto simp: is_ascii_def second_ok_def Let_def)

lemma not_cont_ascii [simp]: "is_ascii c \<Longrightarrow> \<not> cont c"
  by (auto simp: is_ascii_def cont_def)

lemma rune_width_le: "rune_width b \<le> 4"
  by (simp add: rune_width_def)

lemma decode_rune_widths:
  "rune_width (byte c) = 0 \<Longrightarrow> decode_rune (c # s) = (rune_error, 1)"
  "rune_width (byte c) = 1 \<Longrightarrow> decode_rune (c # s) = (byte c, 1)"
  "rune_width (byte c) = 2 \<Longrightarrow> decode_rune (c # s) = (case s of [] \<Rightarrow> (rune_error, 1)
     | c1 # _ \<Rightarrow> if second_ok (byte c) c1 then (byte c mod 32 * 64 + byte c1 mod 64, 2)
                 else (rune_error, 1))"
  "rune_width (byte c) = 3 \<Longrightarrow> decode_rune (c # s) = (case s of c1 # c2 # _ \<Rightarrow>
       if second_ok (byte c) c1 \<and> cont c2
       then (byte c mod 16 * 4096 + byte c1 mod 64 * 64 + byte c2 mod 64, 3) else (rune_error, 1)
     | _ \<Rightarrow> (rune_error, 1))"
  "rune_width (byte c) = 4 \<Longrightarrow> decode_rune (c # s) = (case s of c1 # c2 # c3 # _ \<Rightarrow>
       if second_ok (byte c) c1 \<and> cont c2 \<and> cont c3
       then (byte c mod 8 * 262144 + byte c1 mod 64 * 4096 + byte c2 mod 64 * 64 + byte c3 mod 64, 4)
       else (rune_error, 1)
     | _ \<Rightarrow> (rune_error, 1))"
  by (simp_all add: numeral_eq_Suc Let_def split: list.splits)

lemma rune_width_cases:
  obtains "rune_width b = 0" | "rune_width b = 1" | "rune_width b = 2" | "rune_width b = 3"
  | "rune_width b = 4"
  using rune_width_le[of b] by linarith

declare decode_rune.simps(2) [simp del]

lemma decode_rune_append:
  assumes "s \<noteq> []" and "t = [] \<or> is_ascii (hd t)"
  shows "decode_rune (s @ t) = decode_rune s"
proof -
  obtain c u where s: "s = c # u" using assms(1) by (cases s) auto
  show ?thesis
    using assms(2) unfolding s
    by (cases rule: rune_width_cases[of "byte c"])
      (auto simp: decode_rune_widths append_eq_Cons_conv split: list.splits)
qed

lemma segments_step:
  "s \<noteq> [] \<Longrightarrow> segments s = (fst (decode_rune s), take (snd (decode_rune s)) s)
     # segments (drop (snd (decode_rune s)) s)"
  by (cases s) (simp_all add: segments.simps(2) case_prod_beta Let_def)

lemma segments_append:
  assumes "t = [] \<or> is_ascii (hd t)"
  shows "segments (s @ t) = segments s @ segments t"
  using assms
proof (induction s rule: segments.induct)
  case (2 c s)
  let ?n = "snd (decode_rune (c # s))"
  have n: "?n \<le> length (c # s)" using decode_rune_width[of "c # s"] by simp
  have d: "decode_rune ((c # s) @ t) = decode_rune (c # s)"
    using 2 by (intro decode_rune_append) auto
  have IH: "segments (drop ?n (c # s) @ t) = segments (drop ?n (c # s)) @ segments t"
    using 2 by (metis prod.collapse)
  have "segments ((c # s) @ t)
      = (fst (decode_rune (c # s)), take ?n ((c # s) @ t)) # segments (drop ?n ((c # s) @ t))"
    using segments_step[of "(c # s) @ t"] d by simp
  also have "\<dots> = (fst (decode_rune (c # s)), take ?n (c # s)) # segments (drop ?n (c # s) @ t)"
    using n by (simp del: append_Cons)
  also have "\<dots> = segments (c # s) @ segments t"
    using segments_step[of "c # s"] IH by simp
  finally show ?case .
qed simp

lemma ToLower_append:
  "t = [] \<or> is_ascii (hd t) \<Longrightarrow> ToLower L (s @ t) = ToLower L s @ ToLower L t"
  by (simp add: ToLower_segments segments_append)

lemma ToLower_ascii: "list_all is_ascii s \<Longrightarrow> ToLower L s = map lower_ascii s"
  by (simp add: ToLower_def)

section \<open>Truncation at a rune boundary\<close>

lemma RuneStart_cont: "RuneStart c \<longleftrightarrow> \<not> cont c"
  by (simp add: RuneStart_def cont_def)

lemma second_ok_cont: "second_ok b c \<Longrightarrow> cont c"
proof -
  assume "second_ok b c"
  then have "128 \<le> byte c" "byte c \<le> 191" by (auto simp: second_ok_def Let_def split: if_splits)
  then have "byte c div 64 = 2" by (intro div_nat_eqI) auto
  then show ?thesis by (simp add: cont_def)
qed

text \<open>Inside a well-formed rune every byte but the first is a continuation byte, there are at most
  three of them, and decoding does not look further.\<close>

lemma decode_rune_shape:
  assumes "s \<noteq> []" and "\<not> (fst (decode_rune s) = rune_error \<and> snd (decode_rune s) = 1)"
  obtains
    (one) c u where "s = c # u" "rune_width (byte c) = 1" "snd (decode_rune s) = 1"
  | (two) c c1 u where "s = c # c1 # u" "rune_width (byte c) = 2" "second_ok (byte c) c1"
      "snd (decode_rune s) = 2"
  | (three) c c1 c2 u where "s = c # c1 # c2 # u" "rune_width (byte c) = 3" "second_ok (byte c) c1"
      "cont c2" "snd (decode_rune s) = 3"
  | (four) c c1 c2 c3 u where "s = c # c1 # c2 # c3 # u" "rune_width (byte c) = 4"
      "second_ok (byte c) c1" "cont c2" "cont c3" "snd (decode_rune s) = 4"
proof -
  obtain c u where s: "s = c # u" using assms(1) by (cases s) auto
  show ?thesis
  proof (cases rule: rune_width_cases[of "byte c"])
    case 1
    with assms(2) s show ?thesis by (simp add: decode_rune_widths)
  next
    case 2
    with s show ?thesis by (intro one[of c u]) (simp_all add: decode_rune_widths)
  next
    case 3
    with assms(2) s show ?thesis
      by (cases u) (auto simp: decode_rune_widths split: if_splits intro: two)
  next
    case 4
    with assms(2) s show ?thesis
      by (auto simp: decode_rune_widths split: list.splits if_splits intro: three)
  next
    case 5
    with assms(2) s show ?thesis
      by (auto simp: decode_rune_widths split: list.splits if_splits intro: four)
  qed
qed

lemma take_four:
  "2 \<le> n \<Longrightarrow> take n (a # b # u) = a # b # take (n - 2) u"
  "3 \<le> n \<Longrightarrow> take n (a # b # c # u) = a # b # c # take (n - 3) u"
  "4 \<le> n \<Longrightarrow> take n (a # b # c # d # u) = a # b # c # d # take (n - 4) u"
  by (auto simp: take_Cons' numeral_eq_Suc)

lemma decode_rune_good:
  assumes "s \<noteq> []" and "\<not> (fst (decode_rune s) = rune_error \<and> snd (decode_rune s) = 1)"
  shows decode_rune_conts: "0 < i \<Longrightarrow> i < snd (decode_rune s) \<Longrightarrow> cont (s ! i)"
    and decode_rune_max4: "snd (decode_rune s) \<le> 4"
    and decode_rune_take: "snd (decode_rune s) \<le> n \<Longrightarrow> decode_rune (take n s) = decode_rune s"
proof -
  show "snd (decode_rune s) \<le> 4"
    using assms by (cases rule: decode_rune_shape) auto
  show "cont (s ! i)" if i: "0 < i" "i < snd (decode_rune s)"
    using assms
  proof (cases rule: decode_rune_shape)
    case two
    with i have "i = 1" by simp
    with two show ?thesis by (simp add: second_ok_cont)
  next
    case three
    with i have "i = 1 \<or> i = 2" by auto
    with three show ?thesis by (auto simp: second_ok_cont)
  next
    case four
    with i have "i = 1 \<or> i = 2 \<or> i = 3" by auto
    with four show ?thesis by (auto simp: second_ok_cont)
  qed (use i in simp)
  show "decode_rune (take n s) = decode_rune s" if n: "snd (decode_rune s) \<le> n"
    using assms
  proof (cases rule: decode_rune_shape)
    case one
    with n show ?thesis by (cases n) (simp_all add: decode_rune_widths)
  next
    case two
    with n show ?thesis by (simp add: decode_rune_widths take_four(1))
  next
    case three
    with n show ?thesis by (simp add: decode_rune_widths take_four(2))
  next
    case four
    with n show ?thesis by (simp add: decode_rune_widths take_four(3))
  qed
qed

lemma cont_width: "cont c \<Longrightarrow> rune_width (byte c) = 0"
proof -
  assume "cont c"
  then have "byte c div 64 = 2" by (simp add: cont_def)
  then have "128 \<le> byte c \<and> byte c < 192" by linarith
  then show ?thesis by (simp add: rune_width_def)
qed

lemma valid_utf8_step:
  "s \<noteq> [] \<Longrightarrow> valid_utf8 s \<longleftrightarrow>
     \<not> (fst (decode_rune s) = rune_error \<and> snd (decode_rune s) = 1)
     \<and> valid_utf8 (drop (snd (decode_rune s)) s)"
  using decode_rune_width[of s] by (simp add: valid_utf8_def segments_step[of s])

lemma valid_utf8_Nil [simp]: "valid_utf8 []"
  by (simp add: valid_utf8_def)

lemma valid_utf8_take:
  "valid_utf8 s \<Longrightarrow> n < length s \<Longrightarrow> RuneStart (s ! n) \<Longrightarrow> valid_utf8 (take n s)"
proof (induction "length s" arbitrary: s n rule: less_induct)
  case less
  let ?w = "snd (decode_rune s)"
  have ne: "s \<noteq> []" using less.prems by auto
  have w: "0 < ?w" "?w \<le> length s" using decode_rune_width[OF ne] by auto
  have ok: "\<not> (fst (decode_rune s) = rune_error \<and> ?w = 1)" "valid_utf8 (drop ?w s)"
    using valid_utf8_step[OF ne] less.prems(1) by auto
  note good = decode_rune_good[OF ne ok(1)]
  show ?case
  proof (cases "n < ?w")
    case True
    then have "n = 0" using good(1)[of n] less.prems(3) by (auto simp: RuneStart_cont)
    then show ?thesis by simp
  next
    case False
    then have n: "?w \<le> n" by simp
    have d: "decode_rune (take n s) = decode_rune s" using good(3) n by blast
    have "valid_utf8 (take (n - ?w) (drop ?w s))"
      using less.prems ok(2) n w by (intro less.hyps) auto
    moreover have "take n s \<noteq> []" using n w ne by (cases n) auto
    ultimately show ?thesis
      using valid_utf8_step[of "take n s"] ok(1) d by (simp add: drop_take)
  qed
qed

lemma valid_utf8_boundary:
  "valid_utf8 s \<Longrightarrow> n < length s \<Longrightarrow> \<exists>k \<le> 3. k \<le> n \<and> RuneStart (s ! (n - k))"
proof (induction "length s" arbitrary: s n rule: less_induct)
  case less
  let ?w = "snd (decode_rune s)"
  have ne: "s \<noteq> []" using less.prems by auto
  have w: "0 < ?w" "?w \<le> length s" using decode_rune_width[OF ne] by auto
  have ok: "\<not> (fst (decode_rune s) = rune_error \<and> ?w = 1)" "valid_utf8 (drop ?w s)"
    using valid_utf8_step[OF ne] less.prems(1) by auto
  note good = decode_rune_good[OF ne ok(1)]
  show ?case
  proof (cases "n < ?w")
    case True
    have "RuneStart (s ! 0)"
      using ok(1) ne cont_width by (cases s) (auto simp: RuneStart_cont decode_rune_widths(1))
    then show ?thesis using True good(2) by (intro exI[of _ n]) auto
  next
    case False
    have "\<exists>k \<le> 3. k \<le> n - ?w \<and> RuneStart (drop ?w s ! (n - ?w - k))"
      using False less.prems ok(2) w by (intro less.hyps) auto
    then obtain k where k: "k \<le> 3" "k \<le> n - ?w" "RuneStart (drop ?w s ! (n - ?w - k))"
      by blast
    have "drop ?w s ! (n - ?w - k) = s ! (n - k)" using k w False less.prems by simp
    with k False show ?thesis by (intro exI[of _ k]) auto
  qed
qed

section \<open>Decimal numbers\<close>

definition digit :: "nat \<Rightarrow> char" where "digit d = chr8 (48 + d)"

fun nat_dec :: "nat \<Rightarrow> string" where
  "nat_dec n = (if n < 10 then [digit n] else nat_dec (n div 10) @ [digit (n mod 10)])"

declare nat_dec.simps [simp del]

definition int_dec :: "int \<Rightarrow> string" where
  "int_dec i = (if i < 0 then CHR ''-'' # nat_dec (nat (- i)) else nat_dec (nat i))"

definition is_digit :: "char \<Rightarrow> bool" where "is_digit c = (48 \<le> byte c \<and> byte c \<le> 57)"

definition digit_val :: "char \<Rightarrow> nat" where "digit_val c = byte c - 48"

definition dec_val :: "string \<Rightarrow> nat" where
  "dec_val s = foldl (\<lambda>n c. n * 10 + digit_val c) 0 s"

lemma digit_val_digit [simp]: "d < 10 \<Longrightarrow> digit_val (digit d) = d"
  by (simp add: digit_val_def digit_def)

lemma is_digit_digit [simp]: "d < 10 \<Longrightarrow> is_digit (digit d)"
  by (simp add: is_digit_def digit_def)

lemma dec_val_snoc [simp]: "dec_val (s @ [c]) = dec_val s * 10 + digit_val c"
  by (simp add: dec_val_def)

lemma nat_dec_props: "dec_val (nat_dec n) = n \<and> list_all is_digit (nat_dec n) \<and> nat_dec n \<noteq> []"
proof (induction n rule: nat_dec.induct)
  case (1 n)
  show ?case
  proof (cases "n < 10")
    case True
    then show ?thesis by (subst (1 2 3) nat_dec.simps) (simp add: dec_val_def)
  next
    case False
    with 1 show ?thesis by (subst (1 2 3) nat_dec.simps) simp
  qed
qed

end
