(* ===== verification/GoErrors.thy ===== *)
theory GoErrors
  imports GoStrings
begin

text \<open>
  The error values of the program (\<^verbatim>\<open>internal/infisical/errors.go\<close> and the sentinel
  \<^verbatim>\<open>errBadHandle\<close> of \<^verbatim>\<open>cmd/ksp/provider_windows.go\<close>), what \<^verbatim>\<open>errors.Is\<close> and \<^verbatim>\<open>errors.As\<close> see
  of a wrapped error, and the text each one prints.
\<close>

section \<open>Error values\<close>

record api_error =
  Operation :: string
  StatusCode :: int
  Message :: string
  Code :: string

text \<open>Arguments of \<^verbatim>\<open>fmt.Errorf\<close>/\<^verbatim>\<open>fmt.Sprintf\<close>: \<^verbatim>\<open>%s\<close>, \<^verbatim>\<open>%q\<close>, \<^verbatim>\<open>%d\<close>.\<close>

datatype fmt_arg = FStr string | FQuoted string | FInt int

text \<open>
  One constructor per dynamic type an \<^verbatim>\<open>error\<close> value of the program can have: the sentinel,
  the four structs of errors.go, \<^verbatim>\<open>fmt.Errorf\<close> without and with \<^verbatim>\<open>%w\<close> (format up to the
  \<^verbatim>\<open>%w\<close>, its arguments, the wrapped error), and an error made by a library, known by its text.
\<close>

datatype go_error =
    BadHandle
  | APIErr api_error
  | RequestErr string go_error
  | ApprovalRequestOpened go_error string string
  | ApprovalRequestFailed go_error go_error
  | Errorf string "fmt_arg list"
  | Wrapf string "fmt_arg list" go_error
  | LibErr string

type_synonym 'a result = "go_error + 'a"

definition is_ok :: "'a result \<Rightarrow> bool" where
  "is_ok r = (case r of Inl _ \<Rightarrow> False | Inr _ \<Rightarrow> True)"

lemma is_ok_simps [simp]: "\<not> is_ok (Inl e)" "is_ok (Inr x)"
  by (simp_all add: is_ok_def)

definition ErrorCodeApprovalRequired :: string where
  "ErrorCodeApprovalRequired = ''ApprovalRequired''"

definition IsApprovalRequired :: "api_error \<Rightarrow> bool" where
  "IsApprovalRequired e = (StatusCode e = 403 \<and> Code e = ErrorCodeApprovalRequired)"

section \<open>Wrapping\<close>

text \<open>The \<^verbatim>\<open>Unwrap\<close> methods (and \<^verbatim>\<open>%w\<close>).\<close>

fun Unwrap :: "go_error \<Rightarrow> go_error option" where
  "Unwrap (RequestErr _ e) = Some e"
| "Unwrap (ApprovalRequestOpened e _ _) = Some e"
| "Unwrap (ApprovalRequestFailed e _) = Some e"
| "Unwrap (Wrapf _ _ e) = Some e"
| "Unwrap _ = None"

text \<open>The chain \<^verbatim>\<open>errors.Is\<close> and \<^verbatim>\<open>errors.As\<close> walk.\<close>

fun err_chain :: "go_error \<Rightarrow> go_error list" where
  "err_chain (RequestErr op e) = RequestErr op e # err_chain e"
| "err_chain (ApprovalRequestOpened e i s) = ApprovalRequestOpened e i s # err_chain e"
| "err_chain (ApprovalRequestFailed e r) = ApprovalRequestFailed e r # err_chain e"
| "err_chain (Wrapf f as e) = Wrapf f as e # err_chain e"
| "err_chain e = [e]"

lemma err_chain_Unwrap:
  "err_chain e = e # (case Unwrap e of None \<Rightarrow> [] | Some e' \<Rightarrow> err_chain e')"
  by (cases e) auto

text \<open>\<^verbatim>\<open>errors.As\<close> for a target type given by its selector: the first match along the chain.\<close>

fun first_some :: "('a \<Rightarrow> 'b option) \<Rightarrow> 'a list \<Rightarrow> 'b option" where
  "first_some f [] = None"
| "first_some f (x # xs) = (case f x of None \<Rightarrow> first_some f xs | Some y \<Rightarrow> Some y)"

definition errors_As :: "(go_error \<Rightarrow> 'b option) \<Rightarrow> go_error \<Rightarrow> 'b option" where
  "errors_As sel e = first_some sel (err_chain e)"

fun sel_api :: "go_error \<Rightarrow> api_error option" where
  "sel_api (APIErr a) = Some a"
| "sel_api _ = None"

fun sel_request :: "go_error \<Rightarrow> (string \<times> go_error) option" where
  "sel_request (RequestErr op e) = Some (op, e)"
| "sel_request _ = None"

fun sel_opened :: "go_error \<Rightarrow> (string \<times> string) option" where
  "sel_opened (ApprovalRequestOpened _ i s) = Some (i, s)"
| "sel_opened _ = None"

fun sel_failed :: "go_error \<Rightarrow> go_error option" where
  "sel_failed (ApprovalRequestFailed _ r) = Some r"
| "sel_failed _ = None"

text \<open>\<^verbatim>\<open>errors.Is(err, errBadHandle)\<close>.\<close>

definition errors_Is_BadHandle :: "go_error \<Rightarrow> bool" where
  "errors_Is_BadHandle e = (BadHandle \<in> set (err_chain e))"

text \<open>
  The interface between the session layer, which wraps errors, and the provider, which maps
  them to status codes: a wrapper is transparent for a target type when the wrapper itself
  is not of that type and what it wraps stays on the chain.
\<close>

locale transparent_wrapper =
  fixes wrap :: "go_error \<Rightarrow> go_error" and sel :: "go_error \<Rightarrow> 'b option"
  assumes unwraps: "Unwrap (wrap e) = Some e"
    and not_target: "sel (wrap e) = None"
begin

lemma chain_wrap: "err_chain (wrap e) = wrap e # err_chain e"
  by (subst err_chain_Unwrap) (simp add: unwraps)

lemma As_wrap: "errors_As sel (wrap e) = errors_As sel e"
  by (simp add: errors_As_def chain_wrap not_target)

lemma Is_BadHandle_wrap: "errors_Is_BadHandle (wrap e) = errors_Is_BadHandle e"
proof -
  have "wrap e \<noteq> BadHandle" using unwraps[of e] by auto
  then show ?thesis by (auto simp: errors_Is_BadHandle_def chain_wrap)
qed

end

interpretation opened_api: transparent_wrapper "\<lambda>e. ApprovalRequestOpened e i s" sel_api
  by unfold_locales simp_all

interpretation failed_api: transparent_wrapper "\<lambda>e. ApprovalRequestFailed e r" sel_api
  by unfold_locales simp_all

interpretation request_api: transparent_wrapper "\<lambda>e. RequestErr op e" sel_api
  by unfold_locales simp_all

interpretation wrapf_api: transparent_wrapper "\<lambda>e. Wrapf f as e" sel_api
  by unfold_locales simp_all

lemmas As_api_wrap [chain] =
  opened_api.As_wrap failed_api.As_wrap request_api.As_wrap wrapf_api.As_wrap

lemmas Is_wrap [chain] =
  opened_api.Is_BadHandle_wrap failed_api.Is_BadHandle_wrap
  request_api.Is_BadHandle_wrap wrapf_api.Is_BadHandle_wrap

lemma As_direct [chain]:
  "errors_As sel_api (APIErr a) = Some a"
  "errors_As sel_opened (ApprovalRequestOpened e i s) = Some (i, s)"
  "errors_As sel_failed (ApprovalRequestFailed e r) = Some r"
  "errors_As sel_api (Errorf f as) = None"
  "errors_As sel_api (LibErr t) = None"
  "errors_As sel_api BadHandle = None"
  by (simp_all add: errors_As_def)

lemma Is_direct [chain]:
  "errors_Is_BadHandle BadHandle"
  "\<not> errors_Is_BadHandle (APIErr a)"
  "\<not> errors_Is_BadHandle (Errorf f as)"
  "\<not> errors_Is_BadHandle (LibErr t)"
  by (simp_all add: errors_Is_BadHandle_def)

section \<open>Text\<close>

text \<open>\<^verbatim>\<open>strconv.Quote\<close>. \<open>P\<close> stands for \<^verbatim>\<open>strconv.IsPrint\<close> on code points from 128 on.\<close>

definition hex_digit :: "nat \<Rightarrow> char" where
  "hex_digit d = (if d < 10 then chr8 (48 + d) else chr8 (87 + d))"

fun hex_fixed :: "nat \<Rightarrow> nat \<Rightarrow> string" where
  "hex_fixed 0 n = []"
| "hex_fixed (Suc k) n = hex_fixed k (n div 16) @ [hex_digit (n mod 16)]"

definition quote_rune :: "(nat \<Rightarrow> bool) \<Rightarrow> nat \<times> string \<Rightarrow> string" where
  "quote_rune P rs = (case rs of (r, bs) \<Rightarrow>
     if r = rune_error \<and> length bs = 1 then CHR 0x5C # CHR ''x'' # hex_fixed 2 (byte (hd bs))
     else if r = 34 \<or> r = 92 then CHR 0x5C # bs
     else if (32 \<le> r \<and> r < 127) \<or> (128 \<le> r \<and> P r) then bs
     else if r = 7 then [CHR 0x5C, CHR ''a''] else if r = 8 then [CHR 0x5C, CHR ''b'']
     else if r = 12 then [CHR 0x5C, CHR ''f''] else if r = 10 then [CHR 0x5C, CHR ''n'']
     else if r = 13 then [CHR 0x5C, CHR ''r''] else if r = 9 then [CHR 0x5C, CHR ''t'']
     else if r = 11 then [CHR 0x5C, CHR ''v'']
     else if r < 32 \<or> r = 127 then CHR 0x5C # CHR ''x'' # hex_fixed 2 r
     else if r < 65536 then CHR 0x5C # CHR ''u'' # hex_fixed 4 r
     else CHR 0x5C # CHR ''U'' # hex_fixed 8 r)"

definition Quote :: "(nat \<Rightarrow> bool) \<Rightarrow> string \<Rightarrow> string" where
  "Quote P s = [CHR 0x22] @ concat (map (quote_rune P) (segments s)) @ [CHR 0x22]"

fun fmt_show :: "(nat \<Rightarrow> bool) \<Rightarrow> fmt_arg \<Rightarrow> string" where
  "fmt_show P (FStr s) = s"
| "fmt_show P (FQuoted s) = Quote P s"
| "fmt_show P (FInt i) = int_dec i"

text \<open>\<^verbatim>\<open>fmt.Sprintf\<close>: every verb takes the next argument.\<close>

fun Sprintf :: "(nat \<Rightarrow> bool) \<Rightarrow> string \<Rightarrow> fmt_arg list \<Rightarrow> string" where
  "Sprintf P [] as = []"
| "Sprintf P (c # f) as =
     (if c = CHR ''%'' \<and> f \<noteq> [] \<and> as \<noteq> [] then fmt_show P (hd as) @ Sprintf P (tl f) (tl as)
      else c # Sprintf P f as)"

text \<open>The \<^verbatim>\<open>Error\<close> methods.\<close>

fun error_text :: "(nat \<Rightarrow> bool) \<Rightarrow> go_error \<Rightarrow> string" where
  "error_text P BadHandle = ''invalid handle''"
| "error_text P (APIErr a) =
     Sprintf P ''%s failed: HTTP %d: %s'' [FStr (Operation a), FInt (StatusCode a), FStr (Message a)]"
| "error_text P (RequestErr op e) = Sprintf P ''%s failed: %v'' [FStr op, FStr (error_text P e)]"
| "error_text P (ApprovalRequestOpened e i s) =
     Sprintf P ''%s (approval request %s is %s)'' [FStr (error_text P e), FStr i, FStr s]"
| "error_text P (ApprovalRequestFailed e r) =
     Sprintf P ''%s (opening an approval request also failed: %v)''
       [FStr (error_text P e), FStr (error_text P r)]"
| "error_text P (Errorf f as) = Sprintf P f as"
| "error_text P (Wrapf f as e) = Sprintf P f as @ error_text P e"
| "error_text P (LibErr t) = t"

end
