(* ===== verification/Encoding.thy ===== *)
theory Encoding
  imports GoStrings
begin

text \<open>
  Byte-level encodings of Go's standard library that the program's formats are built from:
  big-endian magnitudes (\<^verbatim>\<open>big.Int.Bytes\<close>, \<^verbatim>\<open>SetBytes\<close>, \<^verbatim>\<open>BitLen\<close>), little-endian words
  (\<^verbatim>\<open>binary.LittleEndian\<close>), hexadecimal and base64 text.
\<close>

section \<open>Bytes and strings\<close>

definition bytes_of :: "string \<Rightarrow> bytes" where
  "bytes_of s = map (\<lambda>c. of_nat (byte c)) s"

definition string_of :: "bytes \<Rightarrow> string" where
  "string_of bs = map (\<lambda>b. chr8 (unat b)) bs"

lemma unat_u8_less [simp]: "unat (b :: u8) < 256"
  using unsigned_less[of b, where 'a = nat] by simp

lemma unat_of_nat_u8 [simp]: "unat (of_nat n :: u8) = n mod 256"
  by (simp add: unat_of_nat)

lemma of_nat_unat_u8 [simp]: "(of_nat (unat b) :: u8) = b"
  by simp

lemma string_of_bytes_of [simp]: "string_of (bytes_of s) = s"
  by (induction s) (simp_all add: string_of_def bytes_of_def)

lemma bytes_of_string_of [simp]: "bytes_of (string_of bs) = bs"
  by (induction bs) (simp_all add: string_of_def bytes_of_def)

section \<open>Big-endian magnitudes\<close>

text \<open>\<^verbatim>\<open>x.Bytes()\<close> of a non-negative \<^verbatim>\<open>big.Int\<close>: minimal, empty for zero.\<close>

fun be_bytes :: "nat \<Rightarrow> bytes" where
  "be_bytes n = (if n = 0 then [] else be_bytes (n div 256) @ [of_nat (n mod 256)])"

declare be_bytes.simps [simp del]

text \<open>\<^verbatim>\<open>SetBytes\<close>.\<close>

definition be_val :: "bytes \<Rightarrow> nat" where
  "be_val bs = foldl (\<lambda>n b. n * 256 + unat b) 0 bs"

fun BitLen :: "nat \<Rightarrow> nat" where
  "BitLen n = (if n = 0 then 0 else Suc (BitLen (n div 2)))"

declare BitLen.simps [simp del]

lemma be_val_Nil [simp]: "be_val [] = 0"
  by (simp add: be_val_def)

lemma be_val_snoc [simp]: "be_val (bs @ [b]) = be_val bs * 256 + unat b"
  by (simp add: be_val_def)

lemma be_val_append: "be_val (xs @ ys) = be_val xs * 256 ^ length ys + be_val ys"
proof (induction ys rule: rev_induct)
  case (snoc y ys)
  then show ?case by (simp del: append_assoc add: append_assoc [symmetric] algebra_simps)
qed simp

lemma be_val_Cons: "be_val (b # bs) = unat b * 256 ^ length bs + be_val bs"
  using be_val_append[of "[b]" bs] by (simp add: be_val_def)

lemma be_val_zeros [simp]: "be_val (replicate k 0) = 0"
  by (induction k) (simp_all add: be_val_Cons)

lemma be_val_less: "be_val bs < 256 ^ length bs"
proof (induction bs rule: rev_induct)
  case (snoc b bs)
  have b: "unat b < 256" by simp
  have "be_val bs + 1 \<le> 256 ^ length bs" using snoc by simp
  then have "(be_val bs + 1) * 256 \<le> 256 ^ length bs * 256" by (rule mult_le_mono1)
  then have "be_val bs * 256 + 256 \<le> 256 ^ length bs * 256" by simp
  with b have "be_val bs * 256 + unat b < 256 ^ length bs * 256" by linarith
  then show ?case by (simp add: mult.commute)
qed simp

lemma be_bytes_0 [simp]: "be_bytes 0 = []"
  by (simp add: be_bytes.simps)

lemma be_val_be_bytes [simp]: "be_val (be_bytes n) = n"
proof (induction n rule: be_bytes.induct)
  case (1 n)
  then show ?case by (cases "n = 0") (simp_all add: be_bytes.simps[of n])
qed

lemma be_bytes_eq_Nil [simp]: "be_bytes n = [] \<longleftrightarrow> n = 0"
  using be_val_be_bytes[of n] by (cases "n = 0") (auto simp: be_bytes.simps[of n])

lemma be_bytes_length [byte_size]: "length (be_bytes n) \<le> k \<longleftrightarrow> n < 256 ^ k"
proof (induction k arbitrary: n)
  case (Suc k)
  show ?case
  proof (cases "n = 0")
    case False
    then have "length (be_bytes n) \<le> Suc k \<longleftrightarrow> length (be_bytes (n div 256)) \<le> k"
      by (simp add: be_bytes.simps[of n])
    also have "\<dots> \<longleftrightarrow> n div 256 < 256 ^ k" by (rule Suc.IH)
    also have "\<dots> \<longleftrightarrow> n < 256 ^ Suc k"
      by (simp add: div_less_iff_less_mult mult.commute)
    finally show ?thesis .
  qed simp
qed simp

lemma be_bytes_hd: "n \<noteq> 0 \<Longrightarrow> hd (be_bytes n) \<noteq> 0"
proof (induction n rule: be_bytes.induct)
  case (1 n)
  show ?case
  proof (cases "n div 256 = 0")
    case True
    then have "n < 256" by simp
    then have "be_bytes n = [of_nat n]" using "1.prems"
      by (simp add: be_bytes.simps[of n] True)
    moreover have "(of_nat n :: u8) \<noteq> 0"
      using "1.prems" \<open>n < 256\<close> by (metis mod_less unat_0 unat_of_nat_u8)
    ultimately show ?thesis by simp
  next
    case False
    with "1.IH" "1.prems" show ?thesis by (simp add: be_bytes.simps[of n])
  qed
qed

lemma BitLen_le: "BitLen n \<le> k \<longleftrightarrow> n < 2 ^ k"
proof (induction k arbitrary: n)
  case 0
  then show ?case by (simp add: BitLen.simps[of n])
next
  case (Suc k)
  show ?case
  proof (cases "n = 0")
    case True
    then show ?thesis by (simp add: BitLen.simps[of 0])
  next
    case False
    then have "BitLen n \<le> Suc k \<longleftrightarrow> BitLen (n div 2) \<le> k"
      by (simp add: BitLen.simps[of n])
    also have "\<dots> \<longleftrightarrow> n div 2 < 2 ^ k" by (rule Suc.IH)
    also have "\<dots> \<longleftrightarrow> n < 2 ^ Suc k" by (simp add: div_less_iff_less_mult mult.commute)
    finally show ?thesis .
  qed
qed

text \<open>The byte length of a magnitude is its bit length rounded up.\<close>

lemma length_be_bytes_BitLen: "length (be_bytes n) = (BitLen n + 7) div 8"
proof -
  have "length (be_bytes n) \<le> k \<longleftrightarrow> (BitLen n + 7) div 8 \<le> k" for k
  proof -
    have "length (be_bytes n) \<le> k \<longleftrightarrow> n < 2 ^ (8 * k)"
      by (simp add: be_bytes_length power_mult)
    also have "\<dots> \<longleftrightarrow> BitLen n \<le> 8 * k" by (simp add: BitLen_le)
    also have "\<dots> \<longleftrightarrow> (BitLen n + 7) div 8 \<le> k" by arith
    finally show ?thesis .
  qed
  then show ?thesis by (meson le_antisym order_refl)
qed

section \<open>Little-endian words\<close>

text \<open>\<^verbatim>\<open>binary.LittleEndian.PutUint32\<close> and its inverse, and \<^verbatim>\<open>PutUint16\<close>.\<close>

definition le32 :: "u32 \<Rightarrow> bytes" where
  "le32 v = [ucast v, ucast (drop_bit 8 v), ucast (drop_bit 16 v), ucast (drop_bit 24 v)]"

definition le16 :: "u16 \<Rightarrow> bytes" where
  "le16 v = [ucast v, ucast (drop_bit 8 v)]"

definition le_val :: "bytes \<Rightarrow> nat" where
  "le_val bs = be_val (rev bs)"

lemma length_le32 [simp, byte_size]: "length (le32 v) = 4"
  by (simp add: le32_def)

lemma length_le16 [simp, byte_size]: "length (le16 v) = 2"
  by (simp add: le16_def)

lemma unat_ucast_u8: "unat (ucast (v :: u32) :: u8) = unat v mod 256"
  by (simp add: unsigned_ucast_eq take_bit_eq_mod)

lemma unat_drop_bit_u32: "unat (drop_bit k (v :: u32)) = unat v div 2 ^ k"
proof -
  have "take_bit 32 (unat v) = unat v"
    using unsigned_less[of v, where 'a = nat] by (simp add: take_bit_nat_eq_self)
  then show ?thesis
    using unsigned_drop_bit_eq[of k v, where 'a = nat] drop_bit_eq_div[of k "unat v"] by simp
qed

lemma nat_split_bytes4:
  "(n :: nat) < 2 ^ 32 \<Longrightarrow>
   ((n div 2 ^ 24 mod 256 * 256 + n div 2 ^ 16 mod 256) * 256 + n div 2 ^ 8 mod 256) * 256
     + n mod 256 = n"
proof -
  assume n: "n < 2 ^ 32"
  define a where "a = n div 256"
  define b where "b = a div 256"
  define c where "c = b div 256"
  have "n div 2 ^ 8 = a" "n div 2 ^ 16 = b" "n div 2 ^ 24 = c"
    by (simp_all add: a_def b_def c_def div_mult2_eq [symmetric])
  moreover have "c < 256"
    using n by (simp add: a_def b_def c_def div_mult2_eq [symmetric] div_less_iff_less_mult)
  ultimately show ?thesis
    by (simp add: a_def b_def c_def)
qed

lemma le_val_le32 [simp]: "le_val (le32 v) = unat v"
proof -
  let ?n = "unat v"
  have b: "?n < 2 ^ 32" using unsigned_less[of v, where 'a = nat] by simp
  have "le_val (le32 v) = ((?n div 2 ^ 24 mod 256 * 256 + ?n div 2 ^ 16 mod 256) * 256
          + ?n div 2 ^ 8 mod 256) * 256 + ?n mod 256"
    by (simp add: le_val_def le32_def be_val_def unat_ucast_u8 unat_drop_bit_u32)
  also have "\<dots> = ?n" using b by (rule nat_split_bytes4)
  finally show ?thesis .
qed

lemma le32_codec: "codec (\<lambda>_. True) le32 (\<lambda>bs. Some (of_nat (le_val bs)))"
  by unfold_locales simp

interpretation le32: codec "\<lambda>_. True" le32 "\<lambda>bs. Some (of_nat (le_val bs))"
  by (rule le32_codec)

section \<open>Hexadecimal\<close>

text \<open>\<^verbatim>\<open>hex.EncodeToString\<close>.\<close>

definition hex_char :: "nat \<Rightarrow> char" where
  "hex_char d = (if d < 10 then chr8 (48 + d) else chr8 (87 + d))"

definition hex_encode :: "bytes \<Rightarrow> string" where
  "hex_encode bs = concat (map (\<lambda>b. [hex_char (unat b div 16), hex_char (unat b mod 16)]) bs)"

definition hex_nibble :: "char \<Rightarrow> nat" where
  "hex_nibble c = (if byte c < 58 then byte c - 48 else byte c - 87)"

fun hex_decode :: "string \<Rightarrow> bytes" where
  "hex_decode (c # d # s) = of_nat (hex_nibble c * 16 + hex_nibble d) # hex_decode s"
| "hex_decode _ = []"

lemma hex_nibble_char: "d < 16 \<Longrightarrow> hex_nibble (hex_char d) = d"
  by (auto simp: hex_nibble_def hex_char_def)

interpretation hex: codec "\<lambda>_. True" hex_encode "\<lambda>s. Some (hex_decode s)"
proof unfold_locales
  fix bs :: bytes
  show "Some (hex_decode (hex_encode bs)) = Some bs"
  proof (induction bs)
    case (Cons b bs)
    have "unat b div 16 < 16" using unat_u8_less[of b] by (simp add: div_less_iff_less_mult)
    with Cons show ?case by (simp add: hex_encode_def hex_nibble_char)
  qed (simp add: hex_encode_def)
qed

lemma length_hex_encode [byte_size]: "length (hex_encode bs) = 2 * length bs"
  by (induction bs) (simp_all add: hex_encode_def)

section \<open>Base64\<close>

text \<open>\<^verbatim>\<open>base64.StdEncoding\<close>: \<^verbatim>\<open>EncodeToString\<close>, and \<^verbatim>\<open>DecodeString\<close>, which skips line breaks
  anywhere, wants the padding, and does not look at the unused bits of the last sextet.\<close>

definition b64_char :: "nat \<Rightarrow> char" where
  "b64_char n = (if n < 26 then chr8 (65 + n) else if n < 52 then chr8 (71 + n)
     else if n < 62 then chr8 (n - 4) else if n = 62 then CHR ''+'' else CHR ''/'')"

definition b64_val :: "char \<Rightarrow> nat option" where
  "b64_val c = (let b = byte c in
     if 65 \<le> b \<and> b \<le> 90 then Some (b - 65) else if 97 \<le> b \<and> b \<le> 122 then Some (b - 71)
     else if 48 \<le> b \<and> b \<le> 57 then Some (b + 4) else if b = 43 then Some 62
     else if b = 47 then Some 63 else None)"

fun b64_encode :: "bytes \<Rightarrow> string" where
  "b64_encode [] = []"
| "b64_encode [a] = [b64_char (unat a div 4), b64_char (unat a mod 4 * 16), CHR ''='', CHR ''='']"
| "b64_encode [a, b] =
     [b64_char (unat a div 4), b64_char (unat a mod 4 * 16 + unat b div 16),
      b64_char (unat b mod 16 * 4), CHR ''='']"
| "b64_encode (a # b # c # bs) =
     [b64_char (unat a div 4), b64_char (unat a mod 4 * 16 + unat b div 16),
      b64_char (unat b mod 16 * 4 + unat c div 64), b64_char (unat c mod 64)] @ b64_encode bs"

fun b64_quanta :: "string \<Rightarrow> bytes option" where
  "b64_quanta [] = Some []"
| "b64_quanta (p # q # r # s # rest) =
     (case b64_val p of
        None \<Rightarrow> None
      | Some x \<Rightarrow> (case b64_val q of
          None \<Rightarrow> None
        | Some y \<Rightarrow>
            if r = CHR ''='' then
              (if s = CHR ''='' \<and> rest = [] then Some [of_nat (x * 4 + y div 16)] else None)
            else (case b64_val r of
                None \<Rightarrow> None
              | Some z \<Rightarrow>
                  if s = CHR ''='' then
                    (if rest = []
                     then Some [of_nat (x * 4 + y div 16), of_nat (y mod 16 * 16 + z div 4)]
                     else None)
                  else (case b64_val s of
                      None \<Rightarrow> None
                    | Some w \<Rightarrow>
                        map_option (\<lambda>bs. of_nat (x * 4 + y div 16) # of_nat (y mod 16 * 16 + z div 4)
                          # of_nat (z mod 4 * 64 + w) # bs) (b64_quanta rest)))))"
| "b64_quanta _ = None"

definition b64_decode :: "string \<Rightarrow> bytes option" where
  "b64_decode s = b64_quanta (filter (\<lambda>c. c \<noteq> CHR 0x0A \<and> c \<noteq> CHR 0x0D) s)"

lemma byte_eq: "c = d \<longleftrightarrow> byte c = byte d"
  by (simp add: byte_def)

lemma byte_chr8_small: "n < 256 \<Longrightarrow> byte (chr8 n) = n"
  by simp

lemma b64_byte:
  "n < 64 \<Longrightarrow> byte (b64_char n) = (if n < 26 then 65 + n else if n < 52 then 71 + n
     else if n < 62 then n - 4 else if n = 62 then 43 else 47)"
  using byte_chr8_small[of "65 + n"] byte_chr8_small[of "71 + n"] byte_chr8_small[of "n - 4"]
  by (simp add: b64_char_def) (simp add: byte_def)

lemma b64_val_char [simp]: "n < 64 \<Longrightarrow> b64_val (b64_char n) = Some n"
  by (auto simp: b64_val_def b64_byte Let_def)

lemma b64_char_plain [simp]:
  "n < 64 \<Longrightarrow> b64_char n \<noteq> CHR ''=''" "n < 64 \<Longrightarrow> b64_char n \<noteq> CHR 0x0A"
  "n < 64 \<Longrightarrow> b64_char n \<noteq> CHR 0x0D"
  by (auto simp: byte_eq b64_byte byte_def[of "CHR ''=''"] byte_def[of "CHR 0x0A"]
      byte_def[of "CHR 0x0D"] split: if_splits)

lemma sextets [simp]:
  "unat (a :: u8) div 4 < 64" "unat (a :: u8) mod 4 * 16 < 64"
  "unat (a :: u8) mod 4 * 16 + unat (b :: u8) div 16 < 64" "unat (b :: u8) mod 16 * 4 < 64"
  "unat (b :: u8) mod 16 * 4 + unat (c :: u8) div 64 < 64" "unat (c :: u8) mod 64 < 64"
  using unat_u8_less[of a] unat_u8_less[of b] unat_u8_less[of c] by arith+

lemma digits: "r < m \<Longrightarrow> (u * m + r) div m = u" "r < m \<Longrightarrow> (u * m + r) mod m = (r :: nat)"
  by simp_all

lemma u8_parts: "unat (b :: u8) div 16 < 16" "unat (b :: u8) div 64 < 4"
  using unat_u8_less[of b] by (simp_all add: div_less_iff_less_mult)

lemma octets:
  "of_nat (unat (a :: u8) div 4 * 4 + (unat a mod 4 * 16) div 16) = a"
  "of_nat (unat a div 4 * 4 + (unat a mod 4 * 16 + unat (b :: u8) div 16) div 16) = a"
  "of_nat ((unat a mod 4 * 16 + unat b div 16) mod 16 * 16 + (unat b mod 16 * 4) div 4) = b"
  "of_nat ((unat a mod 4 * 16 + unat b div 16) mod 16 * 16
      + (unat b mod 16 * 4 + unat (c :: u8) div 64) div 4) = b"
  "of_nat ((unat b mod 16 * 4 + unat c div 64) mod 4 * 64 + unat c mod 64) = c"
  by (simp_all only: digits u8_parts nonzero_mult_div_cancel_right zero_neq_numeral not_False_eq_True
      div_mult_mod_eq of_nat_unat_u8)

declare b64_quanta.simps(2) [simp del]

lemma b64_quanta_cases:
  assumes "x < 64" "y < 64"
  shows "b64_quanta [b64_char x, b64_char y, CHR ''='', CHR ''='']
       = Some [of_nat (x * 4 + y div 16)]"
    and "z < 64 \<Longrightarrow> b64_quanta [b64_char x, b64_char y, b64_char z, CHR ''='']
       = Some [of_nat (x * 4 + y div 16), of_nat (y mod 16 * 16 + z div 4)]"
    and "z < 64 \<Longrightarrow> w < 64 \<Longrightarrow>
       b64_quanta (b64_char x # b64_char y # b64_char z # b64_char w # rest)
       = map_option (\<lambda>bs. of_nat (x * 4 + y div 16) # of_nat (y mod 16 * 16 + z div 4)
                          # of_nat (z mod 4 * 64 + w) # bs) (b64_quanta rest)"
  using assms by (simp_all add: b64_quanta.simps(2) del: of_nat_add of_nat_mult)

lemma b64_round: "b64_quanta (b64_encode bs) = Some bs"
proof (induction bs rule: b64_encode.induct)
  case 1
  then show ?case by simp
next
  case (2 a)
  show ?case
    unfolding b64_encode.simps
    by (subst b64_quanta_cases(1)) (simp_all only: octets sextets)
next
  case (3 a b)
  show ?case
    unfolding b64_encode.simps
    by (subst b64_quanta_cases(2)) (simp_all only: octets sextets)
next
  case (4 a b c bs)
  then show ?case
    unfolding b64_encode.simps append.simps
    by (subst b64_quanta_cases(3)) (simp_all only: octets sextets option.map)
qed

lemma b64_no_breaks:
  "filter (\<lambda>c. c \<noteq> CHR 0x0A \<and> c \<noteq> CHR 0x0D) (b64_encode bs) = b64_encode bs"
  by (induction bs rule: b64_encode.induct) simp_all

interpretation b64: codec "\<lambda>_. True" b64_encode b64_decode
  by unfold_locales (simp add: b64_decode_def b64_no_breaks b64_round)

lemma length_b64_encode [byte_size]: "length (b64_encode bs) = 4 * ((length bs + 2) div 3)"
proof (induction bs rule: b64_encode.induct)
  case (4 a b c bs)
  have "(length (a # b # c # bs) + 2) div 3 = (length bs + 2) div 3 + 1" by simp
  with 4 show ?case by simp
qed simp_all

end
