(* ===== verification/GoOs.thy ===== *)
theory GoOs
  imports GoErrors Encoding
begin

text \<open>
  What the process reads from its surroundings: environment variables, files, the identity of
  the process and the machine. One record, so that a run of the program is a function of it.
\<close>

section \<open>Files\<close>

text \<open>\<^verbatim>\<open>os.ReadFile\<close>: the content, an error that is \<^verbatim>\<open>os.ErrNotExist\<close>, or another error.\<close>

datatype file_result = FileData bytes | FileNotExist | FileFails string

section \<open>The record\<close>

text \<open>
  \<^verbatim>\<open>runtime.GOOS\<close> as a flag, \<^verbatim>\<open>os.Getenv\<close> (the empty string for an unset variable),
  \<^verbatim>\<open>os.ReadFile\<close>, \<^verbatim>\<open>os.Executable\<close>, \<^verbatim>\<open>os.Hostname\<close> (empty when it fails), \<^verbatim>\<open>user.Current\<close>,
  \<^verbatim>\<open>os.Args\<close>, and on Windows \<^verbatim>\<open>GetCommandLine\<close> with the decomposition done by
  \<^verbatim>\<open>golang.org/x/sys\<close>.
\<close>

record os_info =
  os_Windows :: bool
  os_Getenv :: "string \<Rightarrow> string"
  os_ReadFile :: "string \<Rightarrow> file_result"
  os_Executable :: "string option"
  os_Hostname :: string
  os_CurrentUser :: "string option"
  os_Args :: "string list"
  os_GetCommandLine :: "string option"
  os_Decompose :: "string \<Rightarrow> string list option"

end
