(* ===== verification/Sha256.thy ===== *)
theory Sha256
  imports Encoding
begin

text \<open>
  \<^verbatim>\<open>crypto/sha256\<close>: the program hashes the payload of a denied sign call and the host
  executable. The compression function on 32-bit words, the padding, and the digest.
\<close>

unbundle bit_operations_syntax

definition sha_K :: "u32 list" where
  "sha_K =
   [1116352408, 1899447441, 3049323471, 3921009573, 961987163, 1508970993, 2453635748, 2870763221,
    3624381080, 310598401, 607225278, 1426881987, 1925078388, 2162078206, 2614888103, 3248222580,
    3835390401, 4022224774, 264347078, 604807628, 770255983, 1249150122, 1555081692, 1996064986,
    2554220882, 2821834349, 2952996808, 3210313671, 3336571891, 3584528711, 113926993, 338241895,
    666307205, 773529912, 1294757372, 1396182291, 1695183700, 1986661051, 2177026350, 2456956037,
    2730485921, 2820302411, 3259730800, 3345764771, 3516065817, 3600352804, 4094571909, 275423344,
    430227734, 506948616, 659060556, 883997877, 958139571, 1322822218, 1537002063, 1747873779,
    1955562222, 2024104815, 2227730452, 2361852424, 2428436474, 2756734187, 3204031479, 3329325298]"

definition sha_H0 :: "u32 list" where
  "sha_H0 = [1779033703, 3144134277, 1013904242, 2773480762,
             1359893119, 2600822924, 528734635, 1541459225]"

definition rotr :: "nat \<Rightarrow> u32 \<Rightarrow> u32" where
  "rotr n x = drop_bit n x OR push_bit (32 - n) x"

definition word_be :: "bytes \<Rightarrow> u32" where
  "word_be bs = foldl (\<lambda>n b. n * 256 + ucast b) 0 bs"

text \<open>The message schedule, newest word first.\<close>

definition schedule_word :: "u32 list \<Rightarrow> u32" where
  "schedule_word w =
     (let a = w ! 1; b = w ! 14;
          s1 = rotr 17 a XOR rotr 19 a XOR drop_bit 10 a;
          s0 = rotr 7 b XOR rotr 18 b XOR drop_bit 3 b
      in s1 + w ! 6 + s0 + w ! 15)"

fun schedule :: "nat \<Rightarrow> u32 list \<Rightarrow> u32 list" where
  "schedule 0 w = rev w"
| "schedule (Suc n) w = schedule n (schedule_word w # w)"

fun sha_round :: "u32 list \<Rightarrow> u32 \<times> u32 \<Rightarrow> u32 list" where
  "sha_round [a, b, c, d, e, f, g, h] (k, w) =
     (let t1 = h + (rotr 6 e XOR rotr 11 e XOR rotr 25 e) + ((e AND f) XOR (NOT e AND g)) + k + w;
          t2 = (rotr 2 a XOR rotr 13 a XOR rotr 22 a) + ((a AND b) XOR (a AND c) XOR (b AND c))
      in [t1 + t2, a, b, c, d + t1, e, f, g])"
| "sha_round s kw = s"

fun words_of_block :: "bytes \<Rightarrow> u32 list" where
  "words_of_block (a # b # c # d # bs) = word_be [a, b, c, d] # words_of_block bs"
| "words_of_block _ = []"

definition sha_block :: "u32 list \<Rightarrow> bytes \<Rightarrow> u32 list" where
  "sha_block hs block =
     (let ws = schedule 48 (rev (words_of_block block));
          out = foldl sha_round hs (zip sha_K ws)
      in map2 (+) hs out)"

definition be32 :: "u32 \<Rightarrow> bytes" where "be32 v = rev (le32 v)"

definition be64 :: "u64 \<Rightarrow> bytes" where "be64 v = be32 (ucast (drop_bit 32 v)) @ be32 (ucast v)"

definition sha_pad :: "bytes \<Rightarrow> bytes" where
  "sha_pad m =
     (let n = length m; z = (119 - n mod 64) mod 64
      in m @ 128 # replicate z 0 @ be64 (8 * of_nat n))"

fun chunk64 :: "nat \<Rightarrow> bytes \<Rightarrow> bytes list" where
  "chunk64 0 bs = []"
| "chunk64 (Suc n) bs = take 64 bs # chunk64 n (drop 64 bs)"

definition Sum256 :: "bytes \<Rightarrow> bytes" where
  "Sum256 m =
     (let p = sha_pad m
      in concat (map be32 (foldl sha_block sha_H0 (chunk64 (length p div 64) p))))"

text \<open>The padded message is whole blocks, and the digest is 32 bytes.\<close>

lemma pad_zeros:
  assumes "r < 64" shows "(119 - r) mod 64 = (if r \<le> 55 then 55 - r else 119 - r :: nat)"
proof (cases "r \<le> 55")
  case True
  then have "119 - r = (55 - r) + 64" by simp
  then have "(119 - r) mod 64 = (55 - r) mod 64" by (simp only: mod_add_self2)
  with True show ?thesis by simp
next
  case False
  with assms show ?thesis by simp
qed

lemma sha_pad_blocks: "64 dvd length (sha_pad m)"
proof -
  define r where "r = length m mod 64"
  define q where "q = length m div 64"
  have "length (sha_pad m) = length m + (119 - r) mod 64 + 9"
    by (simp add: sha_pad_def Let_def be64_def be32_def r_def)
  also have "\<dots> = 64 * q + r + (if r \<le> 55 then 55 - r else 119 - r) + 9"
    using pad_zeros[of r] by (simp add: q_def r_def)
  also have "\<dots> = 64 * (if r \<le> 55 then q + 1 else q + 2)"
    by (simp add: r_def less_imp_le)
  finally show ?thesis by simp
qed

lemma length_sha_round: "length hs = 8 \<Longrightarrow> length (sha_round hs kw) = 8"
  by (cases "(hs, kw)" rule: sha_round.cases) (simp_all add: Let_def)

lemma length_sha_rounds: "length hs = 8 \<Longrightarrow> length (foldl sha_round hs kws) = 8"
  by (induction kws arbitrary: hs) (simp_all add: length_sha_round)

lemma length_sha_blocks: "length hs = 8 \<Longrightarrow> length (foldl sha_block hs bs) = 8"
proof (induction bs arbitrary: hs)
  case (Cons b bs)
  have "length (sha_block hs b) = 8"
    using Cons.prems by (simp add: sha_block_def Let_def length_sha_rounds)
  with Cons show ?case by simp
qed simp

lemma length_Sum256 [byte_size]: "length (Sum256 m) = 32"
proof -
  have "length (concat (map be32 hs)) = 4 * length hs" for hs
    by (induction hs) (simp_all add: be32_def)
  then show ?thesis
    by (simp add: Sum256_def Let_def length_sha_blocks sha_H0_def)
qed

end
