(* ===== verification/SigningContext.thy ===== *)
theory SigningContext
  imports GoOs Sha256
begin

text \<open>
  \<^verbatim>\<open>internal/infisical/signing_context.go\<close> (with its two platform files): what the provider
  reports about the host process. The command line is redacted, joined and truncated before it
  leaves the machine; the result and the executable's digest are computed once per process.
\<close>

section \<open>Redaction\<close>

definition maxCommandLen :: nat where "maxCommandLen = 2048"

definition redactedValue :: string where "redactedValue = ''***''"

definition secretCommandFlags :: "string list" where
  "secretCommandFlags =
     [''storepass'', ''keypass'', ''pass'', ''passin'', ''passout'', ''password'',
      ''passphrase'', ''pin'', ''p'', ''pw'']"

definition flagName :: "(nat \<Rightarrow> nat) \<Rightarrow> string \<Rightarrow> string" where
  "flagName L token =
     (if HasPrefix token ''--'' then ToLower L (drop 2 token)
      else if HasPrefix token ''-'' \<or> HasPrefix token ''/'' then ToLower L (drop 1 token)
      else [])"

definition hasSecretSuffix :: "string \<Rightarrow> bool" where
  "hasSecretSuffix name = (HasSuffix name ''password'' \<or> HasSuffix name ''passphrase''
     \<or> HasSuffix name ''passwd'')"

definition isSecretFlagName :: "string \<Rightarrow> bool \<Rightarrow> bool" where
  "isSecretFlagName name hasInlineValue =
     (if name = [] then False
      else if name \<in> set secretCommandFlags \<or> hasSecretSuffix name then True
      else if \<not> hasInlineValue then False
      else let subKey = drop (nat (LastIndexAny name '':._'' + 1)) name
           in subKey \<in> set secretCommandFlags \<or> hasSecretSuffix subKey)"

text \<open>The loop of \<^verbatim>\<open>redactCommandArgs\<close>; the flag is \<^verbatim>\<open>redactValue\<close>.\<close>

fun redact_loop :: "(nat \<Rightarrow> nat) \<Rightarrow> bool \<Rightarrow> string list \<Rightarrow> string list" where
  "redact_loop L redactValue [] = []"
| "redact_loop L redactValue (arg # rest) =
     (let (key, _, hasInlineValue) = Cut arg CHR ''='';
          name0 = flagName L key;
          name = (if name0 = [] \<and> hasInlineValue then ToLower L key else name0);
          isSecret = isSecretFlagName name hasInlineValue
      in if redactValue \<and> \<not> isSecret then redactedValue # redact_loop L False rest
         else if isSecret then
           (if hasInlineValue then (key @ ''='' @ redactedValue) # redact_loop L False rest
            else arg # redact_loop L True rest)
         else
           (let colon = Index arg CHR '':'' in
            if 0 < colon \<and> \<not> hasInlineValue
               \<and> isSecretFlagName (flagName L (take (nat colon) arg)) False
            then take (nat colon + 1) arg @ redactedValue
            else arg) # redact_loop L False rest)"

definition redactCommandArgs :: "(nat \<Rightarrow> nat) \<Rightarrow> string list \<Rightarrow> string list" where
  "redactCommandArgs L args = redact_loop L False args"

section \<open>Joining and truncating\<close>

definition render_arg :: "string \<Rightarrow> string" where
  "render_arg arg = (if arg = [] then [CHR 0x22, CHR 0x22]
     else if ContainsAny arg [CHR '' '', CHR 0x09] then [CHR 0x22] @ arg @ [CHR 0x22]
     else arg)"

definition joinCommandArgs :: "string list \<Rightarrow> string" where
  "joinCommandArgs args = Join (map render_arg args) '' ''"

fun cut_back :: "string \<Rightarrow> nat \<Rightarrow> nat" where
  "cut_back s 0 = 0"
| "cut_back s (Suc n) = (if RuneStart (s ! Suc n) then Suc n else cut_back s n)"

definition truncateCommand :: "string \<Rightarrow> string" where
  "truncateCommand command =
     (if length command \<le> maxCommandLen then command
      else take (cut_back command maxCommandLen) command)"

section \<open>The signing context\<close>

record signing_context =
  sc_Command :: string
  sc_Application :: string
  sc_ApplicationHash :: string
  sc_Hostname :: string
  sc_OSUsername :: string

definition processCommandLine_windows :: "os_info \<Rightarrow> string list" where
  "processCommandLine_windows os = (case os_GetCommandLine os of
       None \<Rightarrow> os_Args os
     | Some raw \<Rightarrow> (case os_Decompose os raw of
           None \<Rightarrow> os_Args os
         | Some args \<Rightarrow> if args = [] then os_Args os else args))"

definition processCommandLine_other :: "os_info \<Rightarrow> string list" where
  "processCommandLine_other os = os_Args os"

definition processCommandLine :: "os_info \<Rightarrow> string list" where
  "processCommandLine os =
     (if os_Windows os then processCommandLine_windows os else processCommandLine_other os)"

definition fileSHA256 :: "os_info \<Rightarrow> string \<Rightarrow> string" where
  "fileSHA256 os path = (case os_ReadFile os path of
       FileData content \<Rightarrow> hex_encode (Sum256 content)
     | _ \<Rightarrow> [])"

text \<open>\<^verbatim>\<open>filepath.Base\<close>. On Windows both slashes separate and a drive prefix is dropped; the path is
  the one \<^verbatim>\<open>os.Executable\<close> returns, which names a file, so a UNC volume always ends before a
  separator.\<close>

definition is_sep :: "bool \<Rightarrow> char \<Rightarrow> bool" where
  "is_sep win c = (c = CHR ''/'' \<or> win \<and> c = CHR 0x5C)"

definition filepath_Base :: "bool \<Rightarrow> string \<Rightarrow> string" where
  "filepath_Base win path =
     (if path = [] then ''.''
      else let p = rev (dropWhile (is_sep win) (rev path));
               p = (if win \<and> 2 \<le> length p \<and> p ! 1 = CHR '':'' then drop 2 p else p);
               q = rev (takeWhile (\<lambda>c. \<not> is_sep win c) (rev p))
           in if q = [] then (if win then [CHR 0x5C] else ''/'') else q)"

definition capturedCommand :: "(nat \<Rightarrow> nat) \<Rightarrow> string list \<Rightarrow> string" where
  "capturedCommand L args = truncateCommand (joinCommandArgs (redactCommandArgs L args))"

text \<open>The body run under \<^verbatim>\<open>signingCtxOnce\<close>.\<close>

definition observe_context :: "(nat \<Rightarrow> nat) \<Rightarrow> os_info \<Rightarrow> signing_context" where
  "observe_context L os =
     (let c = \<lparr>sc_Command = [], sc_Application = [], sc_ApplicationHash = [],
               sc_Hostname = [], sc_OSUsername = []\<rparr>;
          c = (case os_Executable os of
                 None \<Rightarrow> c
               | Some exe \<Rightarrow> c\<lparr>sc_Application := filepath_Base (os_Windows os) exe,
                               sc_ApplicationHash := fileSHA256 os exe\<rparr>);
          c = c\<lparr>sc_Command := capturedCommand L (processCommandLine os)\<rparr>;
          c = c\<lparr>sc_Hostname := os_Hostname os\<rparr>
      in case os_CurrentUser os of None \<Rightarrow> c | Some u \<Rightarrow> c\<lparr>sc_OSUsername := u\<rparr>)"

text \<open>\<open>CurrentSigningContext\<close>: the cell is empty until the first call fills it.\<close>

definition CurrentSigningContext ::
    "(nat \<Rightarrow> nat) \<Rightarrow> os_info \<Rightarrow> signing_context option \<Rightarrow> signing_context \<times> signing_context option" where
  "CurrentSigningContext L os cell = (case cell of
       Some c \<Rightarrow> (c, Some c)
     | None \<Rightarrow> (let c = observe_context L os in (c, Some c)))"

section \<open>Payloads\<close>

record client_metadata =
  cm_Tool :: string
  cm_SigningApplicationHash :: string
  cm_Hostname :: string
  cm_OSUsername :: string
  cm_Command :: string
  cm_ModuleVersion :: string

record signing_scope =
  ss_Command :: string
  ss_SigningApplication :: string
  ss_SigningApplicationHash :: string
  ss_Hostname :: string
  ss_OSUsername :: string
  ss_DataHash :: string

definition ClientMetadata :: "signing_context \<Rightarrow> client_metadata" where
  "ClientMetadata c =
     \<lparr>cm_Tool = sc_Application c, cm_SigningApplicationHash = sc_ApplicationHash c,
      cm_Hostname = sc_Hostname c, cm_OSUsername = sc_OSUsername c, cm_Command = sc_Command c,
      cm_ModuleVersion = []\<rparr>"

definition RequestScope :: "signing_context \<Rightarrow> string \<Rightarrow> signing_scope" where
  "RequestScope c dataHash =
     \<lparr>ss_Command = sc_Command c, ss_SigningApplication = sc_Application c,
      ss_SigningApplicationHash = sc_ApplicationHash c, ss_Hostname = sc_Hostname c,
      ss_OSUsername = sc_OSUsername c, ss_DataHash = dataHash\<rparr>"

text \<open>The JSON members the struct tags produce; every one is \<^verbatim>\<open>omitempty\<close>.\<close>

definition omit_empty :: "(string \<times> string) list \<Rightarrow> (string \<times> string) list" where
  "omit_empty fs = filter (\<lambda>(_, v). v \<noteq> []) fs"

definition wire_metadata :: "client_metadata \<Rightarrow> (string \<times> string) list" where
  "wire_metadata m = omit_empty
     [(''tool'', cm_Tool m), (''signingApplicationHash'', cm_SigningApplicationHash m),
      (''hostname'', cm_Hostname m), (''osUsername'', cm_OSUsername m),
      (''command'', cm_Command m), (''moduleVersion'', cm_ModuleVersion m)]"

definition wire_scope :: "signing_scope \<Rightarrow> (string \<times> string) list" where
  "wire_scope s = omit_empty
     [(''command'', ss_Command s), (''signingApplication'', ss_SigningApplication s),
      (''signingApplicationHash'', ss_SigningApplicationHash s), (''hostname'', ss_Hostname s),
      (''osUsername'', ss_OSUsername s), (''dataHash'', ss_DataHash s)]"

section \<open>How one argument is treated\<close>

text \<open>The loop variables of \<^verbatim>\<open>redactCommandArgs\<close> as functions of the argument.\<close>

definition arg_key :: "string \<Rightarrow> string" where
  "arg_key arg = fst (Cut arg CHR ''='')"

definition arg_inline :: "string \<Rightarrow> bool" where
  "arg_inline arg = (CHR ''='' \<in> set arg)"

definition arg_name :: "(nat \<Rightarrow> nat) \<Rightarrow> string \<Rightarrow> string" where
  "arg_name L arg = (if flagName L (arg_key arg) = [] \<and> arg_inline arg then ToLower L (arg_key arg)
     else flagName L (arg_key arg))"

definition arg_secret :: "(nat \<Rightarrow> nat) \<Rightarrow> string \<Rightarrow> bool" where
  "arg_secret L arg = isSecretFlagName (arg_name L arg) (arg_inline arg)"

definition upto_colon :: "string \<Rightarrow> string" where
  "upto_colon arg = take (nat (Index arg CHR '':'')) arg"

definition colon_secret :: "(nat \<Rightarrow> nat) \<Rightarrow> string \<Rightarrow> bool" where
  "colon_secret L arg = (0 < Index arg CHR '':'' \<and> \<not> arg_inline arg
     \<and> isSecretFlagName (flagName L (upto_colon arg)) False)"

text \<open>Whether the argument makes the next one a value to hide, and what becomes of it.\<close>

definition arms :: "(nat \<Rightarrow> nat) \<Rightarrow> string \<Rightarrow> bool" where
  "arms L arg = (arg_secret L arg \<and> \<not> arg_inline arg)"

definition redact_one :: "(nat \<Rightarrow> nat) \<Rightarrow> bool \<Rightarrow> string \<Rightarrow> string" where
  "redact_one L armed arg =
     (if arg_secret L arg then (if arg_inline arg then arg_key arg @ ''='' @ redactedValue else arg)
      else if armed then redactedValue
      else if colon_secret L arg then upto_colon arg @ '':'' @ redactedValue
      else arg)"

lemma Cut_inline: "snd (snd (Cut arg CHR ''='')) = arg_inline arg"
  by (simp add: Cut_found arg_inline_def)

lemma take_upto_colon:
  "0 < Index arg CHR '':'' \<Longrightarrow>
   take (Suc (nat (Index arg CHR '':''))) arg = upto_colon arg @ '':''"
proof -
  assume "0 < Index arg CHR '':''"
  then have "CHR '':'' \<in> set arg" using Index_neg[of arg "CHR '':''"] by simp
  then obtain b a where s: "arg = b @ CHR '':'' # a" "CHR '':'' \<notin> set b"
    by (meson split_list_first)
  then show ?thesis by (simp add: Index_append upto_colon_def)
qed

lemma redact_loop_step:
  "redact_loop L armed (arg # rest) = redact_one L armed arg # redact_loop L (arms L arg) rest"
proof -
  obtain key v where c: "Cut arg CHR ''='' = (key, v, arg_inline arg)"
    using Cut_inline[of arg] by (metis prod.collapse)
  then have k: "arg_key arg = key" by (simp add: arg_key_def)
  have n: "arg_name L arg = (if flagName L key = [] \<and> arg_inline arg then ToLower L key
      else flagName L key)"
    by (simp add: arg_name_def k)
  show ?thesis
    by (simp add: c Let_def n [symmetric] arg_secret_def [symmetric] redact_one_def arms_def k
        colon_secret_def upto_colon_def [symmetric] take_upto_colon)
qed

declare redact_loop.simps(2) [simp del]
declare redact_loop_step [simp]

lemma length_redact: "length (redactCommandArgs L args) = length args"
proof -
  have "length (redact_loop L armed args) = length args" for armed
    by (induction args arbitrary: armed) auto
  then show ?thesis by (simp add: redactCommandArgs_def)
qed

section \<open>Redaction is idempotent\<close>

lemma redacted_props [simp]:
  "CHR ''='' \<notin> set redactedValue" "CHR '':'' \<notin> set redactedValue" "redactedValue \<noteq> []"
  "is_ascii (hd redactedValue)" "last redactedValue = CHR ''*''"
  by (simp_all add: redactedValue_def is_ascii_def byte_def)

lemma ToLower_redacted [simp]: "ToLower L (s @ redactedValue) = ToLower L s @ redactedValue"
  by (subst ToLower_append)
    (simp_all add: ToLower_ascii redactedValue_def is_ascii_def byte_def lower_ascii_def)

lemma starred_not_secret: "name \<noteq> [] \<Longrightarrow> last name = CHR ''*'' \<Longrightarrow> \<not> isSecretFlagName name False"
  by (auto simp: isSecretFlagName_def secretCommandFlags_def hasSecretSuffix_def
      dest: HasSuffix_lastD)

lemma not_secret_Nil [simp]: "\<not> isSecretFlagName [] b"
  by (simp add: isSecretFlagName_def)

lemma HasPrefix_drop: "HasPrefix s p \<Longrightarrow> \<exists>t. s = p @ t"
  by (auto simp: HasPrefix_def prefix_def)

lemma flagName_starred: "flagName L (s @ redactedValue) = [] \<or> last (flagName L (s @ redactedValue)) = CHR ''*''"
proof -
  have last: "last (ToLower L (drop n (s @ redactedValue))) = CHR ''*''" if "n \<le> length s" for n
    using that by simp
  have "\<not> HasPrefix (s @ redactedValue) ''--'' \<or> 2 \<le> length s"
    by (cases s; cases "tl s") (auto simp: HasPrefix_def redactedValue_def)
  moreover have "\<not> HasPrefix (s @ redactedValue) ''-'' \<or> 1 \<le> length s"
    "\<not> HasPrefix (s @ redactedValue) ''/'' \<or> 1 \<le> length s"
    by (cases s; simp add: HasPrefix_def redactedValue_def)+
  ultimately show ?thesis
    using last[of 2] last[of 1] unfolding flagName_def by (simp split: if_splits)
qed

lemma arg_key_noinline: "\<not> arg_inline arg \<Longrightarrow> arg_key arg = arg"
  by (simp add: arg_key_def arg_inline_def Cut_None)

lemma starred_arg_not_secret:
  "CHR ''='' \<notin> set s \<Longrightarrow> \<not> arg_secret L (s @ redactedValue)"
proof -
  assume s: "CHR ''='' \<notin> set s"
  then have i: "\<not> arg_inline (s @ redactedValue)" by (simp add: arg_inline_def)
  show ?thesis
    using flagName_starred[of L s] starred_not_secret[of "flagName L (s @ redactedValue)"] i
    by (cases "flagName L (s @ redactedValue) = []")
      (auto simp: arg_secret_def arg_name_def arg_key_noinline)
qed

lemma redact_one_idem:
  "redact_one L armed (redact_one L armed arg) = redact_one L armed arg
   \<and> arms L (redact_one L armed arg) = arms L arg"
proof -
  consider (inline) "arg_secret L arg" "arg_inline arg" | (flag) "arg_secret L arg" "\<not> arg_inline arg"
    | (armed) "\<not> arg_secret L arg" armed
    | (colon) "\<not> arg_secret L arg" "\<not> armed" "colon_secret L arg"
    | (plain) "\<not> arg_secret L arg" "\<not> armed" "\<not> colon_secret L arg" by blast
  then show ?thesis
  proof cases
    case inline
    let ?out = "arg_key arg @ ''='' @ redactedValue"
    have "CHR ''='' \<notin> set (arg_key arg)" by (simp add: arg_key_def Cut_key_free)
    then have k: "arg_key ?out = arg_key arg" "arg_inline ?out"
      by (simp_all add: arg_key_def Cut_Some arg_inline_def)
    then have "arg_secret L ?out" using inline by (simp only: arg_secret_def arg_name_def)
    with inline k show ?thesis by (simp add: redact_one_def arms_def)
  next
    case flag
    then show ?thesis by (simp add: redact_one_def)
  next
    case armed
    then show ?thesis
      using starred_arg_not_secret[of "[]" L] by (simp add: redact_one_def arms_def)
  next
    case colon
    let ?out = "upto_colon arg @ '':'' @ redactedValue"
    from colon have c: "CHR '':'' \<in> set arg" "CHR ''='' \<notin> set arg"
      using Index_neg[of arg "CHR '':''"] by (auto simp: colon_secret_def arg_inline_def)
    then obtain b a where s: "arg = b @ CHR '':'' # a" "CHR '':'' \<notin> set b"
      by (meson split_list_first)
    then have u: "upto_colon arg = b" by (simp add: upto_colon_def Index_append)
    then have u': "upto_colon ?out = b" using s by (simp add: upto_colon_def Index_append)
    have "CHR ''='' \<notin> set b" using c s by simp
    then have ns: "\<not> arg_secret L ?out" "\<not> arg_inline ?out"
      using starred_arg_not_secret[of "b @ '':''" L] u by (simp_all add: arg_inline_def)
    have "colon_secret L ?out"
      using colon(3) u u' ns(2) s by (simp add: colon_secret_def Index_append)
    with colon ns u u' show ?thesis by (simp add: redact_one_def arms_def)
  next
    case plain
    then show ?thesis by (simp add: redact_one_def)
  qed
qed

lemma redact_loop_idem: "redact_loop L armed (redact_loop L armed args) = redact_loop L armed args"
  by (induction args arbitrary: armed) (simp_all add: redact_one_idem)

section \<open>Redaction hides values\<close>

text \<open>
  Two arguments in the same position that differ only in a credential: the argument after a
  secret flag, the part after \<^verbatim>\<open>=\<close> of a secret key, or the part after the colon of a
  secret flag.
\<close>

definition hides :: "(nat \<Rightarrow> nat) \<Rightarrow> bool \<Rightarrow> string \<Rightarrow> string \<Rightarrow> bool" where
  "hides L armed x y \<longleftrightarrow> x = y
     \<or> armed \<and> \<not> arg_secret L x \<and> \<not> arg_secret L y
     \<or> arg_secret L x \<and> arg_inline x \<and> arg_inline y \<and> arg_key x = arg_key y
     \<or> \<not> arg_secret L x \<and> \<not> arg_secret L y \<and> colon_secret L x \<and> colon_secret L y
         \<and> upto_colon x = upto_colon y"

fun same_but_secrets :: "(nat \<Rightarrow> nat) \<Rightarrow> bool \<Rightarrow> string list \<Rightarrow> string list \<Rightarrow> bool" where
  "same_but_secrets L armed [] [] = True"
| "same_but_secrets L armed (x # xs) (y # ys) =
     (hides L armed x y \<and> same_but_secrets L (arms L x) xs ys)"
| "same_but_secrets L armed _ _ = False"

lemma hides_redact:
  "hides L armed x y \<Longrightarrow> redact_one L armed x = redact_one L armed y \<and> arms L x = arms L y"
  by (auto simp: hides_def redact_one_def arms_def arg_secret_def arg_name_def)

lemma same_but_secrets_redact:
  "same_but_secrets L armed xs ys \<Longrightarrow> redact_loop L armed xs = redact_loop L armed ys"
  by (induction L armed xs ys rule: same_but_secrets.induct) (auto dest: hides_redact)

section \<open>The joined command line\<close>

text \<open>How a reader of the command splits it: white space separates outside quotes.\<close>

fun split_args :: "string \<Rightarrow> bool \<Rightarrow> string \<Rightarrow> bool \<Rightarrow> string list" where
  "split_args [] quoted acc started = (if started then [rev acc] else [])"
| "split_args (c # s) quoted acc started =
     (if c = CHR 0x22 then split_args s (\<not> quoted) acc True
      else if \<not> quoted \<and> (c = CHR '' '' \<or> c = CHR 0x09)
      then (if started then rev acc # split_args s False [] False else split_args s False [] False)
      else split_args s quoted (c # acc) True)"

definition quote_free :: "string list \<Rightarrow> bool" where
  "quote_free args = list_all (\<lambda>a. CHR 0x22 \<notin> set a) args"

lemma split_plain:
  "CHR 0x22 \<notin> set a \<Longrightarrow> \<not> ContainsAny a [CHR '' '', CHR 0x09] \<Longrightarrow>
   split_args (a @ rest) False acc started = split_args rest False (rev a @ acc) (started \<or> a \<noteq> [])"
  by (induction a arbitrary: acc started) (auto simp: ContainsAny_def)

lemma split_quoted:
  "CHR 0x22 \<notin> set a \<Longrightarrow>
   split_args (a @ CHR 0x22 # rest) True acc started = split_args rest False (rev a @ acc) True"
  by (induction a arbitrary: acc started) auto

lemma split_render:
  assumes "CHR 0x22 \<notin> set a"
  shows "split_args (render_arg a @ rest) False [] False = split_args rest False (rev a) True"
  using split_plain[OF assms, of rest "[]" False] split_quoted[OF assms, of rest "[]" True]
  by (auto simp: render_arg_def)

lemma split_join:
  assumes "quote_free args"
  shows "split_args (joinCommandArgs args) False [] False = args"
  using assms
proof (induction args)
  case Nil
  then show ?case by (simp add: joinCommandArgs_def)
next
  case (Cons a args)
  then have a: "CHR 0x22 \<notin> set a" and IH: "split_args (joinCommandArgs args) False [] False = args"
    by (auto simp: quote_free_def)
  show ?case
  proof (cases args)
    case Nil
    with split_render[OF a, of "[]"] show ?thesis by (simp add: joinCommandArgs_def)
  next
    case (Cons b args')
    with split_render[OF a, of "'' '' @ joinCommandArgs args"] IH
    show ?thesis by (simp add: joinCommandArgs_def)
  qed
qed

interpretation join: codec quote_free joinCommandArgs "\<lambda>s. Some (split_args s False [] False)"
  by unfold_locales (simp add: split_join)

section \<open>Truncation\<close>

lemma cut_back_le: "cut_back s n \<le> n"
  by (induction n) auto

lemma cut_back_start: "cut_back s n = 0 \<or> RuneStart (s ! cut_back s n)"
  by (induction n) auto

lemma cut_back_ge: "k \<le> n \<Longrightarrow> RuneStart (s ! (n - k)) \<Longrightarrow> n - k \<le> cut_back s n"
proof (induction n arbitrary: k)
  case (Suc n)
  then show ?case by (cases k) auto
qed simp

lemma truncateCommand_le: "length (truncateCommand s) \<le> maxCommandLen"
  using cut_back_le[of s maxCommandLen] by (simp add: truncateCommand_def)

lemma truncateCommand_valid:
  assumes "valid_utf8 s" shows "valid_utf8 (truncateCommand s)"
proof (cases "length s \<le> maxCommandLen")
  case False
  let ?n = "cut_back s maxCommandLen"
  have "?n < length s" using cut_back_le[of s maxCommandLen] False by simp
  then show ?thesis
    using cut_back_start[of s maxCommandLen] valid_utf8_take[OF assms, of ?n] False
    by (auto simp: truncateCommand_def)
qed (simp add: truncateCommand_def assms)

lemma truncateCommand_ge:
  assumes "valid_utf8 s" "maxCommandLen < length s"
  shows "maxCommandLen - 3 \<le> length (truncateCommand s)"
proof -
  obtain k where "k \<le> 3" "k \<le> maxCommandLen" "RuneStart (s ! (maxCommandLen - k))"
    using valid_utf8_boundary[OF assms] by blast
  then have "maxCommandLen - 3 \<le> cut_back s maxCommandLen"
    using cut_back_ge[of k maxCommandLen s] by linarith
  then show ?thesis
    using assms(2) cut_back_le[of s maxCommandLen] by (simp add: truncateCommand_def)
qed

section \<open>Properties\<close>

text \<open>The flag that is pending after some arguments.\<close>

definition armed_after :: "(nat \<Rightarrow> nat) \<Rightarrow> bool \<Rightarrow> string list \<Rightarrow> bool" where
  "armed_after L armed args = (if args = [] then armed else arms L (last args))"

lemma redact_loop_append:
  "redact_loop L armed (xs @ ys) = redact_loop L armed xs @ redact_loop L (armed_after L armed xs) ys"
  by (induction xs arbitrary: armed) (auto simp: armed_after_def)

lemma length_redact_loop [simp]: "length (redact_loop L armed args) = length args"
  by (induction args arbitrary: armed) auto

definition lower_letter :: "char \<Rightarrow> bool" where
  "lower_letter c \<longleftrightarrow> 97 \<le> byte c \<and> byte c \<le> 122"

lemma ToLower_letters: "list_all lower_letter f \<Longrightarrow> ToLower L f = f"
proof -
  assume f: "list_all lower_letter f"
  then have "list_all is_ascii f" by (auto simp: list_all_iff lower_letter_def is_ascii_def)
  moreover have "map lower_ascii f = f"
    using f by (intro map_idI) (auto simp: list_all_iff lower_letter_def lower_ascii_def)
  ultimately show ?thesis by (simp add: ToLower_ascii)
qed

lemma listed_letters: "f \<in> set secretCommandFlags \<Longrightarrow> list_all lower_letter f \<and> f \<noteq> []"
  by (auto simp: secretCommandFlags_def lower_letter_def byte_def)

lemma flagName_listed:
  assumes "f \<in> set secretCommandFlags" "p \<in> {''-'', ''--'', ''/''}"
  shows "flagName L (p @ f) = f \<and> CHR ''='' \<notin> set (p @ f)"
proof -
  obtain c t where f: "f = c # t" "list_all lower_letter f"
    using listed_letters[OF assms(1)] by (cases f) auto
  then have "c \<noteq> CHR ''-''" "CHR ''='' \<notin> set f"
    by (auto simp: lower_letter_def byte_def list_all_iff)
  then show ?thesis
    using assms(2) f ToLower_letters[OF f(2), of L] by (auto simp: flagName_def HasPrefix_def)
qed

lemma listed_secret: "f \<in> set secretCommandFlags \<Longrightarrow> isSecretFlagName f b"
  by (auto simp: isSecretFlagName_def secretCommandFlags_def)

lemma listed_flag:
  assumes "f \<in> set secretCommandFlags" "p \<in> {''-'', ''--'', ''/''}"
  shows "arg_secret L (p @ f) \<and> arms L (p @ f)"
    and "arg_secret L (p @ f @ ''='' @ v) \<and> arg_inline (p @ f @ ''='' @ v)
       \<and> arg_key (p @ f @ ''='' @ v) = p @ f"
proof -
  have f: "flagName L (p @ f) = f" "CHR ''='' \<notin> set (p @ f)" "f \<noteq> []"
    using flagName_listed[OF assms, of L] assms(1) by (auto simp: secretCommandFlags_def)
  then have "\<not> arg_inline (p @ f)" by (simp add: arg_inline_def)
  with f show "arg_secret L (p @ f) \<and> arms L (p @ f)"
    by (simp add: arms_def arg_secret_def arg_name_def arg_key_noinline listed_secret[OF assms(1)])
  have "arg_key (p @ f @ ''='' @ v) = p @ f"
    using Cut_Some[of "CHR ''=''" "p @ f" v] f(2) by (simp add: arg_key_def)
  moreover have "arg_inline (p @ f @ ''='' @ v)" by (simp add: arg_inline_def)
  ultimately show "arg_secret L (p @ f @ ''='' @ v) \<and> arg_inline (p @ f @ ''='' @ v)
      \<and> arg_key (p @ f @ ''='' @ v) = p @ f"
    using f by (simp add: arg_secret_def arg_name_def listed_secret[OF assms(1)])
qed





text \<open>The form with a colon is not always caught: a value with an equals sign, as base64 has it,
  survives, and so does a value that itself ends in a word for a secret, which redacts the next
  argument instead.\<close>

theorem colon_value_kept:
  "redactCommandArgs (\<lambda>n. n) [''-pass:c2VjcmV0=='', ''-pass:mypassword'', ''app.exe'']
   = [''-pass:c2VjcmV0=='', ''-pass:mypassword'', ''***'']"
  by code_simp

text \<open>Redaction keeps the number of arguments and is idempotent: a redacted command line, were
  it redacted again, would not change.\<close>

theorem redact_idempotent:
  "length (redactCommandArgs L args) = length args
   \<and> redactCommandArgs L (redactCommandArgs L args) = redactCommandArgs L args"
  by (simp add: redactCommandArgs_def redact_loop_idem)

text \<open>C39: joining loses nothing as long as no argument contains a double quote: splitting the joined
  text at unquoted white space gives the arguments back, so two such command lines never join to
  the same text.\<close>

theorem join_injective:
  assumes "quote_free xs" "quote_free ys"
  shows "split_args (joinCommandArgs xs) False [] False = xs
     \<and> (joinCommandArgs xs = joinCommandArgs ys \<longleftrightarrow> xs = ys)"
  using split_join[OF assms(1)] join.enc_inject[OF assms] by simp

theorem join_injective_witness:
  "joinCommandArgs [''a b'', []] \<noteq> joinCommandArgs [''a'', ''b'', []]"
  using join_injective[of "[''a b'', []]" "[''a'', ''b'', []]"] by (simp add: quote_free_def)

text \<open>With a double quote inside an argument the joined text is ambiguous.\<close>

theorem join_ambiguous:
  "joinCommandArgs [''a b''] = joinCommandArgs [[CHR 0x22] @ ''a'', ''b'' @ [CHR 0x22]]"
  by (simp add: joinCommandArgs_def render_arg_def ContainsAny_def)

text \<open>C40: the captured command is a prefix of the joined one of at most 2048 bytes; it is all of it
  when that fits, and otherwise, for valid UTF-8, it is valid UTF-8 and loses at most three
  bytes of the limit.\<close>

theorem truncate_command:
  assumes "valid_utf8 s"
  shows "prefix (truncateCommand s) s \<and> length (truncateCommand s) \<le> 2048
     \<and> valid_utf8 (truncateCommand s)
     \<and> (if length s \<le> 2048 then truncateCommand s = s else 2045 \<le> length (truncateCommand s))"
  using truncateCommand_le[of s] truncateCommand_valid[OF assms] truncateCommand_ge[OF assms]
  by (auto simp: truncateCommand_def maxCommandLen_def take_is_prefix)

theorem truncate_command_witness: "valid_utf8 (truncateCommand ''abc'') \<and> truncateCommand ''abc'' = ''abc''"
proof -
  have "valid_utf8 ''abc''"
    by (simp add: valid_utf8_def segments_ascii is_ascii_def byte_def rune_error_def)
  from truncate_command[OF this] this show ?thesis by simp
qed

lemma map_of_omit_empty:
  "distinct (map fst fs) \<Longrightarrow> map_of (omit_empty fs) k =
     (case map_of fs k of None \<Rightarrow> None | Some v \<Rightarrow> if v = [] then None else Some v)"
proof (induction fs)
  case Nil
  then show ?case by (simp add: omit_empty_def)
next
  case (Cons x fs)
  obtain l v where x: "x = (l, v)" by force
  have none: "map_of fs l = None" using Cons.prems x by (simp add: map_of_eq_None_iff)
  have "omit_empty (x # fs) = (if v = [] then omit_empty fs else x # omit_empty fs)"
    by (simp add: omit_empty_def x)
  with Cons none x show ?case by (auto split: option.split)
qed

text \<open>What an approver is shown agrees with what the sign request declares: command, application,
  application hash, host and user are sent under the two schemas with equal values, empty ones are
  left out of both, and the scope carries the data hash besides.\<close>

theorem scope_agrees_with_metadata:
  "map_of (wire_scope (RequestScope c h)) ''command'' = map_of (wire_metadata (ClientMetadata c)) ''command''
   \<and> map_of (wire_scope (RequestScope c h)) ''signingApplication'' = map_of (wire_metadata (ClientMetadata c)) ''tool''
   \<and> map_of (wire_scope (RequestScope c h)) ''signingApplicationHash''
       = map_of (wire_metadata (ClientMetadata c)) ''signingApplicationHash''
   \<and> map_of (wire_scope (RequestScope c h)) ''hostname'' = map_of (wire_metadata (ClientMetadata c)) ''hostname''
   \<and> map_of (wire_scope (RequestScope c h)) ''osUsername'' = map_of (wire_metadata (ClientMetadata c)) ''osUsername''
   \<and> map_of (wire_scope (RequestScope c h)) ''dataHash'' = (if h = [] then None else Some h)
   \<and> (\<exists>k. map_of (wire_metadata (ClientMetadata c)) ''command'' = Some k) = (sc_Command c \<noteq> [])"
  unfolding wire_scope_def wire_metadata_def by (simp add: map_of_omit_empty RequestScope_def ClientMetadata_def)

end
