(* ===== verification/Json.thy ===== *)
theory Json
  imports GoErrors
begin

text \<open>
  \<^verbatim>\<open>encoding/json.Unmarshal\<close> as the program uses it: the grammar check, string unquoting,
  and the rules by which members reach struct fields (exact name, then case-folded name; \<^verbatim>\<open>null\<close>
  leaves a field alone; a type mismatch is remembered while decoding goes on). Text is cut into
  tokens, and the tokens drive a machine with an explicit stack, as Go's scanner does.
\<close>

section \<open>Values and tokens\<close>

datatype json = JNull | JBool bool | JNum string | JStr string | JArr "json list"
  | JObj "(string \<times> json) list"

datatype token = TLBrace | TRBrace | TLBrack | TRBrack | TComma | TColon
  | TStr string | TNum string | TBool bool | TNull

section \<open>Lexing\<close>

definition json_ws :: "char \<Rightarrow> bool" where
  "json_ws c = (c \<in> set [CHR '' '', CHR 0x09, CHR 0x0A, CHR 0x0D])"

definition is_hex :: "char \<Rightarrow> bool" where
  "is_hex c = (let b = byte c in 48 \<le> b \<and> b \<le> 57 \<or> 65 \<le> b \<and> b \<le> 70 \<or> 97 \<le> b \<and> b \<le> 102)"

definition hex_val :: "char \<Rightarrow> nat" where
  "hex_val c = (let b = byte c in if b \<le> 57 then b - 48 else if b \<le> 70 then b - 55 else b - 87)"

text \<open>The body of a string literal up to its closing quote, escapes checked but kept.\<close>

fun raw_string :: "string \<Rightarrow> (string \<times> string) option" where
  "raw_string [] = None"
| "raw_string (c # s) =
     (if c = CHR 0x22 then Some ([], s)
      else if byte c < 32 then None
      else if c = CHR 0x5C then
        (case s of
           [] \<Rightarrow> None
         | e # t \<Rightarrow>
             if e = CHR ''u'' \<and> \<not> (4 \<le> length t \<and> list_all is_hex (take 4 t)) then None
             else if e \<in> set [CHR 0x22, CHR 0x5C, CHR ''/'', CHR ''b'', CHR ''f'', CHR ''n'',
                              CHR ''r'', CHR ''t'', CHR ''u'']
             then map_option (\<lambda>(r, rest). (c # e # r, rest)) (raw_string t)
             else None)
      else map_option (\<lambda>(r, rest). (c # r, rest)) (raw_string s))"

definition hex4 :: "string \<Rightarrow> nat" where
  "hex4 s = foldl (\<lambda>n c. n * 16 + hex_val c) 0 (take 4 s)"

definition simple_escape :: "char \<Rightarrow> char" where
  "simple_escape e = (if e = CHR ''b'' then CHR 0x08 else if e = CHR ''f'' then CHR 0x0C
     else if e = CHR ''n'' then CHR 0x0A else if e = CHR ''r'' then CHR 0x0D
     else if e = CHR ''t'' then CHR 0x09 else e)"

text \<open>\<^verbatim>\<open>unquote\<close>: one step yields the decoded bytes and how much input it used.\<close>

definition unquote_step :: "string \<Rightarrow> string \<times> nat" where
  "unquote_step s =
     (if hd s = CHR 0x5C \<and> 2 \<le> length s then
        (if s ! 1 = CHR ''u'' then
           (let r = hex4 (drop 2 s); s2 = drop 6 s in
            if 55296 \<le> r \<and> r \<le> 57343 then
              (let r2 = hex4 (drop 2 s2) in
               if r < 56320 \<and> HasPrefix s2 [CHR 0x5C, CHR ''u''] \<and> 56320 \<le> r2 \<and> r2 \<le> 57343
               then (encode_rune (65536 + (r - 55296) * 1024 + (r2 - 56320)), 12)
               else (encode_rune rune_error, 6))
            else (encode_rune r, 6))
         else ([simple_escape (s ! 1)], 2))
      else (let (r, n) = decode_rune s in (encode_rune r, n)))"

function unquote :: "string \<Rightarrow> string" where
  "unquote s = (if s = [] then []
     else let (out, n) = unquote_step s in out @ unquote (drop (max 1 n) s))"
  by pat_completeness auto
termination
  by (relation "measure length") auto

declare unquote.simps [simp del]

definition valid_number :: "string \<Rightarrow> bool" where
  "valid_number s0 =
     (let s = (if HasPrefix s0 ''-'' then tl s0 else s0);
          ip = takeWhile is_digit s; s1 = dropWhile is_digit s;
          (frac_ok, s2) = (if HasPrefix s1 ''.''
             then (takeWhile is_digit (tl s1) \<noteq> [], dropWhile is_digit (tl s1)) else (True, s1));
          exp_ok = (if s2 = [] then True
             else hd s2 \<in> set ''eE'' \<and>
               (let e = tl s2; e = (if HasPrefix e ''+'' \<or> HasPrefix e ''-'' then tl e else e)
                in e \<noteq> [] \<and> list_all is_digit e))
      in ip \<noteq> [] \<and> (hd ip = CHR ''0'' \<longrightarrow> length ip = 1) \<and> frac_ok \<and> exp_ok)"

definition num_char :: "char \<Rightarrow> bool" where
  "num_char c = (is_digit c \<or> c \<in> set ''+-.eE'')"

definition next_token :: "string \<Rightarrow> (token \<times> string) option" where
  "next_token s = (case s of
       [] \<Rightarrow> None
     | c # t \<Rightarrow>
        if c = CHR ''{'' then Some (TLBrace, t) else if c = CHR ''}'' then Some (TRBrace, t)
        else if c = CHR ''['' then Some (TLBrack, t) else if c = CHR '']'' then Some (TRBrack, t)
        else if c = CHR '','' then Some (TComma, t) else if c = CHR '':'' then Some (TColon, t)
        else if c = CHR 0x22 then map_option (\<lambda>(r, rest). (TStr (unquote r), rest)) (raw_string t)
        else if HasPrefix s ''true'' then Some (TBool True, drop 4 s)
        else if HasPrefix s ''false'' then Some (TBool False, drop 5 s)
        else if HasPrefix s ''null'' then Some (TNull, drop 4 s)
        else if is_digit c \<or> c = CHR ''-'' then
          (if valid_number (takeWhile num_char s)
           then Some (TNum (takeWhile num_char s), dropWhile num_char s) else None)
        else None)"

lemma raw_string_length: "raw_string s = Some (r, rest) \<Longrightarrow> length rest < length s"
  by (induction s arbitrary: r rest rule: raw_string.induct)
    (fastforce split: if_splits list.splits)+

lemma next_token_length: "next_token s = Some (t, rest) \<Longrightarrow> length rest < length s"
proof -
  assume a: "next_token s = Some (t, rest)"
  then obtain c u where s: "s = c # u" by (cases s) (auto simp: next_token_def)
  have "length (dropWhile num_char s) < length s" if "is_digit c \<or> c = CHR ''-''"
    using that length_dropWhile_le[of num_char u] s by (auto simp: num_char_def)
  with a s show ?thesis
    by (auto simp: next_token_def dest: raw_string_length split: if_splits)
qed

function tokens :: "string \<Rightarrow> token list option" where
  "tokens s =
     (let s' = dropWhile json_ws s in
      if s' = [] then Some []
      else case next_token s' of
          None \<Rightarrow> None
        | Some (t, rest) \<Rightarrow> map_option ((#) t) (tokens rest))"
  by pat_completeness auto
termination
proof (relation "measure length")
  fix s s' x t rest
  assume "s' = dropWhile json_ws s" and "next_token s' = Some x" and "(t, rest) = x"
  then show "(rest, s) \<in> measure length"
    using next_token_length[of s' t rest] length_dropWhile_le[of json_ws s] by auto
qed simp

declare tokens.simps [simp del]

section \<open>Parsing\<close>

datatype frame = FArr "json list" | FObj "(string \<times> json) list" | FVal "(string \<times> json) list" string

datatype pstate = PVal | PValOrEnd | PKey | PKeyOrEnd | PColon string | PDone json

text \<open>A token where a value may start.\<close>

definition start_value :: "frame list \<Rightarrow> token \<Rightarrow> (pstate \<times> frame list) option" where
  "start_value fs t = (case t of
       TStr s \<Rightarrow> Some (PDone (JStr s), fs)
     | TNum s \<Rightarrow> Some (PDone (JNum s), fs)
     | TBool b \<Rightarrow> Some (PDone (JBool b), fs)
     | TNull \<Rightarrow> Some (PDone JNull, fs)
     | TLBrack \<Rightarrow> if 10000 \<le> length fs then None else Some (PValOrEnd, FArr [] # fs)
     | TLBrace \<Rightarrow> if 10000 \<le> length fs then None else Some (PKeyOrEnd, FObj [] # fs)
     | _ \<Rightarrow> None)"

fun json_step :: "pstate \<Rightarrow> frame list \<Rightarrow> token \<Rightarrow> (pstate \<times> frame list) option" where
  "json_step PVal fs t = start_value fs t"
| "json_step PValOrEnd (FArr vs # fs) TRBrack = Some (PDone (JArr (rev vs)), fs)"
| "json_step PValOrEnd fs t = start_value fs t"
| "json_step PKeyOrEnd (FObj ms # fs) TRBrace = Some (PDone (JObj (rev ms)), fs)"
| "json_step PKeyOrEnd fs (TStr k) = Some (PColon k, fs)"
| "json_step PKey fs (TStr k) = Some (PColon k, fs)"
| "json_step (PColon k) (FObj ms # fs) TColon = Some (PVal, FVal ms k # fs)"
| "json_step (PDone v) (FArr vs # fs) TComma = Some (PVal, FArr (v # vs) # fs)"
| "json_step (PDone v) (FArr vs # fs) TRBrack = Some (PDone (JArr (rev (v # vs))), fs)"
| "json_step (PDone v) (FVal ms k # fs) TComma = Some (PKey, FObj ((k, v) # ms) # fs)"
| "json_step (PDone v) (FVal ms k # fs) TRBrace = Some (PDone (JObj (rev ((k, v) # ms))), fs)"
| "json_step _ _ _ = None"

fun json_run :: "pstate \<Rightarrow> frame list \<Rightarrow> token list \<Rightarrow> json option" where
  "json_run st fs [] = (case (st, fs) of (PDone v, []) \<Rightarrow> Some v | _ \<Rightarrow> None)"
| "json_run st fs (t # ts) =
     (case json_step st fs t of None \<Rightarrow> None | Some (st', fs') \<Rightarrow> json_run st' fs' ts)"

definition json_parse :: "string \<Rightarrow> json option" where
  "json_parse s = (case tokens s of None \<Rightarrow> None | Some ts \<Rightarrow> json_run PVal [] ts)"

section \<open>Decoding into fields\<close>

text \<open>\<^verbatim>\<open>foldName\<close>, exact for comparison with an ASCII field name: besides ASCII case, the long s
  and the Kelvin sign fold to ASCII letters.\<close>

definition foldName :: "string \<Rightarrow> string" where
  "foldName s = concat (map (\<lambda>(r, bs). if r < 128 then map upper_ascii bs
     else if r = 383 then ''S'' else if r = 8490 then ''K'' else bs) (segments s))"

text \<open>The field a member name selects among the tags of a struct.\<close>

definition select_field :: "string list \<Rightarrow> string \<Rightarrow> string option" where
  "select_field tags k =
     (if k \<in> set tags then Some k
      else find (\<lambda>t. foldName t = foldName k) tags)"

text \<open>Scalar targets: the new value, and whether the types fit.\<close>

definition dec_string :: "json \<Rightarrow> string \<Rightarrow> string \<times> bool" where
  "dec_string j old = (case j of JNull \<Rightarrow> (old, True) | JStr s \<Rightarrow> (s, True) | _ \<Rightarrow> (old, False))"

definition dec_bool :: "json \<Rightarrow> bool \<Rightarrow> bool \<times> bool" where
  "dec_bool j old = (case j of JNull \<Rightarrow> (old, True) | JBool b \<Rightarrow> (b, True) | _ \<Rightarrow> (old, False))"

text \<open>\<^verbatim>\<open>strconv.ParseInt(item, 10, 64)\<close> on a JSON number.\<close>

definition dec_int :: "json \<Rightarrow> int \<Rightarrow> int \<times> bool" where
  "dec_int j old = (case j of
       JNull \<Rightarrow> (old, True)
     | JNum s \<Rightarrow>
         (let neg = HasPrefix s ''-''; ds = (if neg then tl s else s);
              v = (if neg then - int (dec_val ds) else int (dec_val ds))
          in if list_all is_digit ds \<and> - (2 ^ 63) \<le> v \<and> v < 2 ^ 63 then (v, True) else (old, False))
     | _ \<Rightarrow> (old, False))"

text \<open>A struct target: the members in order, each through the decoder of its field.\<close>

definition dec_struct ::
    "string list \<Rightarrow> (string \<Rightarrow> json \<Rightarrow> 'r \<Rightarrow> 'r \<times> bool) \<Rightarrow> json \<Rightarrow> 'r \<Rightarrow> 'r \<times> bool" where
  "dec_struct tags set_field j old = (case j of
       JNull \<Rightarrow> (old, True)
     | JObj ms \<Rightarrow> fold (\<lambda>(k, v) (r, ok). case select_field tags k of
           None \<Rightarrow> (r, ok)
         | Some t \<Rightarrow> (case set_field t v r of (r', ok') \<Rightarrow> (r', ok \<and> ok'))) ms (old, True)
     | _ \<Rightarrow> (old, False))"

text \<open>\<^verbatim>\<open>json.Unmarshal\<close>: the target afterwards and whether the error is \<^verbatim>\<open>nil\<close>.\<close>

definition json_Unmarshal :: "(json \<Rightarrow> 'r \<Rightarrow> 'r \<times> bool) \<Rightarrow> string \<Rightarrow> 'r \<Rightarrow> 'r \<times> bool" where
  "json_Unmarshal decode data old = (case json_parse data of
       None \<Rightarrow> (old, False)
     | Some j \<Rightarrow> decode j old)"

end
