(* ===== verification/GoUrl.thy ===== *)
theory GoUrl
  imports GoErrors
begin

text \<open>
  What the program uses of \<^verbatim>\<open>net/url\<close> (Go 1.24): \<^verbatim>\<open>url.Parse\<close> as far as the scheme, the
  host and failure go, and \<^verbatim>\<open>url.PathEscape\<close>. Library error texts are abbreviated.
\<close>

section \<open>Escaping\<close>

datatype url_mode = encodePath | encodePathSegment | encodeHost | encodeZone
  | encodeUserPassword | encodeFragment

definition alnum :: "char \<Rightarrow> bool" where
  "alnum c = (let b = byte c in 48 \<le> b \<and> b \<le> 57 \<or> 65 \<le> b \<and> b \<le> 90 \<or> 97 \<le> b \<and> b \<le> 122)"

text \<open>\<^verbatim>\<open>shouldEscape\<close>, in the order of its tests.\<close>

definition shouldEscape :: "char \<Rightarrow> url_mode \<Rightarrow> bool" where
  "shouldEscape c mode =
     (if alnum c then False
      else if mode \<in> {encodeHost, encodeZone}
        \<and> c \<in> set [CHR ''!'', CHR ''$'', CHR ''&'', CHR 0x27, CHR ''('', CHR '')'', CHR ''*'',
                   CHR ''+'', CHR '','', CHR '';'', CHR ''='', CHR '':'', CHR ''['', CHR '']'',
                   CHR ''<'', CHR ''>'', CHR 0x22] then False
      else if c \<in> set ''-_.~'' then False
      else if c \<in> set ''$&+,/:;=?@'' then
        (case mode of
           encodePath \<Rightarrow> c = CHR ''?''
         | encodePathSegment \<Rightarrow> c \<in> set ''/;,?''
         | encodeUserPassword \<Rightarrow> c \<in> set ''@/?:''
         | encodeFragment \<Rightarrow> False
         | _ \<Rightarrow> True)
      else if mode = encodeFragment \<and> c \<in> set ''!()*'' then False
      else True)"

definition upper_hex :: "nat \<Rightarrow> char" where
  "upper_hex d = (if d < 10 then chr8 (48 + d) else chr8 (55 + d))"

definition escape_char :: "url_mode \<Rightarrow> char \<Rightarrow> string" where
  "escape_char mode c =
     (if shouldEscape c mode then [CHR ''%'', upper_hex (byte c div 16), upper_hex (byte c mod 16)]
      else [c])"

definition PathEscape :: "string \<Rightarrow> string" where
  "PathEscape s = concat (map (escape_char encodePathSegment) s)"

definition ishex :: "char \<Rightarrow> bool" where
  "ishex c = (let b = byte c in 48 \<le> b \<and> b \<le> 57 \<or> 65 \<le> b \<and> b \<le> 70 \<or> 97 \<le> b \<and> b \<le> 102)"

definition unhex :: "char \<Rightarrow> nat" where
  "unhex c = (let b = byte c in
     if 48 \<le> b \<and> b \<le> 57 then b - 48 else if 97 \<le> b \<and> b \<le> 102 then b - 87
     else if 65 \<le> b \<and> b \<le> 70 then b - 55 else 0)"

text \<open>\<^verbatim>\<open>unescape\<close> (no query component, so \<^verbatim>\<open>+\<close> is literal).\<close>

fun unescape :: "url_mode \<Rightarrow> string \<Rightarrow> string result" where
  "unescape mode [] = Inr []"
| "unescape mode (c # s) =
     (if c = CHR ''%'' then
        (case s of
           a # b # t \<Rightarrow>
             if \<not> ishex a \<or> \<not> ishex b then Inl (LibErr ''invalid URL escape'')
             else if mode = encodeHost \<and> unhex a < 8 \<and> \<not> (a = CHR ''2'' \<and> b = CHR ''5'')
             then Inl (LibErr ''invalid URL escape'')
             else if mode = encodeZone \<and> \<not> (a = CHR ''2'' \<and> b = CHR ''5'')
               \<and> unhex a * 16 + unhex b \<noteq> 32
               \<and> shouldEscape (chr8 (unhex a * 16 + unhex b)) encodeHost
             then Inl (LibErr ''invalid URL escape'')
             else (case unescape mode t of
                     Inl e \<Rightarrow> Inl e
                   | Inr r \<Rightarrow> Inr (chr8 (unhex a * 16 + unhex b) # r))
         | _ \<Rightarrow> Inl (LibErr ''invalid URL escape''))
      else if mode \<in> {encodeHost, encodeZone} \<and> is_ascii c \<and> shouldEscape c mode
      then Inl (LibErr ''invalid character in host name'')
      else (case unescape mode s of Inl e \<Rightarrow> Inl e | Inr r \<Rightarrow> Inr (c # r)))"

section \<open>url.Parse\<close>

text \<open>\<^verbatim>\<open>getScheme\<close>: scheme and rest; \<open>i0\<close> tells the first byte.\<close>

fun get_scheme_loop :: "string \<Rightarrow> string \<Rightarrow> string \<Rightarrow> (string \<times> string) result" where
  "get_scheme_loop raw acc [] = Inr ([], raw)"
| "get_scheme_loop raw acc (c # s) =
     (let b = byte c in
      if 97 \<le> b \<and> b \<le> 122 \<or> 65 \<le> b \<and> b \<le> 90 then get_scheme_loop raw (c # acc) s
      else if 48 \<le> b \<and> b \<le> 57 \<or> c \<in> set ''+-.'' then
        (if acc = [] then Inr ([], raw) else get_scheme_loop raw (c # acc) s)
      else if c = CHR '':'' then
        (if acc = [] then Inl (LibErr ''missing protocol scheme'') else Inr (rev acc, s))
      else Inr ([], raw))"

definition getScheme :: "string \<Rightarrow> (string \<times> string) result" where
  "getScheme raw = get_scheme_loop raw [] raw"

definition LastIndex :: "string \<Rightarrow> char \<Rightarrow> int" where
  "LastIndex s c = LastIndexAny s [c]"

definition validOptionalPort :: "string \<Rightarrow> bool" where
  "validOptionalPort p = (p = [] \<or> hd p = CHR '':'' \<and> list_all is_digit (tl p))"

text \<open>\<^verbatim>\<open>strings.Index(s, "%25")\<close>, as an optional split.\<close>

fun cut_zone :: "string \<Rightarrow> string \<Rightarrow> (string \<times> string) option" where
  "cut_zone acc [] = None"
| "cut_zone acc (c # s) =
     (if HasPrefix (c # s) ''%25'' then Some (rev acc, c # s) else cut_zone (c # acc) s)"

definition parseHost :: "string \<Rightarrow> string result" where
  "parseHost host =
     (if HasPrefix host ''['' then
        (let i = LastIndex host CHR '']'' in
         if i < 0 then Inl (LibErr ''missing ']' in host'')
         else if \<not> validOptionalPort (drop (nat (i + 1)) host)
         then Inl (LibErr ''invalid port after host'')
         else (case cut_zone [] (take (nat i) host) of
                 None \<Rightarrow> unescape encodeHost host
               | Some (h1, h2) \<Rightarrow>
                   (case unescape encodeHost h1 of Inl e \<Rightarrow> Inl e | Inr a \<Rightarrow>
                    (case unescape encodeZone h2 of Inl e \<Rightarrow> Inl e | Inr b \<Rightarrow>
                     (case unescape encodeHost (drop (nat i) host) of Inl e \<Rightarrow> Inl e
                      | Inr c \<Rightarrow> Inr (a @ b @ c))))))
      else
        (let i = LastIndex host CHR '':'' in
         if i \<noteq> -1 \<and> \<not> validOptionalPort (drop (nat i) host)
         then Inl (LibErr ''invalid port after host'')
         else unescape encodeHost host))"

definition validUserinfo :: "string \<Rightarrow> bool" where
  "validUserinfo s = list_all (\<lambda>c. alnum c \<or> c = CHR 0x27 \<or> c \<in> set ''-._:~!$&()*+,;=%@'') s"

definition parseAuthority :: "string \<Rightarrow> string result" where
  "parseAuthority authority =
     (let i = LastIndex authority CHR ''@'' in
      case parseHost (if i < 0 then authority else drop (nat (i + 1)) authority) of
        Inl e \<Rightarrow> Inl e
      | Inr host \<Rightarrow>
          if i < 0 then Inr host
          else (let userinfo = take (nat i) authority; (name, pass, _) = Cut userinfo CHR '':'' in
            if \<not> validUserinfo userinfo then Inl (LibErr ''net/url: invalid userinfo'')
            else (case unescape encodeUserPassword name of
                    Inl e \<Rightarrow> Inl e
                  | Inr _ \<Rightarrow> (case unescape encodeUserPassword pass of
                                Inl e \<Rightarrow> Inl e
                              | Inr _ \<Rightarrow> Inr host))))"

record parsed_url =
  url_Scheme :: string
  url_Host :: string

definition has_ctl :: "string \<Rightarrow> bool" where
  "has_ctl s = list_ex (\<lambda>c. byte c < 32 \<or> byte c = 127) s"

definition count_char :: "string \<Rightarrow> char \<Rightarrow> nat" where
  "count_char s c = length (filter (\<lambda>x. x = c) s)"

definition url_parse_nofrag :: "string \<Rightarrow> parsed_url result" where
  "url_parse_nofrag raw =
     (if has_ctl raw then Inl (LibErr ''net/url: invalid control character in URL'')
      else if raw = ''*'' then Inr \<lparr>url_Scheme = [], url_Host = []\<rparr>
      else case getScheme raw of
        Inl e \<Rightarrow> Inl e
      | Inr (scheme0, rest0) \<Rightarrow>
          let scheme = map lower_ascii scheme0;
              rest = (if HasSuffix rest0 ''?'' \<and> count_char rest0 CHR ''?'' = 1
                      then take (length rest0 - 1) rest0 else fst (Cut rest0 CHR ''?''))
          in if \<not> HasPrefix rest ''/'' \<and> scheme \<noteq> []
             then Inr \<lparr>url_Scheme = scheme, url_Host = []\<rparr>
             else if \<not> HasPrefix rest ''/'' \<and> CHR '':'' \<in> set (fst (Cut rest CHR ''/''))
             then Inl (LibErr ''first path segment in URL cannot contain colon'')
             else let authority = HasPrefix rest ''//''
                        \<and> (scheme \<noteq> [] \<or> \<not> HasPrefix rest ''///'');
                      auth = takeWhile (\<lambda>c. c \<noteq> CHR ''/'') (drop 2 rest);
                      path = (if authority then dropWhile (\<lambda>c. c \<noteq> CHR ''/'') (drop 2 rest) else rest)
                  in case (if authority then parseAuthority auth else Inr []) of
                       Inl e \<Rightarrow> Inl e
                     | Inr host \<Rightarrow>
                         (case unescape encodePath path of
                            Inl e \<Rightarrow> Inl e
                          | Inr _ \<Rightarrow> Inr \<lparr>url_Scheme = scheme, url_Host = host\<rparr>))"

definition url_Parse :: "string \<Rightarrow> parsed_url result" where
  "url_Parse raw =
     (let (u, frag, _) = Cut raw CHR ''#'' in
      case url_parse_nofrag u of
        Inl e \<Rightarrow> Inl e
      | Inr p \<Rightarrow>
          if frag = [] then Inr p
          else (case unescape encodeFragment frag of Inl e \<Rightarrow> Inl e | Inr _ \<Rightarrow> Inr p))"

section \<open>Escaped path segments\<close>

lemma upper_hex_props:
  "d < 16 \<Longrightarrow> ishex (upper_hex d) \<and> unhex (upper_hex d) = d \<and> upper_hex d \<notin> set ''/?#%;,''"
proof -
  assume d: "d < 16"
  then have b: "byte (upper_hex d) = (if d < 10 then 48 + d else 55 + d)"
    by (simp add: upper_hex_def)
  have bytes: "x \<in> set ''/?#%;,'' \<Longrightarrow> byte x \<in> {47, 63, 35, 37, 59, 44}" for x
    by (auto simp: byte_def)
  have "byte (upper_hex d) \<notin> {47, 63, 35, 37, 59, 44}"
    unfolding b using d by (cases "d < 10") simp_all
  then have "upper_hex d \<notin> set ''/?#%;,''" by (rule contrapos_nn) (rule bytes)
  moreover have "ishex (upper_hex d)" "unhex (upper_hex d) = d"
    unfolding ishex_def unhex_def b using d by (cases "d < 10"; simp)+
  ultimately show ?thesis by (intro conjI)
qed

lemma escape_char_safe: "x \<in> set (escape_char encodePathSegment c) \<Longrightarrow> x \<notin> set ''/?#;,''"
proof -
  assume x: "x \<in> set (escape_char encodePathSegment c)"
  have d: "byte c div 16 < 16" "byte c mod 16 < 16"
    using byte_less[of c] by (simp_all add: div_less_iff_less_mult)
  show ?thesis
  proof (cases "shouldEscape c encodePathSegment")
    case True
    with x upper_hex_props[OF d(1)] upper_hex_props[OF d(2)] show ?thesis
      by (auto simp: escape_char_def)
  next
    case False
    with x have "x = c" by (simp add: escape_char_def)
    with False show ?thesis
      by (auto simp: shouldEscape_def alnum_def byte_def Let_def)
  qed
qed

lemma PathEscape_safe: "x \<in> set (PathEscape s) \<Longrightarrow> x \<notin> set ''/?#;,''"
  unfolding PathEscape_def set_concat set_map using escape_char_safe by blast

lemma unescape_escape_char:
  "unescape encodePathSegment (escape_char encodePathSegment c @ t) =
     (case unescape encodePathSegment t of Inl e \<Rightarrow> Inl e | Inr r \<Rightarrow> Inr (c # r))"
proof -
  have d: "byte c div 16 < 16" "byte c mod 16 < 16"
    using byte_less[of c] by (simp_all add: div_less_iff_less_mult)
  have p: "shouldEscape CHR ''%'' encodePathSegment"
    by (simp add: shouldEscape_def alnum_def byte_def Let_def)
  have b: "byte c div 16 * 16 + byte c mod 16 = byte c" by simp
  show ?thesis
  proof (cases "shouldEscape c encodePathSegment")
    case True
    then show ?thesis
      using upper_hex_props[OF d(1)] upper_hex_props[OF d(2)]
      by (simp add: escape_char_def b split: sum.split)
  next
    case False
    with p have "c \<noteq> CHR ''%''" by auto
    with False show ?thesis by (simp add: escape_char_def)
  qed
qed

lemma unescape_PathEscape: "unescape encodePathSegment (PathEscape s) = Inr s"
  by (induction s) (simp_all add: PathEscape_def unescape_escape_char)

interpretation path_escape: codec "\<lambda>_. True" PathEscape
    "\<lambda>s. (case unescape encodePathSegment s of Inl _ \<Rightarrow> None | Inr r \<Rightarrow> Some r)"
  by unfold_locales (simp add: unescape_PathEscape)

end
