(* ===== verification/Duration.thy ===== *)
theory Duration
  imports GoErrors Encoding
begin

text \<open>
  \<^verbatim>\<open>parseApprovalDuration\<close> of \<^verbatim>\<open>internal/infisical/session.go\<close> with what it uses of
  \<^verbatim>\<open>strconv.Atoi\<close> and \<^verbatim>\<open>time.ParseDuration\<close>, and \<^verbatim>\<open>Time.Format(time.RFC3339)\<close> in UTC.
  Durations are 64-bit nanosecond counts; the wrap-around of Go's multiplication is written
  out. The texts of library errors are kept up to quoting.
\<close>

section \<open>strconv.Atoi\<close>

definition Atoi :: "string \<Rightarrow> int option" where
  "Atoi s =
     (let (neg, ds) = (case s of
            [] \<Rightarrow> (False, [])
          | c # t \<Rightarrow> if c = CHR ''-'' then (True, t) else if c = CHR ''+'' then (False, t)
                     else (False, s));
          v = (if neg then - int (dec_val ds) else int (dec_val ds))
      in if ds = [] \<or> \<not> list_all is_digit ds then None
         else if - (2 ^ 63) \<le> v \<and> v < 2 ^ 63 then Some v else None)"

section \<open>time.ParseDuration\<close>

text \<open>\<open>float64\<close> rounding of a positive rational to 53 bits, half to even: mantissa and exponent.\<close>

definition div_half_even :: "nat \<Rightarrow> nat \<Rightarrow> nat" where
  "div_half_even a b = (let q = a div b; r = a mod b in
     if 2 * r < b then q else if b < 2 * r then q + 1 else if even q then q else q + 1)"

definition fl_round :: "nat \<Rightarrow> nat \<Rightarrow> nat \<times> nat" where
  "fl_round a b =
     (let e = int (BitLen a) - int (BitLen b) - 53;
          scale = (\<lambda>e. if 0 \<le> e then (a, b * 2 ^ nat e) else (a * 2 ^ nat (- e), b));
          e = (if fst (scale e) div snd (scale e) < 2 ^ 53 then e else e + 1);
          m = div_half_even (fst (scale e)) (snd (scale e))
      in if 0 \<le> e then (m * 2 ^ nat e, 1) else (m, 2 ^ nat (- e)))"

text \<open>\<^verbatim>\<open>uint64(float64(f) * (float64(unit) / scale))\<close> with \<open>scale = 10 ^ k\<close>, exact as a float
  because \<open>k < 20\<close>.\<close>

definition frac_ns :: "nat \<Rightarrow> nat \<Rightarrow> nat \<Rightarrow> nat" where
  "frac_ns f u k =
     (let (fa, fb) = fl_round f 1;
          (ua, ub) = fl_round u (10 ^ k);
          (pa, pb) = fl_round (fa * ua) (fb * ub)
      in pa div pb)"

text \<open>\<^verbatim>\<open>leadingFraction\<close> over the digits after the point: value, decimal places kept.\<close>

fun leading_fraction :: "string \<Rightarrow> nat \<Rightarrow> nat \<Rightarrow> nat \<times> nat" where
  "leading_fraction [] x k = (x, k)"
| "leading_fraction (c # s) x k =
     (if 922337203685477580 < x then (x, k)
      else let y = x * 10 + digit_val c in
        if 2 ^ 63 < y then (x, k) else leading_fraction s y (Suc k))"

definition unit_ns :: "string \<Rightarrow> nat option" where
  "unit_ns u = map_of
     [(''ns'', 1), (''us'', 1000), ([CHR 0xC2, CHR 0xB5, CHR ''s''], 1000),
      ([CHR 0xCE, CHR 0xBC, CHR ''s''], 1000), (''ms'', 1000000), (''s'', 1000000000),
      (''m'', 60000000000), (''h'', 3600000000000)] u"

definition unit_char :: "char \<Rightarrow> bool" where
  "unit_char c = (c \<noteq> CHR ''.'' \<and> \<not> is_digit c)"

text \<open>The optional \<^verbatim>\<open>.digits\<close>: value, decimal places, whether there were digits, the rest.\<close>

definition fraction_part :: "string \<Rightarrow> nat \<times> nat \<times> bool \<times> string" where
  "fraction_part s =
     (if s \<noteq> [] \<and> hd s = CHR ''.''
      then (let fd = takeWhile is_digit (tl s); (f, k) = leading_fraction fd 0 0
            in (f, k, fd \<noteq> [], dropWhile is_digit (tl s)))
      else (0, 0, False, s))"

text \<open>One number with its unit: nanoseconds and the rest of the string.\<close>

definition duration_item :: "string \<Rightarrow> (nat \<times> string) result" where
  "duration_item s =
     (let invalid = LibErr ''time: invalid duration'';
          ds = takeWhile is_digit s; v = dec_val ds;
          (f, k, post, s2) = fraction_part (dropWhile is_digit s);
          u = takeWhile unit_char s2; s3 = dropWhile unit_char s2
      in if s = [] \<or> unit_char (hd s) then Inl invalid
         else if 2 ^ 63 < v then Inl invalid
         else if ds = [] \<and> \<not> post then Inl invalid
         else if u = [] then Inl (LibErr ''time: missing unit in duration'')
         else case unit_ns u of
             None \<Rightarrow> Inl (LibErr ''time: unknown unit in duration'')
           | Some unit \<Rightarrow>
               if 2 ^ 63 div unit < v then Inl invalid
               else let v' = (if 0 < f then v * unit + frac_ns f unit k else v * unit)
                    in if 0 < f \<and> 2 ^ 63 < v' then Inl invalid else Inr (v', s3))"

lemma fraction_part_length: "fraction_part s = (f, k, post, s2) \<Longrightarrow> length s2 \<le> length s"
  using length_dropWhile_le[of is_digit "tl s"]
  by (auto simp: fraction_part_def case_prod_beta Let_def split: if_splits)

lemma duration_item_shrinks:
  assumes "duration_item s = Inr (v, s')"
  shows "length s' < length s"
proof -
  obtain f k post s2 where fp: "fraction_part (dropWhile is_digit s) = (f, k, post, s2)"
    by (metis prod_cases4)
  with assms have u: "takeWhile unit_char s2 \<noteq> []" and s': "s' = dropWhile unit_char s2"
    by (auto simp: duration_item_def Let_def split: if_splits option.splits)
  have "length s2 \<le> length s"
    using fraction_part_length[OF fp] length_dropWhile_le[of is_digit s] by simp
  moreover have "length (takeWhile unit_char s2) + length s' = length s2"
    unfolding s' by (metis length_append takeWhile_dropWhile_id)
  ultimately show ?thesis using u by (cases "takeWhile unit_char s2") auto
qed

text \<open>The loop adds the items up in a \<^verbatim>\<open>uint64\<close>.\<close>

function duration_loop :: "nat \<Rightarrow> string \<Rightarrow> nat result" where
  "duration_loop d s =
     (if s = [] then Inr d
      else case duration_item s of
          Inl e \<Rightarrow> Inl e
        | Inr (v, s') \<Rightarrow>
            let d' = (d + v) mod 2 ^ 64
            in if 2 ^ 63 < d' then Inl (LibErr ''time: invalid duration'') else duration_loop d' s')"
  by pat_completeness auto
termination
  by (relation "measure (length \<circ> snd)") (auto intro: duration_item_shrinks[OF sym])

declare duration_loop.simps [simp del]

definition ParseDuration :: "string \<Rightarrow> duration result" where
  "ParseDuration orig =
     (let (neg, s) = (case orig of
            [] \<Rightarrow> (False, orig)
          | c # t \<Rightarrow> if c = CHR ''-'' \<or> c = CHR ''+'' then (c = CHR ''-'', t) else (False, orig))
      in if s = ''0'' then Inr 0
         else if s = [] then Inl (LibErr ''time: invalid duration'')
         else case duration_loop 0 s of
             Inl e \<Rightarrow> Inl e
           | Inr d \<Rightarrow> if neg then Inr (i64 (- int d))
                      else if 2 ^ 63 - 1 < d then Inl (LibErr ''time: invalid duration'')
                      else Inr (int d))"

section \<open>parseApprovalDuration\<close>

definition parseApprovalDuration :: "string \<Rightarrow> duration result" where
  "parseApprovalDuration s =
     (case CutSuffix s ''d'' of
        (days, True) \<Rightarrow>
          (case Atoi days of
             None \<Rightarrow> Inl (Errorf ''invalid duration: %s'' [FStr s])
           | Some count \<Rightarrow> Inr (i64 (i64 (count * 24) * hour)))
      | (_, False) \<Rightarrow> ParseDuration s)"

section \<open>RFC 3339\<close>

text \<open>The civil date of a day number (days since 1970-01-01), in the proleptic Gregorian
  calendar: year, month, day.\<close>

definition civil_of_days :: "int \<Rightarrow> int \<times> int \<times> int" where
  "civil_of_days z0 =
     (let z = z0 + 719468; era = z div 146097; doe = z - era * 146097;
          yoe = (doe - doe div 1460 + doe div 36524 - doe div 146096) div 365;
          doy = doe - (365 * yoe + yoe div 4 - yoe div 100);
          mp = (5 * doy + 2) div 153; d = doy - (153 * mp + 2) div 5 + 1;
          m = (if mp < 10 then mp + 3 else mp - 9);
          y = yoe + era * 400 + (if m \<le> 2 then 1 else 0)
      in (y, m, d))"

definition pad_dec :: "nat \<Rightarrow> int \<Rightarrow> string" where
  "pad_dec w v = (let ds = nat_dec (nat v) in replicate (w - length ds) CHR ''0'' @ ds)"

definition FormatRFC3339 :: "instant \<Rightarrow> string" where
  "FormatRFC3339 t =
     (let secs = t div 1000000000; (y, m, d) = civil_of_days (secs div 86400); s = secs mod 86400
      in pad_dec 4 y @ ''-'' @ pad_dec 2 m @ ''-'' @ pad_dec 2 d @ ''T''
         @ pad_dec 2 (s div 3600) @ '':'' @ pad_dec 2 (s div 60 mod 60) @ '':''
         @ pad_dec 2 (s mod 60) @ ''Z'')"

section \<open>Properties\<close>

lemma chr8_eq: "chr8 n = c \<longleftrightarrow> n mod 256 = byte c"
  by (metis byte_chr8 chr8_byte chr8_def char_of_mod_256)

lemma digit_not_sign: "is_digit c \<Longrightarrow> c \<noteq> CHR ''-'' \<and> c \<noteq> CHR ''+'' \<and> c \<noteq> CHR ''.'' \<and> \<not> unit_char c"
  by (auto simp: is_digit_def byte_def unit_char_def)

lemma Atoi_nat_dec: "int n < 2 ^ 63 \<Longrightarrow> Atoi (nat_dec n) = Some (int n)"
proof -
  assume n: "int n < 2 ^ 63"
  obtain c t where d: "nat_dec n = c # t" using nat_dec_props[of n] by (cases "nat_dec n") auto
  then have "c \<noteq> CHR ''-''" "c \<noteq> CHR ''+''"
    using nat_dec_props[of n] digit_not_sign[of c] by auto
  with d n nat_dec_props[of n] show ?thesis by (simp add: Atoi_def)
qed

lemma CutSuffix_append: "CutSuffix (s @ p) p = (s, True)"
  by (simp add: CutSuffix_def HasSuffix_def)

lemma parse_days:
  "int n < 2 ^ 63 \<Longrightarrow> parseApprovalDuration (nat_dec n @ ''d'') = Inr (i64 (i64 (int n * 24) * hour))"
  using CutSuffix_append[of "nat_dec n" "''d''"]
  by (simp add: parseApprovalDuration_def Atoi_nat_dec)

lemma duration_item_simple:
  assumes "unit_ns u = Some k" "list_all unit_char u" "u \<noteq> []" "n * k < 2 ^ 63"
  shows "duration_item (nat_dec n @ u) = Inr (n * k, [])"
proof -
  have d: "list_all is_digit (nat_dec n)" "nat_dec n \<noteq> []" "dec_val (nat_dec n) = n"
    using nat_dec_props[of n] by auto
  have hu: "\<not> is_digit (hd u)" "hd u \<noteq> CHR ''.''"
    using assms(2,3) by (cases u; auto simp: unit_char_def)+
  then have t: "takeWhile is_digit (nat_dec n @ u) = nat_dec n" "dropWhile is_digit (nat_dec n @ u) = u"
    using d(1) assms(3) by (cases u; simp add: list_all_iff takeWhile_append2 dropWhile_append2)+
  have f: "fraction_part u = (0, 0, False, u)" using hu by (simp add: fraction_part_def)
  have u: "takeWhile unit_char u = u" "dropWhile unit_char u = []"
    using assms(2) by (simp_all add: list_all_iff)
  have h: "\<not> unit_char (hd (nat_dec n @ u))"
    using d digit_not_sign[of "hd (nat_dec n)"] by (cases "nat_dec n") auto
  have k: "0 < k"
    using assms(1) by (auto simp: unit_ns_def split: if_splits)
  then have b: "n \<le> 2 ^ 63 div k" "n \<le> n * k"
    using assms(4) by (simp_all add: less_eq_div_iff_mult_less_eq)
  then have "n \<le> 2 ^ 63" using assms(4) by linarith
  then show ?thesis
    using d t f u h b assms(1,3) by (simp add: duration_item_def Let_def not_less)
qed

lemma ParseDuration_simple:
  assumes "unit_ns u = Some k" "list_all unit_char u" "u \<noteq> []" "n * k < 2 ^ 63"
  shows "ParseDuration (nat_dec n @ u) = Inr (int (n * k))"
proof -
  obtain c t where d: "nat_dec n @ u = c # t" and c: "is_digit c"
    using nat_dec_props[of n] by (cases "nat_dec n") auto
  have "nat_dec n @ u \<noteq> ''0''"
    using assms(2,3) nat_dec_props[of n]
    by (cases "nat_dec n"; cases u) (auto simp: append_eq_Cons_conv)
  moreover have "duration_loop 0 (nat_dec n @ u) = Inr (n * k)"
    using duration_item_simple[OF assms] assms(3,4)
    by (simp add: duration_loop.simps[of 0 "nat_dec n @ u"] duration_loop.simps[of _ "[]"])
  ultimately show ?thesis
    using digit_not_sign[OF c] d assms(4) by (auto simp: ParseDuration_def)
qed

lemma parse_unit:
  assumes "u \<in> {''h'', ''m'', ''s''}" "unit_ns u = Some k" "n * k < 2 ^ 63"
  shows "parseApprovalDuration (nat_dec n @ u) = Inr (int (n * k))"
proof -
  have u: "list_all unit_char u" "u \<noteq> []" "last u \<noteq> CHR ''d''"
    using assms(1) by (auto simp: unit_char_def is_digit_def byte_def)
  then have "\<not> HasSuffix (nat_dec n @ u) ''d''"
    using HasSuffix_lastD[of "nat_dec n @ u" "''d''"] by auto
  then show ?thesis
    using ParseDuration_simple[OF assms(2) u(1,2) assms(3)]
    by (simp add: parseApprovalDuration_def CutSuffix_def)
qed



end
