(* ===== verification/Config.thy ===== *)
theory Config
  imports GoOs Json GoUrl Duration
begin

text \<open>
  \<^verbatim>\<open>internal/infisical/config.go\<close>: the configuration record, its defaults, the environment
  overrides, validation, and loading from a file that may be absent.
\<close>

section \<open>Data\<close>

definition EnvConfigPath :: string where "EnvConfigPath = ''INFISICAL_CONFIG''"
definition EnvClientID :: string where "EnvClientID = ''INFISICAL_UNIVERSAL_AUTH_CLIENT_ID''"
definition EnvClientSecret :: string where
  "EnvClientSecret = ''INFISICAL_UNIVERSAL_AUTH_CLIENT_SECRET''"
definition EnvServerURL :: string where "EnvServerURL = ''INFISICAL_SERVER_URL''"
definition EnvToken :: string where "EnvToken = ''INFISICAL_TOKEN''"

definition AuthMethodUniversalAuth :: string where "AuthMethodUniversalAuth = ''universal-auth''"
definition AuthMethodToken :: string where "AuthMethodToken = ''token''"

record tls_config =
  tls_CACertPath :: string
  tls_SkipVerify :: bool

record cache_config =
  TokenTTLSeconds :: int
  CertTTLSeconds :: int
  SignerTTLSeconds :: int

record auth_config =
  auth_Method :: string
  auth_ClientID :: string
  auth_ClientSecret :: string
  auth_Token :: string

record approval_config =
  SigningCount :: int
  SigningDuration :: string

record config =
  ServerURL :: string
  Auth :: auth_config
  TLS :: tls_config
  Cache :: cache_config
  Approval :: approval_config
  LogLevel :: string
  LogFile :: string

text \<open>\<^verbatim>\<open>var cfg Config\<close>.\<close>

definition zero_config :: config where
  "zero_config =
     \<lparr>ServerURL = [],
      Auth = \<lparr>auth_Method = [], auth_ClientID = [], auth_ClientSecret = [], auth_Token = []\<rparr>,
      TLS = \<lparr>tls_CACertPath = [], tls_SkipVerify = False\<rparr>,
      Cache = \<lparr>TokenTTLSeconds = 0, CertTTLSeconds = 0, SignerTTLSeconds = 0\<rparr>,
      Approval = \<lparr>SigningCount = 0, SigningDuration = []\<rparr>, LogLevel = [], LogFile = []\<rparr>"

section \<open>Paths\<close>

definition programData :: "os_info \<Rightarrow> string" where
  "programData os = (if os_Getenv os ''ProgramData'' = []
     then ''C:'' @ [CHR 0x5C] @ ''ProgramData'' else os_Getenv os ''ProgramData'')"

definition DefaultConfigPath :: "os_info \<Rightarrow> string" where
  "DefaultConfigPath os =
     (if os_Windows os
      then programData os @ [CHR 0x5C] @ ''Infisical'' @ [CHR 0x5C] @ ''config.json''
      else ''/etc/infisical/ksp.conf'')"

definition DefaultLogPath :: "os_info \<Rightarrow> string" where
  "DefaultLogPath os =
     (if os_Windows os
      then programData os @ [CHR 0x5C] @ ''Infisical'' @ [CHR 0x5C] @ ''ksp.log''
      else [])"

definition ConfigPath :: "os_info \<Rightarrow> string" where
  "ConfigPath os =
     (if os_Getenv os EnvConfigPath \<noteq> [] then os_Getenv os EnvConfigPath else DefaultConfigPath os)"

section \<open>Defaults and overrides\<close>

definition default_cache :: "cache_config \<Rightarrow> cache_config" where
  "default_cache c =
     (let c = (if TokenTTLSeconds c = 0 then c\<lparr>TokenTTLSeconds := 300\<rparr> else c);
          c = (if CertTTLSeconds c = 0 then c\<lparr>CertTTLSeconds := 3600\<rparr> else c)
      in if SignerTTLSeconds c = 0 then c\<lparr>SignerTTLSeconds := 300\<rparr> else c)"

definition default_method :: "auth_config \<Rightarrow> auth_config" where
  "default_method a =
     (if auth_Method a = [] then
        (if auth_Token a \<noteq> [] then a\<lparr>auth_Method := AuthMethodToken\<rparr>
         else a\<lparr>auth_Method := AuthMethodUniversalAuth\<rparr>)
      else a)"

definition setDefaults :: "os_info \<Rightarrow> config \<Rightarrow> config" where
  "setDefaults os c =
     (let c = c\<lparr>Cache := default_cache (Cache c)\<rparr>;
          c = (if LogLevel c = [] then c\<lparr>LogLevel := ''info''\<rparr> else c);
          c = c\<lparr>Auth := default_method (Auth c)\<rparr>
      in if LogFile c = [] then c\<lparr>LogFile := DefaultLogPath os\<rparr> else c)"

definition applyEnvOverrides :: "os_info \<Rightarrow> config \<Rightarrow> config" where
  "applyEnvOverrides os c =
     (let v = os_Getenv os EnvServerURL; c = (if v \<noteq> [] then c\<lparr>ServerURL := v\<rparr> else c);
          v = os_Getenv os EnvClientID;
          c = (if v \<noteq> [] then c\<lparr>Auth := (Auth c)\<lparr>auth_ClientID := v\<rparr>\<rparr> else c);
          v = os_Getenv os EnvClientSecret;
          c = (if v \<noteq> [] then c\<lparr>Auth := (Auth c)\<lparr>auth_ClientSecret := v\<rparr>\<rparr> else c);
          v = os_Getenv os EnvToken
      in if v \<noteq> []
         then c\<lparr>Auth := (Auth c)\<lparr>auth_Token := v, auth_Method := AuthMethodToken\<rparr>\<rparr> else c)"

section \<open>Validation\<close>

definition min_window :: duration where "min_window = minute"
definition max_window :: duration where "max_window = 30 * 24 * hour"

definition validate_url :: "string \<Rightarrow> unit result" where
  "validate_url raw =
     (if raw = [] then Inl (Errorf ''server_url is required'' [])
      else case url_Parse raw of
          Inl err \<Rightarrow> Inl (Wrapf ''server_url is not a valid URL: '' [] err)
        | Inr parsed \<Rightarrow>
            let scheme = map lower_ascii (url_Scheme parsed)
            in if scheme \<noteq> ''http'' \<and> scheme \<noteq> ''https''
               then Inl (Errorf ''server_url scheme must be http or https, got %q''
                           [FQuoted (url_Scheme parsed)])
               else if url_Host parsed = [] then Inl (Errorf ''server_url must include a host'' [])
               else Inr ())"

definition validate_approval :: "approval_config \<Rightarrow> unit result" where
  "validate_approval a =
     (case (if SigningDuration a = [] then Inr ()
            else case parseApprovalDuration (SigningDuration a) of
                Inl err \<Rightarrow> Inl (Wrapf ''invalid approval.signing_duration %q: ''
                                  [FQuoted (SigningDuration a)] err)
              | Inr d \<Rightarrow>
                  if d < min_window \<or> d > max_window
                  then Inl (Errorf
                    ''approval.signing_duration must be between 1m and 30d, got %q''
                    [FQuoted (SigningDuration a)])
                  else Inr ()) of
        Inl e \<Rightarrow> Inl e
      | Inr _ \<Rightarrow>
          if SigningCount a < 0
          then Inl (Errorf
            ''approval.signing_count must be zero or a positive integer, got %d''
            [FInt (SigningCount a)])
          else Inr ())"

definition validate :: "config \<Rightarrow> unit result" where
  "validate c = (case validate_url (ServerURL c) of
       Inl e \<Rightarrow> Inl e
     | Inr _ \<Rightarrow>
         if auth_Method (Auth c) \<noteq> AuthMethodUniversalAuth \<and> auth_Method (Auth c) \<noteq> AuthMethodToken
         then Inl (Errorf
           ''unsupported auth method: %s (must be 'universal-auth' or 'token')''
           [FStr (auth_Method (Auth c))])
         else validate_approval (Approval c))"

section \<open>Loading\<close>

text \<open>The struct tags of \<^verbatim>\<open>Config\<close> and its parts.\<close>

definition dec_tls :: "json \<Rightarrow> tls_config \<Rightarrow> tls_config \<times> bool" where
  "dec_tls = dec_struct [''ca_cert_path'', ''skip_verify''] (\<lambda>t j r.
     if t = ''ca_cert_path''
     then (case dec_string j (tls_CACertPath r) of (v, ok) \<Rightarrow> (r\<lparr>tls_CACertPath := v\<rparr>, ok))
     else (case dec_bool j (tls_SkipVerify r) of (v, ok) \<Rightarrow> (r\<lparr>tls_SkipVerify := v\<rparr>, ok)))"

definition dec_cache :: "json \<Rightarrow> cache_config \<Rightarrow> cache_config \<times> bool" where
  "dec_cache = dec_struct [''token_ttl_seconds'', ''cert_ttl_seconds'', ''signer_ttl_seconds''] (\<lambda>t j r.
     if t = ''token_ttl_seconds''
     then (case dec_int j (TokenTTLSeconds r) of (v, ok) \<Rightarrow> (r\<lparr>TokenTTLSeconds := v\<rparr>, ok))
     else if t = ''cert_ttl_seconds''
     then (case dec_int j (CertTTLSeconds r) of (v, ok) \<Rightarrow> (r\<lparr>CertTTLSeconds := v\<rparr>, ok))
     else (case dec_int j (SignerTTLSeconds r) of (v, ok) \<Rightarrow> (r\<lparr>SignerTTLSeconds := v\<rparr>, ok)))"

definition dec_auth :: "json \<Rightarrow> auth_config \<Rightarrow> auth_config \<times> bool" where
  "dec_auth = dec_struct [''method'', ''client_id'', ''client_secret'', ''token''] (\<lambda>t j r.
     if t = ''method''
     then (case dec_string j (auth_Method r) of (v, ok) \<Rightarrow> (r\<lparr>auth_Method := v\<rparr>, ok))
     else if t = ''client_id''
     then (case dec_string j (auth_ClientID r) of (v, ok) \<Rightarrow> (r\<lparr>auth_ClientID := v\<rparr>, ok))
     else if t = ''client_secret''
     then (case dec_string j (auth_ClientSecret r) of (v, ok) \<Rightarrow> (r\<lparr>auth_ClientSecret := v\<rparr>, ok))
     else (case dec_string j (auth_Token r) of (v, ok) \<Rightarrow> (r\<lparr>auth_Token := v\<rparr>, ok)))"

definition dec_approval :: "json \<Rightarrow> approval_config \<Rightarrow> approval_config \<times> bool" where
  "dec_approval = dec_struct [''signing_count'', ''signing_duration''] (\<lambda>t j r.
     if t = ''signing_count''
     then (case dec_int j (SigningCount r) of (v, ok) \<Rightarrow> (r\<lparr>SigningCount := v\<rparr>, ok))
     else (case dec_string j (SigningDuration r) of (v, ok) \<Rightarrow> (r\<lparr>SigningDuration := v\<rparr>, ok)))"

definition dec_config :: "json \<Rightarrow> config \<Rightarrow> config \<times> bool" where
  "dec_config = dec_struct
     [''server_url'', ''auth'', ''tls'', ''cache'', ''approval'', ''log_level'', ''log_file''] (\<lambda>t j r.
     if t = ''server_url''
     then (case dec_string j (ServerURL r) of (v, ok) \<Rightarrow> (r\<lparr>ServerURL := v\<rparr>, ok))
     else if t = ''auth'' then (case dec_auth j (Auth r) of (v, ok) \<Rightarrow> (r\<lparr>Auth := v\<rparr>, ok))
     else if t = ''tls'' then (case dec_tls j (TLS r) of (v, ok) \<Rightarrow> (r\<lparr>TLS := v\<rparr>, ok))
     else if t = ''cache'' then (case dec_cache j (Cache r) of (v, ok) \<Rightarrow> (r\<lparr>Cache := v\<rparr>, ok))
     else if t = ''approval''
     then (case dec_approval j (Approval r) of (v, ok) \<Rightarrow> (r\<lparr>Approval := v\<rparr>, ok))
     else if t = ''log_level''
     then (case dec_string j (LogLevel r) of (v, ok) \<Rightarrow> (r\<lparr>LogLevel := v\<rparr>, ok))
     else (case dec_string j (LogFile r) of (v, ok) \<Rightarrow> (r\<lparr>LogFile := v\<rparr>, ok)))"

definition finish_config :: "os_info \<Rightarrow> config \<Rightarrow> config result" where
  "finish_config os cfg0 =
     (let cfg = applyEnvOverrides os (setDefaults os cfg0) in
      case validate cfg of
        Inl err \<Rightarrow> Inl (Wrapf ''invalid config: '' [] err)
      | Inr _ \<Rightarrow> Inr cfg)"

definition loadConfigFrom :: "os_info \<Rightarrow> string \<Rightarrow> bool \<Rightarrow> config result" where
  "loadConfigFrom os path allowMissing =
     (case os_ReadFile os path of
        FileData data \<Rightarrow>
          (case json_Unmarshal dec_config (string_of data) zero_config of
             (cfg, True) \<Rightarrow> finish_config os cfg
           | (cfg, False) \<Rightarrow> Inl (Wrapf ''failed to parse config file %s: '' [FStr path] (LibErr ''json'')))
      | FileNotExist \<Rightarrow>
          if allowMissing then finish_config os zero_config
          else Inl (Wrapf ''failed to read config file %s: '' [FStr path] (LibErr ''file does not exist''))
      | FileFails e \<Rightarrow> Inl (Wrapf ''failed to read config file %s: '' [FStr path] (LibErr e)))"

definition LoadConfig :: "os_info \<Rightarrow> config result" where
  "LoadConfig os = loadConfigFrom os (ConfigPath os) (os_Getenv os EnvConfigPath = [])"

section \<open>What a loaded configuration satisfies\<close>

definition good_config :: "config \<Rightarrow> bool" where
  "good_config c \<longleftrightarrow>
     (case url_Parse (ServerURL c) of
        Inl _ \<Rightarrow> False
      | Inr u \<Rightarrow> map lower_ascii (url_Scheme u) \<in> {''http'', ''https''} \<and> url_Host u \<noteq> [])
     \<and> auth_Method (Auth c) \<in> {AuthMethodUniversalAuth, AuthMethodToken}
     \<and> (SigningDuration (Approval c) \<noteq> [] \<longrightarrow>
          (case parseApprovalDuration (SigningDuration (Approval c)) of
             Inl _ \<Rightarrow> False
           | Inr d \<Rightarrow> min_window \<le> d \<and> d \<le> max_window))
     \<and> 0 \<le> SigningCount (Approval c)"

definition defaults_set :: "config \<Rightarrow> bool" where
  "defaults_set c \<longleftrightarrow> TokenTTLSeconds (Cache c) \<noteq> 0 \<and> CertTTLSeconds (Cache c) \<noteq> 0
     \<and> SignerTTLSeconds (Cache c) \<noteq> 0 \<and> LogLevel c \<noteq> [] \<and> auth_Method (Auth c) \<noteq> []"

lemma url_Parse_Nil: "url_Parse [] = Inr \<lparr>url_Scheme = [], url_Host = []\<rparr>"
  by (simp add: url_Parse_def url_parse_nofrag_def Cut_def has_ctl_def getScheme_def HasSuffix_def
      HasPrefix_def)

lemma validate_iff: "validate c = Inr () \<longleftrightarrow> good_config c"
  by (cases "ServerURL c = []")
    (auto simp: validate_def validate_url_def validate_approval_def good_config_def Let_def
      url_Parse_Nil split: sum.splits if_splits)

lemma defaults_set_setDefaults: "defaults_set (setDefaults os c)"
  by (simp add: setDefaults_def defaults_set_def default_cache_def default_method_def Let_def
      AuthMethodToken_def AuthMethodUniversalAuth_def)

lemma defaults_set_env: "defaults_set c \<Longrightarrow> defaults_set (applyEnvOverrides os c)"
  by (simp add: applyEnvOverrides_def defaults_set_def Let_def AuthMethodToken_def)

lemma finish_config_Inr:
  "finish_config os cfg = Inr c \<longleftrightarrow> c = applyEnvOverrides os (setDefaults os cfg) \<and> good_config c"
  by (auto simp: finish_config_def Let_def validate_iff [symmetric] split: sum.splits)

lemma loadConfigFrom_Inr:
  "loadConfigFrom os path allow = Inr c \<Longrightarrow> \<exists>cfg. finish_config os cfg = Inr c"
  by (auto simp: loadConfigFrom_def split: file_result.splits prod.splits bool.splits if_splits)

lemma setDefaults_id: "defaults_set c \<Longrightarrow> LogFile c \<noteq> [] \<Longrightarrow> setDefaults os c = c"
  by (simp add: setDefaults_def defaults_set_def default_cache_def default_method_def Let_def)

lemma applyEnvOverrides_fields:
  "ServerURL (applyEnvOverrides os c)
     = (if os_Getenv os EnvServerURL \<noteq> [] then os_Getenv os EnvServerURL else ServerURL c)"
  "auth_ClientID (Auth (applyEnvOverrides os c))
     = (if os_Getenv os EnvClientID \<noteq> [] then os_Getenv os EnvClientID else auth_ClientID (Auth c))"
  "auth_ClientSecret (Auth (applyEnvOverrides os c))
     = (if os_Getenv os EnvClientSecret \<noteq> [] then os_Getenv os EnvClientSecret
        else auth_ClientSecret (Auth c))"
  "auth_Token (Auth (applyEnvOverrides os c))
     = (if os_Getenv os EnvToken \<noteq> [] then os_Getenv os EnvToken else auth_Token (Auth c))"
  "auth_Method (Auth (applyEnvOverrides os c))
     = (if os_Getenv os EnvToken \<noteq> [] then AuthMethodToken else auth_Method (Auth c))"
  "TLS (applyEnvOverrides os c) = TLS c" "Cache (applyEnvOverrides os c) = Cache c"
  "Approval (applyEnvOverrides os c) = Approval c" "LogLevel (applyEnvOverrides os c) = LogLevel c"
  "LogFile (applyEnvOverrides os c) = LogFile c"
  by (simp_all add: applyEnvOverrides_def Let_def)

lemma default_idem:
  "default_cache (default_cache c) = default_cache c" "default_method (default_method a) = default_method a"
  by (simp_all add: default_cache_def default_method_def Let_def AuthMethodToken_def
      AuthMethodUniversalAuth_def)

lemma setDefaults_eq:
  "setDefaults os c = c\<lparr>Cache := default_cache (Cache c),
     LogLevel := (if LogLevel c = [] then ''info'' else LogLevel c),
     Auth := default_method (Auth c),
     LogFile := (if LogFile c = [] then DefaultLogPath os else LogFile c)\<rparr>"
  by (simp add: setDefaults_def Let_def)

lemma LoadConfig_Inr: "LoadConfig os = Inr c \<Longrightarrow> \<exists>cfg. finish_config os cfg = Inr c"
  unfolding LoadConfig_def by (rule loadConfigFrom_Inr)

section \<open>Properties\<close>


text \<open>A machine without files whose environment gives the server and a token.\<close>

definition env_only_os :: os_info where
  "env_only_os = \<lparr>os_Windows = False,
     os_Getenv = (\<lambda>v. if v = EnvServerURL then ''http://h'' else if v = EnvToken then ''t'' else []),
     os_ReadFile = (\<lambda>_. FileNotExist), os_Executable = None, os_Hostname = ''host'',
     os_CurrentUser = None, os_Args = [''signtool''], os_GetCommandLine = None, os_Decompose = (\<lambda>_. None)\<rparr>"

definition env_only_config :: config where
  "env_only_config = applyEnvOverrides env_only_os (setDefaults env_only_os zero_config)"

lemma url_demo: "url_Parse ''http://h'' = Inr \<lparr>url_Scheme = ''http'', url_Host = ''h''\<rparr>"
  by code_simp

lemma env_only_loads: "LoadConfig env_only_os = Inr env_only_config"
proof -
  have "good_config env_only_config"
    by (simp add: good_config_def env_only_config_def applyEnvOverrides_fields env_only_os_def
        EnvServerURL_def EnvToken_def EnvClientID_def EnvClientSecret_def url_demo setDefaults_eq
        zero_config_def lower_ascii_def byte_def)
  then have "finish_config env_only_os zero_config = Inr env_only_config"
    by (simp add: finish_config_Inr env_only_config_def)
  moreover have "os_Getenv env_only_os EnvConfigPath = []"
    by (simp add: env_only_os_def EnvConfigPath_def EnvServerURL_def EnvToken_def)
  ultimately show ?thesis
    by (simp add: LoadConfig_def loadConfigFrom_def) (simp add: env_only_os_def)
qed


text \<open>C32: the environment wins over the file: in a loaded configuration every setting that has an
  environment variable carries the variable's value whenever it is not empty, and a token in the
  environment selects token authentication.\<close>

theorem env_overrides_file:
  assumes "LoadConfig os = Inr c"
  shows "(os_Getenv os EnvServerURL \<noteq> [] \<longrightarrow> ServerURL c = os_Getenv os EnvServerURL)
     \<and> (os_Getenv os EnvClientID \<noteq> [] \<longrightarrow> auth_ClientID (Auth c) = os_Getenv os EnvClientID)
     \<and> (os_Getenv os EnvClientSecret \<noteq> [] \<longrightarrow>
          auth_ClientSecret (Auth c) = os_Getenv os EnvClientSecret)
     \<and> (os_Getenv os EnvToken \<noteq> [] \<longrightarrow>
          auth_Token (Auth c) = os_Getenv os EnvToken \<and> auth_Method (Auth c) = AuthMethodToken)"
proof -
  obtain cfg where "finish_config os cfg = Inr c"
    using LoadConfig_Inr[OF assms] by blast
  then have c: "c = applyEnvOverrides os (setDefaults os cfg)" by (simp add: finish_config_Inr)
  show ?thesis unfolding c applyEnvOverrides_fields by simp
qed

theorem env_overrides_file_witness:
  "ServerURL env_only_config = ''http://h'' \<and> auth_Method (Auth env_only_config) = AuthMethodToken"
  using env_overrides_file[OF env_only_loads]
  by (simp add: env_only_os_def EnvServerURL_def EnvToken_def)

text \<open>Filling in defaults twice, or applying the environment twice, is the same as once.\<close>

theorem defaults_and_overrides_idempotent:
  "setDefaults os (setDefaults os c) = setDefaults os c
   \<and> applyEnvOverrides os (applyEnvOverrides os c) = applyEnvOverrides os c"
proof
  show "setDefaults os (setDefaults os c) = setDefaults os c"
    by (simp add: setDefaults_eq default_idem)
  show "applyEnvOverrides os (applyEnvOverrides os c) = applyEnvOverrides os c"
    by (simp add: applyEnvOverrides_def Let_def)
qed

text \<open>An absent configuration file is an error only when \<^verbatim>\<open>INFISICAL_CONFIG\<close> names it; the
  default file may be absent, and then loading is as if it held \<^verbatim>\<open>{}\<close>.\<close>

theorem missing_config_file:
  assumes "os_ReadFile os (ConfigPath os) = FileNotExist"
  shows "LoadConfig os =
     (if os_Getenv os EnvConfigPath \<noteq> []
      then Inl (Wrapf ''failed to read config file %s: '' [FStr (ConfigPath os)]
             (LibErr ''file does not exist''))
      else loadConfigFrom (os\<lparr>os_ReadFile := (\<lambda>_. FileData (bytes_of ''{}''))\<rparr>) (ConfigPath os) False)"
proof -
  have "json_parse ''{}'' = Some (JObj [])" by code_simp
  then have j: "json_Unmarshal dec_config ''{}'' zero_config = (zero_config, True)"
    by (simp add: json_Unmarshal_def dec_config_def dec_struct_def)
  have env: "finish_config (os\<lparr>os_ReadFile := f\<rparr>) c = finish_config os c" for f c
    by (cases os) (simp only: finish_config_def setDefaults_def applyEnvOverrides_def DefaultLogPath_def
        programData_def os_info.simps)
  show ?thesis
    using assms by (simp add: LoadConfig_def loadConfigFrom_def j env)
qed

theorem missing_config_file_witness:
  "loadConfigFrom (env_only_os\<lparr>os_ReadFile := (\<lambda>_. FileData (bytes_of ''{}''))\<rparr>) (ConfigPath env_only_os) False
   = Inr env_only_config"
proof -
  have "os_ReadFile env_only_os (ConfigPath env_only_os) = FileNotExist" "os_Getenv env_only_os EnvConfigPath = []"
    by (simp_all add: env_only_os_def EnvConfigPath_def EnvServerURL_def EnvToken_def)
  with missing_config_file[of env_only_os] env_only_loads show ?thesis by simp
qed

lemma nat_dec_213504: "nat_dec 213504 = ''213504''"
  by (simp add: nat_dec.simps digit_def) (simp add: chr8_eq byte_def)

text \<open>The limit of thirty days can be passed: 213504 days wrap around as an \<^verbatim>\<open>int64\<close> of
  nanoseconds to about 25 minutes, and validation accepts them.\<close>

theorem window_limit_wraps:
  "parseApprovalDuration ''213504d'' = Inr 1526290448384
   \<and> validate_approval \<lparr>SigningCount = 0, SigningDuration = ''213504d''\<rparr> = Inr ()"
proof -
  have "parseApprovalDuration ''213504d'' = Inr 1526290448384"
    using parse_days[of 213504] nat_dec_213504
    by (simp add: i64_def hour_def minute_def second_def)
  then show ?thesis
    by (simp add: validate_approval_def min_window_def max_window_def hour_def minute_def second_def)
qed

text \<open>A server URL with a port but no host name passes the host check.\<close>

theorem host_check_accepts_port: "validate_url ''http://:8080'' = Inr ()"
  by code_simp

end
