(* ===== verification/CngEcdsa.thy ===== *)
theory CngEcdsa
  imports GoErrors Encoding
begin

text \<open>
  \<^verbatim>\<open>internal/cng/ecdsa.go\<close>: a DER signature becomes the fixed-width pair CNG expects. The
  part of Go's \<^verbatim>\<open>encoding/asn1\<close> that \<^verbatim>\<open>asn1.Unmarshal\<close> runs for a struct of two
  \<^verbatim>\<open>*big.Int\<close> is modelled step by step: tag and length, the INTEGER rules, and the SEQUENCE whose
  content may be longer than the two fields.
\<close>

unbundle bit_operations_syntax

section \<open>asn1.Unmarshal\<close>

definition asn1_syntax :: "string \<Rightarrow> go_error" where
  "asn1_syntax m = LibErr (''asn1: syntax error: '' @ m)"

definition asn1_structural :: "string \<Rightarrow> go_error" where
  "asn1_structural m = LibErr (''asn1: structure error: '' @ m)"

text \<open>\<^verbatim>\<open>parseBase128Int\<close>: the number of bytes read so far and their value.\<close>

fun parseBase128Int :: "nat \<Rightarrow> nat \<Rightarrow> bytes \<Rightarrow> (nat \<times> bytes) result" where
  "parseBase128Int shifted acc [] = Inl (asn1_syntax ''truncated base 128 integer'')"
| "parseBase128Int shifted acc (b # bs) =
     (if shifted = 5 then Inl (asn1_structural ''base 128 integer too large'')
      else if shifted = 0 \<and> unat b = 128 then Inl (asn1_syntax ''integer is not minimally encoded'')
      else let acc' = acc * 128 + unat b mod 128 in
        if unat b < 128
        then (if 2147483647 < acc' then Inl (asn1_structural ''base 128 integer too large'')
              else Inr (acc', bs))
        else parseBase128Int (Suc shifted) acc' bs)"

text \<open>The long form of a length: bytes still to read, value so far.\<close>

fun parse_long_length :: "nat \<Rightarrow> nat \<Rightarrow> bytes \<Rightarrow> (nat \<times> bytes) result" where
  "parse_long_length 0 acc bs = Inr (acc, bs)"
| "parse_long_length (Suc n) acc [] = Inl (asn1_syntax ''truncated tag or length'')"
| "parse_long_length (Suc n) acc (b # bs) =
     (if 2 ^ 23 \<le> acc then Inl (asn1_structural ''length too large'')
      else let acc' = acc * 256 + unat b in
        if acc' = 0 then Inl (asn1_structural ''superfluous leading zeros in length'')
        else parse_long_length n acc' bs)"

definition parse_length :: "bytes \<Rightarrow> (nat \<times> bytes) result" where
  "parse_length bs = (case bs of
       [] \<Rightarrow> Inl (asn1_syntax ''truncated tag or length'')
     | b # rest \<Rightarrow>
         if unat b < 128 then Inr (unat b, rest)
         else if unat b = 128 then Inl (asn1_syntax ''indefinite length found (not DER)'')
         else (case parse_long_length (unat b - 128) 0 rest of
                 Inl e \<Rightarrow> Inl e
               | Inr (n, rest') \<Rightarrow>
                   if n < 128 then Inl (asn1_structural ''non-minimal length'')
                   else Inr (n, rest')))"

text \<open>\<^verbatim>\<open>parseTagAndLength\<close>: class, constructed bit, tag number, length, what follows.\<close>

definition parseTagAndLength :: "bytes \<Rightarrow> (nat \<times> bool \<times> nat \<times> nat \<times> bytes) result" where
  "parseTagAndLength bs = (case bs of
       [] \<Rightarrow> Inl (LibErr ''asn1: internal error in parseTagAndLength'')
     | b # rest \<Rightarrow>
        (case (if unat b mod 32 = 31
               then (case parseBase128Int 0 0 rest of
                       Inl e \<Rightarrow> Inl e
                     | Inr (t, r) \<Rightarrow> if t < 31 then Inl (asn1_syntax ''non-minimal tag'') else Inr (t, r))
               else Inr (unat b mod 32, rest)) of
           Inl e \<Rightarrow> Inl e
         | Inr (tag, r) \<Rightarrow>
             (case parse_length r of
                Inl e \<Rightarrow> Inl e
              | Inr (n, r') \<Rightarrow> Inr (unat b div 64, odd (unat b div 32), tag, n, r'))))"

text \<open>The common part of \<^verbatim>\<open>parseField\<close> for a universal tag: the content and what follows.\<close>

definition parse_field :: "nat \<Rightarrow> bool \<Rightarrow> bytes \<Rightarrow> (bytes \<times> bytes) result" where
  "parse_field want_tag want_compound bs =
     (if bs = [] then Inl (asn1_syntax ''sequence truncated'')
      else case parseTagAndLength bs of
        Inl e \<Rightarrow> Inl e
      | Inr (cls, compound, tag, n, rest) \<Rightarrow>
          if cls \<noteq> 0 \<or> tag \<noteq> want_tag \<or> compound \<noteq> want_compound
          then Inl (asn1_structural ''tags don't match'')
          else if length rest < n then Inl (asn1_syntax ''data truncated'')
          else Inr (take n rest, drop n rest))"

text \<open>\<^verbatim>\<open>checkInteger\<close> and \<^verbatim>\<open>parseBigInt\<close>: two's complement, minimal.\<close>

definition parseBigInt :: "bytes \<Rightarrow> int result" where
  "parseBigInt bs = (case bs of
       [] \<Rightarrow> Inl (asn1_structural ''empty integer'')
     | b0 # bs' \<Rightarrow>
         if bs' \<noteq> [] \<and> (unat b0 = 0 \<and> unat (hd bs') < 128 \<or> unat b0 = 255 \<and> 128 \<le> unat (hd bs'))
         then Inl (asn1_structural ''integer not minimally-encoded'')
         else if 128 \<le> unat b0 then Inr (- (int (be_val (map NOT bs)) + 1))
         else Inr (int (be_val bs)))"

definition parse_int_field :: "bytes \<Rightarrow> (int \<times> bytes) result" where
  "parse_int_field bs = (case parse_field 2 False bs of
       Inl e \<Rightarrow> Inl e
     | Inr (content, rest) \<Rightarrow>
         (case parseBigInt content of Inl e \<Rightarrow> Inl e | Inr v \<Rightarrow> Inr (v, rest)))"

text \<open>\<^verbatim>\<open>asn1.Unmarshal(der, &sig)\<close> for \<open>ecdsaDERSig\<close>: the two integers and the bytes after the
  SEQUENCE. Bytes inside the SEQUENCE after the second integer are ignored, as Go does.\<close>

definition unmarshal_ecdsaDERSig :: "bytes \<Rightarrow> ((int \<times> int) \<times> bytes) result" where
  "unmarshal_ecdsaDERSig der = (case parse_field 16 True der of
       Inl e \<Rightarrow> Inl e
     | Inr (content, rest) \<Rightarrow>
         (case parse_int_field content of
            Inl e \<Rightarrow> Inl e
          | Inr (r, content') \<Rightarrow>
              (case parse_int_field content' of
                 Inl e \<Rightarrow> Inl e
               | Inr (s, _) \<Rightarrow> Inr ((r, s), rest))))"

section \<open>ECDSADERToRaw\<close>

text \<open>\<open>copy(dst[i:], src)\<close>.\<close>

definition go_copy :: "bytes \<Rightarrow> nat \<Rightarrow> bytes \<Rightarrow> bytes" where
  "go_copy dst i src = take i dst @ take (length dst - i) src @ drop (i + length src) dst"

definition coord_size :: "nat \<Rightarrow> nat" where
  "coord_size bits = (bits + 7) div 8"

definition ECDSADERToRaw :: "bytes \<Rightarrow> nat \<Rightarrow> bytes result" where
  "ECDSADERToRaw der curveBits = (case unmarshal_ecdsaDERSig der of
       Inl err \<Rightarrow> Inl (Wrapf ''parse DER ECDSA signature: '' [] err)
     | Inr ((sigR, sigS), rest) \<Rightarrow>
         if rest \<noteq> [] then Inl (Errorf ''trailing bytes after DER ECDSA signature'' [])
         else if sigR \<le> 0 \<or> sigS \<le> 0
         then Inl (Errorf ''ECDSA signature has non-positive r or s'' [])
         else
           let sz = coord_size curveBits;
               r = be_bytes (nat sigR); s = be_bytes (nat sigS)
           in if length r > sz \<or> length s > sz
              then Inl (Errorf ''ECDSA r/s larger than curve size %d'' [FInt (int sz)])
              else let out = replicate (2 * sz) 0;
                       out = go_copy out (sz - length r) r;
                       out = go_copy out (2 * sz - length s) s
                   in Inr out)"

section \<open>Fixed-width integers\<close>

definition fixed_be :: "nat \<Rightarrow> nat \<Rightarrow> bytes" where
  "fixed_be sz v = replicate (sz - length (be_bytes v)) 0 @ be_bytes v"

lemma fixed_be_val [simp]: "be_val (fixed_be sz v) = v"
  by (simp add: fixed_be_def be_val_append)

lemma fixed_be_length [byte_size]: "v < 256 ^ sz \<Longrightarrow> length (fixed_be sz v) = sz"
  by (simp add: fixed_be_def be_bytes_length)

lemma go_copy_two_halves:
  assumes "length r \<le> sz" "length s \<le> sz"
  shows "go_copy (go_copy (replicate (2 * sz) 0) (sz - length r) r) (2 * sz - length s) s
       = (replicate (sz - length r) 0 @ r) @ (replicate (sz - length s) 0 @ s)"
proof -
  have 1: "go_copy (replicate (2 * sz) 0) (sz - length r) r
         = replicate (sz - length r) 0 @ r @ replicate sz 0"
    using assms by (simp add: go_copy_def)
  have l: "length (replicate (sz - length r) (0::u8) @ r) = sz" using assms by simp
  then show ?thesis
    using assms unfolding 1 by (simp add: go_copy_def)
qed

text \<open>What a successful conversion returns.\<close>

lemma ECDSADERToRaw_Inr:
  "ECDSADERToRaw der bits = Inr out \<longleftrightarrow>
   (\<exists>r s. unmarshal_ecdsaDERSig der = Inr ((int r, int s), []) \<and> 0 < r \<and> 0 < s
      \<and> r < 256 ^ coord_size bits \<and> s < 256 ^ coord_size bits
      \<and> out = fixed_be (coord_size bits) r @ fixed_be (coord_size bits) s)"
  (is "?L \<longleftrightarrow> ?R")
proof
  assume ?L
  then obtain a b where u: "unmarshal_ecdsaDERSig der = Inr ((a, b), [])"
    and pos: "0 < a" "0 < b"
    and le: "length (be_bytes (nat a)) \<le> coord_size bits" "length (be_bytes (nat b)) \<le> coord_size bits"
    and out: "out = go_copy (go_copy (replicate (2 * coord_size bits) 0)
        (coord_size bits - length (be_bytes (nat a))) (be_bytes (nat a)))
        (2 * coord_size bits - length (be_bytes (nat b))) (be_bytes (nat b))"
    by (auto simp: ECDSADERToRaw_def Let_def split: sum.splits if_splits prod.splits)
  from out le have "out = fixed_be (coord_size bits) (nat a) @ fixed_be (coord_size bits) (nat b)"
    by (simp add: go_copy_two_halves fixed_be_def)
  moreover from le have "nat a < 256 ^ coord_size bits" "nat b < 256 ^ coord_size bits"
    by (simp_all add: be_bytes_length)
  moreover from pos have "a = int (nat a)" "b = int (nat b)" "0 < nat a" "0 < nat b" by simp_all
  ultimately show ?R using u by metis
next
  assume ?R
  then obtain r s where u: "unmarshal_ecdsaDERSig der = Inr ((int r, int s), [])"
    and pos: "0 < r" "0 < s"
    and le: "length (be_bytes r) \<le> coord_size bits" "length (be_bytes s) \<le> coord_size bits"
    and out: "out = fixed_be (coord_size bits) r @ fixed_be (coord_size bits) s"
    by (auto simp: be_bytes_length)
  then show ?L
    by (simp add: ECDSADERToRaw_def Let_def go_copy_two_halves fixed_be_def)
qed

section \<open>A DER encoder\<close>

text \<open>The distinguished encoding of a signature, as an encoder would write it: the reference the
  parser is checked against.\<close>

definition der_length :: "nat \<Rightarrow> bytes" where
  "der_length n = (if n < 128 then [of_nat n]
     else of_nat (128 + length (be_bytes n)) # be_bytes n)"

definition der_content :: "nat \<Rightarrow> bytes" where
  "der_content v = (let bs = be_bytes v in if 128 \<le> unat (hd bs) then 0 # bs else bs)"

definition der_int :: "nat \<Rightarrow> bytes" where
  "der_int v = 2 # der_length (length (der_content v)) @ der_content v"

definition der_seq :: "bytes \<Rightarrow> bytes" where
  "der_seq content = 48 # der_length (length content) @ content"

definition der_sig :: "nat \<Rightarrow> nat \<Rightarrow> bytes" where
  "der_sig r s = der_seq (der_int r @ der_int s)"

lemma parse_long_length_bytes:
  assumes "0 < acc \<or> bs \<noteq> [] \<and> hd bs \<noteq> 0"
    and "acc * 256 ^ length bs + be_val bs < 2 ^ 31"
  shows "parse_long_length (length bs) acc (bs @ rest) = Inr (acc * 256 ^ length bs + be_val bs, rest)"
  using assms
proof (induction bs arbitrary: acc)
  case Nil
  then show ?case by simp
next
  case (Cons b bs)
  let ?a = "acc * 256 + unat b"
  have val: "acc * 256 ^ length (b # bs) + be_val (b # bs) = ?a * 256 ^ length bs + be_val bs"
    by (simp add: be_val_Cons algebra_simps)
  have le: "?a * 1 \<le> ?a * 256 ^ length bs" by (intro mult_le_mono) simp_all
  have bnd: "?a * 256 ^ length bs + be_val bs < 2 ^ 31" using Cons.prems(2) val by metis
  have "?a < 2 ^ 31" using le add_lessD1[OF bnd] unfolding mult_1_right by (rule le_less_trans)
  then have small: "acc < 2 ^ 23" by simp
  have pos: "0 < ?a" using Cons.prems(1) by (auto simp: unat_gt_0)
  have "parse_long_length (length bs) ?a (bs @ rest) = Inr (?a * 256 ^ length bs + be_val bs, rest)"
    using pos bnd by (intro Cons.IH) auto
  with small pos val show ?case by simp
qed

lemma parse_length_der:
  assumes "n < 2 ^ 31"
  shows "parse_length (der_length n @ rest) = Inr (n, rest)"
proof (cases "n < 128")
  case True
  then show ?thesis by (simp add: der_length_def parse_length_def)
next
  case False
  let ?k = "length (be_bytes n)"
  have "?k \<le> 4" using assms by (simp add: be_bytes_length)
  moreover have "0 < ?k" using False by simp
  ultimately have k: "0 < ?k" "unat (of_nat (128 + ?k) :: u8) = 128 + ?k"
    by (simp_all only: unat_of_nat_u8) simp
  have "parse_long_length ?k 0 (be_bytes n @ rest) = Inr (n, rest)"
    using parse_long_length_bytes[of 0 "be_bytes n" rest] False assms by (simp add: be_bytes_hd)
  with False k show ?thesis
    by (simp add: der_length_def parse_length_def del: of_nat_add)
qed

lemma parse_field_der:
  assumes "length content < 2 ^ 31" and "tag < 31"
    and hb: "unat hb = tag + (if compound then 32 else 0)"
  shows "parse_field tag compound (hb # der_length (length content) @ content @ rest)
     = Inr (content, rest)"
proof -
  have "unat hb mod 32 = tag" "unat hb div 64 = 0" "odd (unat hb div 32) = compound"
    using assms(2) unfolding hb by (cases compound; simp add: div_add_self2)+
  then show ?thesis
    using parse_length_der[OF assms(1), of "content @ rest"] assms(2)
    by (simp add: parse_field_def parseTagAndLength_def)
qed

lemma der_content_val: "be_val (der_content v) = v"
  by (simp add: der_content_def Let_def be_val_Cons)

lemma length_der_content: "length (der_content v) \<le> Suc (length (be_bytes v))"
  by (simp add: der_content_def Let_def)

lemma parseBigInt_der_content:
  assumes "0 < v" shows "parseBigInt (der_content v) = Inr (int v)"
proof (cases "128 \<le> unat (hd (be_bytes v))")
  case True
  then show ?thesis using assms
    by (cases "be_bytes v") (auto simp: parseBigInt_def der_content_def be_val_Cons
        dest: arg_cong[where f = be_val])
next
  case False
  obtain b bs where v: "be_bytes v = b # bs" using assms by (cases "be_bytes v") auto
  have "b \<noteq> 0" using be_bytes_hd[of v] assms v by simp
  then have "unat b \<noteq> 0" by (simp add: unat_eq_zero)
  with False v show ?thesis
    using be_val_be_bytes[of v] by (simp add: parseBigInt_def der_content_def)
qed

lemma parse_int_field_der:
  assumes "0 < v" "length (be_bytes v) < 2 ^ 30"
  shows "parse_int_field (der_int v @ rest) = Inr (int v, rest)"
proof -
  have "length (der_content v) < 2 ^ 31"
    using length_der_content[of v] assms(2) by simp
  then show ?thesis
    using parse_field_der[of "der_content v" 2 2 False rest] parseBigInt_der_content[OF assms(1)]
    by (simp add: parse_int_field_def der_int_def)
qed

text \<open>The parser reads back what the encoder writes, whatever follows inside or after the
  SEQUENCE.\<close>

lemma unmarshal_der:
  assumes "0 < r" "0 < s" "length (be_bytes r) < 2 ^ 28" "length (be_bytes s) < 2 ^ 28"
    and "length extra < 2 ^ 28"
  shows "unmarshal_ecdsaDERSig (der_seq (der_int r @ der_int s @ extra) @ rest)
       = Inr ((int r, int s), rest)"
proof -
  have dl: "length (der_length n) \<le> 5" if "n < 2 ^ 31" for n
    using that be_bytes_length[of n 4] by (simp add: der_length_def)
  have len: "length (der_int v) \<le> 7 + length (be_bytes v)" if "length (be_bytes v) < 2 ^ 28" for v
    using dl[of "length (der_content v)"] length_der_content[of v] that
    by (simp add: der_int_def)
  have "length (der_int r @ der_int s @ extra) < 2 ^ 31"
    using len[of r] len[of s] assms by simp
  from parse_field_der[OF this, of 16 48 True rest]
  have "parse_field 16 True (der_seq (der_int r @ der_int s @ extra) @ rest)
      = Inr (der_int r @ der_int s @ extra, rest)"
    by (simp add: der_seq_def)
  then show ?thesis
    using parse_int_field_der[of r "der_int s @ extra"] parse_int_field_der[of s extra] assms
    by (simp add: unmarshal_ecdsaDERSig_def)
qed

lemma fixed_width_small: "v < 256 ^ sz \<Longrightarrow> sz < 2 ^ 28 \<Longrightarrow> length (be_bytes v) < 2 ^ 28"
  using be_bytes_length[of v sz] by simp

lemma ECDSADERToRaw_der:
  assumes "0 < r" "0 < s" "r < 256 ^ coord_size bits" "s < 256 ^ coord_size bits"
    and "coord_size bits < 2 ^ 28" "length extra < 2 ^ 28"
  shows "ECDSADERToRaw (der_seq (der_int r @ der_int s @ extra)) bits
       = Inr (fixed_be (coord_size bits) r @ fixed_be (coord_size bits) s)"
proof -
  have "length (be_bytes r) < 2 ^ 28" "length (be_bytes s) < 2 ^ 28"
    using fixed_width_small[OF assms(3,5)] fixed_width_small[OF assms(4,5)] by simp_all
  then have "unmarshal_ecdsaDERSig (der_seq (der_int r @ der_int s @ extra) @ []) = Inr ((int r, int s), [])"
    using assms by (intro unmarshal_der) simp_all
  then show ?thesis using assms by (auto simp: ECDSADERToRaw_Inr)
qed

section \<open>Properties\<close>

text \<open>C15: a DER signature of two positive integers that fit the curve converts to the two integers
  in big-endian, each padded to the coordinate size of the curve.\<close>

theorem ecdsa_roundtrip:
  assumes "0 < r" "0 < s" "r < 256 ^ coord_size bits" "s < 256 ^ coord_size bits"
    and "coord_size bits < 2 ^ 28"
  shows "ECDSADERToRaw (der_sig r s) bits
       = Inr (fixed_be (coord_size bits) r @ fixed_be (coord_size bits) s)"
  using ECDSADERToRaw_der[OF assms, of "[]"] by (simp add: der_sig_def)

theorem ecdsa_roundtrip_witness:
  "ECDSADERToRaw (der_sig 200 7) 256 = Inr (fixed_be 32 200 @ fixed_be 32 7)"
  using ecdsa_roundtrip[of 200 7 256] by (simp add: coord_size_def)

text \<open>C27: whatever bytes the server returns, a successful conversion has exactly twice the
  coordinate size, and its two halves are the positive integers the DER text contains.\<close>

theorem ecdsa_raw_shape:
  assumes "ECDSADERToRaw der bits = Inr out"
  shows "length out = 2 * coord_size bits
     \<and> 0 < be_val (take (coord_size bits) out) \<and> 0 < be_val (drop (coord_size bits) out)
     \<and> unmarshal_ecdsaDERSig der
         = Inr ((int (be_val (take (coord_size bits) out)), int (be_val (drop (coord_size bits) out))), [])"
  using assms by (auto simp: ECDSADERToRaw_Inr fixed_be_length)

theorem ecdsa_raw_shape_witness:
  "unmarshal_ecdsaDERSig (der_sig 200 7) = Inr ((200, 7), [])"
proof -
  have e: "ECDSADERToRaw (der_seq (der_int 200 @ der_int 7 @ [])) 256 = Inr (fixed_be 32 200 @ fixed_be 32 7)"
    using ECDSADERToRaw_der[of 200 7 256 "[]"] by (simp add: coord_size_def)
  have "length (fixed_be 32 200) = 32" by (simp add: fixed_be_length)
  with ecdsa_raw_shape[OF e] show ?thesis by (simp add: coord_size_def der_sig_def)
qed

text \<open>Bytes after the second integer, inside the SEQUENCE, are accepted and ignored; only
  bytes after the SEQUENCE are refused as trailing bytes.\<close>

theorem ecdsa_inner_trailing:
  assumes "0 < r" "0 < s" "r < 256 ^ coord_size bits" "s < 256 ^ coord_size bits"
    and "coord_size bits < 2 ^ 28" "length extra < 2 ^ 28" "after \<noteq> []"
  shows "ECDSADERToRaw (der_seq (der_int r @ der_int s @ extra)) bits = ECDSADERToRaw (der_sig r s) bits
     \<and> ECDSADERToRaw (der_seq (der_int r @ der_int s @ extra) @ after) bits
         = Inl (Errorf ''trailing bytes after DER ECDSA signature'' [])"
proof -
  have "length (be_bytes r) < 2 ^ 28" "length (be_bytes s) < 2 ^ 28"
    using fixed_width_small[OF assms(3,5)] fixed_width_small[OF assms(4,5)] by simp_all
  then have "unmarshal_ecdsaDERSig (der_seq (der_int r @ der_int s @ extra) @ after) = Inr ((int r, int s), after)"
    using assms by (intro unmarshal_der) simp_all
  then show ?thesis
    using assms(7) ECDSADERToRaw_der[OF assms(1-6)] ECDSADERToRaw_der[OF assms(1-5), of "[]"]
    by (simp add: der_sig_def ECDSADERToRaw_def)
qed

theorem ecdsa_inner_trailing_witness:
  "ECDSADERToRaw (der_seq (der_int 200 @ der_int 7 @ [1, 2, 3])) 256 = ECDSADERToRaw (der_sig 200 7) 256"
  using ecdsa_inner_trailing[of 200 7 256 "[1, 2, 3]" "[0]"] by (simp add: coord_size_def)

end
