(* ===== verification/CngPubkey.thy ===== *)
theory CngPubkey
  imports CngEcdsa
begin

text \<open>
  \<^verbatim>\<open>internal/cng/pubkey.go\<close>: public keys as CNG blobs. A \<^verbatim>\<open>crypto.PublicKey\<close> is one of the
  two types the program handles or a third that it refuses, known by its type name.
\<close>

section \<open>Public keys\<close>

record rsa_key =
  rsa_N :: nat
  rsa_E :: int

record ecdsa_key =
  ec_BitSize :: nat
  ec_X :: nat
  ec_Y :: nat

datatype public_key = RSAPublicKey rsa_key | ECDSAPublicKey ecdsa_key | OtherPublicKey string

section \<open>Blobs\<close>

definition magicRSAPublic :: u32 where "magicRSAPublic = 0x31415352"
definition magicECDSAPubP256 :: u32 where "magicECDSAPubP256 = 0x31534345"
definition magicECDSAPubP384 :: u32 where "magicECDSAPubP384 = 0x33534345"
definition magicECDSAPubP521 :: u32 where "magicECDSAPubP521 = 0x35534345"

definition leftPad :: "bytes \<Rightarrow> nat \<Rightarrow> bytes" where
  "leftPad b sz = (if sz \<le> length b then b
     else go_copy (replicate sz 0) (sz - length b) b)"

text \<open>The 24-byte header is allocated zeroed and its first four words are written in place; the two
  prime lengths stay zero.\<close>

definition RSAPublicBlob :: "rsa_key \<Rightarrow> bytes" where
  "RSAPublicBlob pub =
     (let expo = be_bytes (nat \<bar>rsa_E pub\<bar>);
          modu = be_bytes (rsa_N pub);
          out = replicate 24 0;
          out = go_copy out 0 (le32 magicRSAPublic);
          out = go_copy out 4 (le32 (of_nat (BitLen (rsa_N pub))));
          out = go_copy out 8 (le32 (of_nat (length expo)));
          out = go_copy out 12 (le32 (of_nat (length modu)))
      in out @ expo @ modu)"

definition ECCPublicBlob :: "ecdsa_key \<Rightarrow> bytes result" where
  "ECCPublicBlob pub =
     (let bits = ec_BitSize pub in
      case (if bits = 256 then Some magicECDSAPubP256
            else if bits = 384 then Some magicECDSAPubP384
            else if bits = 521 then Some magicECDSAPubP521 else None) of
        None \<Rightarrow> Inl (Errorf ''unsupported EC curve: %d bits'' [FInt (int bits)])
      | Some magic \<Rightarrow>
          let cbKey = coord_size bits;
              out = replicate 8 0;
              out = go_copy out 0 (le32 magic);
              out = go_copy out 4 (le32 (of_nat cbKey))
          in Inr (out @ leftPad (be_bytes (ec_X pub)) cbKey @ leftPad (be_bytes (ec_Y pub)) cbKey))"

section \<open>Layout\<close>

text \<open>A ULONG field of a blob, as a consumer of the format reads it.\<close>

definition ulong_at :: "bytes \<Rightarrow> nat \<Rightarrow> nat" where
  "ulong_at blob i = le_val (take 4 (drop i blob))"

lemma leftPad_fixed: "length b \<le> sz \<Longrightarrow> leftPad b sz = replicate (sz - length b) 0 @ b"
  by (simp add: leftPad_def go_copy_def)

lemma leftPad_be: "v < 256 ^ sz \<Longrightarrow> leftPad (be_bytes v) sz = fixed_be sz v"
  by (simp add: leftPad_fixed be_bytes_length fixed_be_def)

lemma go_copy_at:
  "length pre = i \<Longrightarrow> length mid = length src \<Longrightarrow>
   go_copy (pre @ mid @ post) i src = pre @ src @ post"
  by (simp add: go_copy_def)

lemma rsa_header:
  "go_copy (go_copy (go_copy (go_copy (replicate 24 0) 0 (le32 a)) 4 (le32 b)) 8 (le32 c)) 12 (le32 d)
   = le32 a @ le32 b @ le32 c @ le32 d @ replicate 8 0"
proof -
  let ?z = "replicate 4 (0 :: u8)"
  have z: "replicate 24 (0 :: u8) = ?z @ ?z @ ?z @ ?z @ replicate 8 0"
    by (simp flip: replicate_add)
  show ?thesis
    unfolding z
    using go_copy_at[of "[]" 0 ?z "le32 a" "?z @ ?z @ ?z @ replicate 8 0"]
      go_copy_at[of "le32 a" 4 ?z "le32 b" "?z @ ?z @ replicate 8 0"]
      go_copy_at[of "le32 a @ le32 b" 8 ?z "le32 c" "?z @ replicate 8 0"]
      go_copy_at[of "le32 a @ le32 b @ le32 c" 12 ?z "le32 d" "replicate 8 0"]
    by simp
qed

lemma RSAPublicBlob_layout:
  "RSAPublicBlob pub =
     le32 magicRSAPublic @ le32 (of_nat (BitLen (rsa_N pub)))
     @ le32 (of_nat (length (be_bytes (nat \<bar>rsa_E pub\<bar>))))
     @ le32 (of_nat (length (be_bytes (rsa_N pub)))) @ replicate 8 0
     @ be_bytes (nat \<bar>rsa_E pub\<bar>) @ be_bytes (rsa_N pub)"
  by (simp only: RSAPublicBlob_def Let_def rsa_header append_assoc)

lemma ecc_header:
  "go_copy (go_copy (replicate 8 0) 0 (le32 m)) 4 (le32 k) = le32 m @ le32 k"
  by (simp add: go_copy_def)

lemma ECCPublicBlob_layout:
  "ECCPublicBlob pub = Inr blob \<longleftrightarrow>
   (\<exists>magic. (ec_BitSize pub, magic) \<in>
        {(256, magicECDSAPubP256), (384, magicECDSAPubP384), (521, magicECDSAPubP521)}
     \<and> blob = le32 magic @ le32 (of_nat (coord_size (ec_BitSize pub)))
        @ leftPad (be_bytes (ec_X pub)) (coord_size (ec_BitSize pub))
        @ leftPad (be_bytes (ec_Y pub)) (coord_size (ec_BitSize pub)))"
  by (cases "ec_BitSize pub = 256"; cases "ec_BitSize pub = 384"; cases "ec_BitSize pub = 521")
    (auto simp: ECCPublicBlob_def ecc_header Let_def)

lemma ulong_at_le32:
  "length pre = i \<Longrightarrow> ulong_at (pre @ le32 v @ post) i = unat v"
  by (simp add: ulong_at_def)

text \<open>A decoder for the RSA blob: bit length, exponent, modulus, from the lengths the header
  declares.\<close>

definition read_rsa_blob :: "bytes \<Rightarrow> (nat \<times> nat \<times> nat) option" where
  "read_rsa_blob blob =
     (let cbExp = ulong_at blob 8; cbMod = ulong_at blob 12 in
      if ulong_at blob 0 = unat magicRSAPublic \<and> length blob = 24 + cbExp + cbMod
        \<and> ulong_at blob 16 = 0 \<and> ulong_at blob 20 = 0
      then Some (ulong_at blob 4, be_val (take cbExp (drop 24 blob)),
                 be_val (drop (24 + cbExp) blob))
      else None)"

definition read_ecc_blob :: "bytes \<Rightarrow> (nat \<times> nat \<times> nat) option" where
  "read_ecc_blob blob =
     (let cbKey = ulong_at blob 4 in
      case map_of [(unat magicECDSAPubP256, 256), (unat magicECDSAPubP384, 384),
                   (unat magicECDSAPubP521, 521)] (ulong_at blob 0) of
        None \<Rightarrow> None
      | Some bits \<Rightarrow>
          if length blob = 8 + 2 * cbKey
          then Some (bits, be_val (take cbKey (drop 8 blob)), be_val (drop (8 + cbKey) blob))
          else None)"

section \<open>Properties\<close>

lemma unat_of_nat_u32: "n < 2 ^ 32 \<Longrightarrow> unat (of_nat n :: u32) = n"
  by (simp add: unat_of_nat)

text \<open>C16: an RSA public blob read by its own header gives back the bit length, the exponent and
  the modulus, as long as the lengths fit the 32-bit header fields.\<close>

theorem rsa_blob_roundtrip:
  assumes "BitLen (rsa_N pub) < 2 ^ 31"
  shows "\<bar>rsa_E pub\<bar> < 2 ^ 64 \<Longrightarrow>
     read_rsa_blob (RSAPublicBlob pub) = Some (BitLen (rsa_N pub), nat \<bar>rsa_E pub\<bar>, rsa_N pub)"
proof -
  assume e: "\<bar>rsa_E pub\<bar> < 2 ^ 64"
  let ?e = "be_bytes (nat \<bar>rsa_E pub\<bar>)" and ?m = "be_bytes (rsa_N pub)"
  have "length ?e \<le> 8" using e by (simp add: be_bytes_length nat_less_iff)
  moreover have "length ?m < 2 ^ 31" using assms by (simp add: length_be_bytes_BitLen)
  ultimately have l: "unat (of_nat (length ?e) :: u32) = length ?e"
    "unat (of_nat (length ?m) :: u32) = length ?m"
    "unat (of_nat (BitLen (rsa_N pub)) :: u32) = BitLen (rsa_N pub)"
    using assms by (simp_all add: unat_of_nat_u32)
  have z: "replicate 8 (0 :: u8) = le32 0 @ le32 0"
    by (simp add: le32_def numeral_eq_Suc)
  let ?b = "RSAPublicBlob pub"
  have u: "ulong_at ?b 0 = unat magicRSAPublic" "ulong_at ?b 4 = BitLen (rsa_N pub)"
    "ulong_at ?b 8 = length ?e" "ulong_at ?b 12 = length ?m" "ulong_at ?b 16 = 0" "ulong_at ?b 20 = 0"
    unfolding RSAPublicBlob_layout z by (simp_all add: ulong_at_def l del: length_0_conv)
  have "length ?b = 24 + length ?e + length ?m" "drop 24 ?b = ?e @ ?m"
    by (simp_all add: RSAPublicBlob_layout)
  moreover have "drop (24 + length ?e) ?b = ?m"
    using calculation(2) by (metis add.commute append_eq_conv_conj drop_drop)
  ultimately show ?thesis
    using u by (simp add: read_rsa_blob_def Let_def)
qed

text \<open>The hypotheses hold of the usual exponent with a small modulus.\<close>

theorem rsa_blob_roundtrip_witness:
  "read_rsa_blob (RSAPublicBlob \<lparr>rsa_N = 1, rsa_E = 65537\<rparr>) = Some (1, 65537, 1)"
  using rsa_blob_roundtrip[of "\<lparr>rsa_N = 1, rsa_E = 65537\<rparr>"] by (simp add: BitLen.simps)

text \<open>C17: the blob of a key on P-256, P-384 or P-521 whose coordinates fit gives back the curve
  and the coordinates, and has the length \<open>8 + 2 * cbKey\<close>; every other curve is refused.\<close>

theorem ecc_blob_roundtrip:
  assumes "ec_X pub < 256 ^ coord_size (ec_BitSize pub)" "ec_Y pub < 256 ^ coord_size (ec_BitSize pub)"
  shows "if ec_BitSize pub \<in> {256, 384, 521}
     then \<exists>blob. ECCPublicBlob pub = Inr blob \<and> length blob = 8 + 2 * coord_size (ec_BitSize pub)
        \<and> read_ecc_blob blob = Some (ec_BitSize pub, ec_X pub, ec_Y pub)
     else \<not> is_ok (ECCPublicBlob pub)"
proof (cases "ec_BitSize pub \<in> {256, 384, 521}")
  case True
  let ?k = "coord_size (ec_BitSize pub)"
  obtain magic where m: "(ec_BitSize pub, magic) \<in>
      {(256, magicECDSAPubP256), (384, magicECDSAPubP384), (521, magicECDSAPubP521)}"
    using True by auto
  define blob where "blob = le32 magic @ le32 (of_nat ?k) @ fixed_be ?k (ec_X pub) @ fixed_be ?k (ec_Y pub)"
  have k: "unat (of_nat ?k :: u32) = ?k" using True by (auto simp: coord_size_def)
  have "ECCPublicBlob pub = Inr blob"
    unfolding ECCPublicBlob_layout blob_def using m assms by (intro exI[of _ magic]) (simp add: leftPad_be)
  moreover have len: "length (fixed_be ?k (ec_X pub)) = ?k" "length (fixed_be ?k (ec_Y pub)) = ?k"
    using assms by (simp_all add: fixed_be_length)
  moreover have "ulong_at blob 0 = unat magic" "ulong_at blob 4 = ?k"
    unfolding blob_def by (simp_all add: ulong_at_def k)
  moreover have "take ?k (drop 8 blob) = fixed_be ?k (ec_X pub)"
    "drop (8 + ?k) blob = fixed_be ?k (ec_Y pub)"
    using len by (simp_all add: blob_def)
  moreover have "map_of [(unat magicECDSAPubP256, 256), (unat magicECDSAPubP384, 384),
      (unat magicECDSAPubP521, 521)] (unat magic) = Some (ec_BitSize pub)"
    using m by (auto simp: magicECDSAPubP256_def magicECDSAPubP384_def magicECDSAPubP521_def)
  moreover have "length blob = 8 + 2 * ?k" using len by (simp add: blob_def)
  ultimately have "read_ecc_blob blob = Some (ec_BitSize pub, ec_X pub, ec_Y pub)"
    by (simp add: read_ecc_blob_def Let_def del: map_of.simps)
  then show ?thesis
    using True \<open>ECCPublicBlob pub = Inr blob\<close> \<open>length blob = 8 + 2 * ?k\<close> by simp
next
  case False
  then show ?thesis by (auto simp: ECCPublicBlob_def Let_def)
qed

theorem ecc_blob_roundtrip_witness:
  "\<exists>blob. ECCPublicBlob \<lparr>ec_BitSize = 521, ec_X = 5, ec_Y = 300\<rparr> = Inr blob \<and> length blob = 140
     \<and> read_ecc_blob blob = Some (521, 5, 300)"
  using ecc_blob_roundtrip[of "\<lparr>ec_BitSize = 521, ec_X = 5, ec_Y = 300\<rparr>"]
  by (simp add: coord_size_def)

end
