(* ===== verification/Client.thy ===== *)
theory Client
  imports SigningContext Config CngPubkey
begin

text \<open>
  \<^verbatim>\<open>internal/infisical/client.go\<close>: the REST client. Every operation builds one request, hands
  it to resty and reads the response into a struct by its tags. The state it works on is the
  process: the request log, the number of clock readings, and the two process-wide cells of the
  package (the login-failure cache and the signing context).
\<close>

section \<open>Surroundings\<close>

text \<open>
  What the client is made of: base URL, TLS settings (\<^verbatim>\<open>MinVersion\<close> as its number, the root pool
  as the PEM bytes it was filled from), timeout and user agent.
\<close>

record client =
  cl_BaseURL :: string
  cl_MinVersion :: nat
  cl_InsecureSkipVerify :: bool
  cl_RootCAs :: "bytes option"
  cl_Timeout :: duration
  cl_UserAgent :: string

datatype http_method = GET | POST

record http_request =
  rq_Client :: client
  rq_Method :: http_method
  rq_Path :: string
  rq_Query :: "(string \<times> string) list"
  rq_Token :: "string option"
  rq_Body :: "json option"

record http_response =
  rs_StatusCode :: int
  rs_Body :: string

text \<open>
  The third-party HTTP library: \<open>rt_Execute log rq\<close> is what sending \<open>rq\<close> after the requests of
  \<open>log\<close> gives (an error text or a response), \<open>rt_IsError\<close> is \<^verbatim>\<open>resp.IsError()\<close>, and
  \<open>rt_Parses\<close> says for which responses it unmarshals the body into the \<^verbatim>\<open>SetResult\<close> target;
  it reports a failure of that as the error of the call.
\<close>

record resty =
  rt_Execute :: "http_request list \<Rightarrow> http_request \<Rightarrow> string + http_response"
  rt_IsError :: "http_response \<Rightarrow> bool"
  rt_Parses :: "http_response \<Rightarrow> bool"

text \<open>
  The X.509 side of the standard library: \<^verbatim>\<open>AppendCertsFromPEM\<close>, \<^verbatim>\<open>pem.Decode\<close> (the bytes of
  the first block) and \<^verbatim>\<open>ParseCertificate\<close> (the public key, or an error text).
\<close>

record x509_lib =
  x_AppendCertsFromPEM :: "bytes \<Rightarrow> bool"
  x_pemDecode :: "string \<Rightarrow> bytes option"
  x_ParseCertificate :: "bytes \<Rightarrow> string + public_key"

text \<open>The whole surroundings; \<open>e_Clock n\<close> is the n-th reading of \<^verbatim>\<open>time.Now\<close>, the last three are
  the Unicode tables of Go's \<^verbatim>\<open>unicode\<close> package from code point 128 on.\<close>

record env =
  e_OS :: os_info
  e_Clock :: "nat \<Rightarrow> instant"
  e_Resty :: resty
  e_X509 :: x509_lib
  e_Lower :: "nat \<Rightarrow> nat"
  e_Upper :: "nat \<Rightarrow> nat"
  e_Print :: "nat \<Rightarrow> bool"

record auth_failure =
  af_err :: go_error
  af_until :: instant

record world =
  w_ticks :: nat
  w_sent :: "http_request list"
  w_authFail :: "string \<rightharpoonup> auth_failure"
  w_signingCtx :: "signing_context option"

type_synonym 'a op = "world \<Rightarrow> 'a result \<times> world"

definition time_Now :: "env \<Rightarrow> world \<Rightarrow> instant \<times> world" where
  "time_Now e w = (e_Clock e (w_ticks w), w\<lparr>w_ticks := Suc (w_ticks w)\<rparr>)"

definition send :: "env \<Rightarrow> http_request \<Rightarrow> world \<Rightarrow> (string + http_response) \<times> world" where
  "send e rq w = (rt_Execute (e_Resty e) (w_sent w) rq, w\<lparr>w_sent := w_sent w @ [rq]\<rparr>)"

section \<open>NewClient\<close>

definition userAgent :: string where "userAgent = ''infisical-ksp''"
definition clientTimeout :: duration where "clientTimeout = 30 * second"
definition VersionTLS12 :: nat where "VersionTLS12 = 0x0303"

definition NewClient :: "env \<Rightarrow> config \<Rightarrow> client result" where
  "NewClient e cfg =
     (let c = \<lparr>cl_BaseURL = TrimRight (ServerURL cfg) CHR ''/'', cl_MinVersion = VersionTLS12,
               cl_InsecureSkipVerify = tls_SkipVerify (TLS cfg), cl_RootCAs = None,
               cl_Timeout = clientTimeout, cl_UserAgent = userAgent\<rparr>
      in if tls_CACertPath (TLS cfg) = [] then Inr c
         else case os_ReadFile (e_OS e) (tls_CACertPath (TLS cfg)) of
             FileNotExist \<Rightarrow>
               Inl (Wrapf ''failed to read CA cert: '' [] (LibErr ''file does not exist''))
           | FileFails t \<Rightarrow> Inl (Wrapf ''failed to read CA cert: '' [] (LibErr t))
           | FileData caCert \<Rightarrow>
               if \<not> x_AppendCertsFromPEM (e_X509 e) caCert
               then Inl (Errorf ''failed to parse CA cert from %s'' [FStr (tls_CACertPath (TLS cfg))])
               else Inr (c\<lparr>cl_RootCAs := Some caCert\<rparr>))"

section \<open>Responses\<close>

text \<open>\<^verbatim>\<open>apiErrorBody\<close> (Message, Error) and \<^verbatim>\<open>newAPIError\<close>. A body that does not parse leaves the
  struct empty; one whose types do not fit keeps what was decoded, and \<^verbatim>\<open>Code\<close> uses it.\<close>

definition dec_apiErrorBody :: "json \<Rightarrow> string \<times> string \<Rightarrow> (string \<times> string) \<times> bool" where
  "dec_apiErrorBody = dec_struct [''message'', ''error''] (\<lambda>t j (m, e).
     if t = ''message'' then (case dec_string j m of (v, ok) \<Rightarrow> ((v, e), ok))
     else (case dec_string j e of (v, ok) \<Rightarrow> ((m, v), ok)))"

definition newAPIError :: "string \<Rightarrow> http_response \<Rightarrow> api_error" where
  "newAPIError opn resp =
     (case json_Unmarshal dec_apiErrorBody (rs_Body resp) ([], []) of
        ((message, err), ok) \<Rightarrow>
          \<lparr>Operation = opn, StatusCode = rs_StatusCode resp,
           Message = (if ok \<and> message \<noteq> [] then message else if ok \<and> err \<noteq> [] then err
             else ''HTTP '' @ int_dec (rs_StatusCode resp)),
           Code = err\<rparr>)"

text \<open>The common shape of a call: send, then a transport or decoding error becomes a
  \<open>RequestErr\<close>, an error response an \<open>APIErr\<close>, and otherwise the target struct is returned.\<close>

definition do_call ::
    "env \<Rightarrow> string \<Rightarrow> (json \<Rightarrow> 'r \<Rightarrow> 'r \<times> bool) \<Rightarrow> 'r \<Rightarrow> http_request \<Rightarrow> 'r op" where
  "do_call e opn dec zero rq w =
     (case send e rq w of
        (Inl t, w') \<Rightarrow> (Inl (RequestErr opn (LibErr t)), w')
      | (Inr resp, w') \<Rightarrow>
          (case (if rt_Parses (e_Resty e) resp then json_Unmarshal dec (rs_Body resp) zero
                 else (zero, True)) of
             (out, ok) \<Rightarrow>
               (if \<not> ok then Inl (RequestErr opn (LibErr ''json''))
                else if rt_IsError (e_Resty e) resp then Inl (APIErr (newAPIError opn resp))
                else Inr out, w')))"

definition plain_request :: "client \<Rightarrow> http_method \<Rightarrow> string \<Rightarrow> http_request" where
  "plain_request c m path = \<lparr>rq_Client = c, rq_Method = m, rq_Path = path, rq_Query = [],
     rq_Token = None, rq_Body = None\<rparr>"

section \<open>Login\<close>

definition dec_loginResponse :: "json \<Rightarrow> string \<times> int \<Rightarrow> (string \<times> int) \<times> bool" where
  "dec_loginResponse = dec_struct [''accessToken'', ''expiresIn''] (\<lambda>t j (a, n).
     if t = ''accessToken'' then (case dec_string j a of (v, ok) \<Rightarrow> ((v, n), ok))
     else (case dec_int j n of (v, ok) \<Rightarrow> ((a, v), ok)))"

definition login_request :: "client \<Rightarrow> string \<Rightarrow> string \<Rightarrow> http_request" where
  "login_request c clientID clientSecret =
     (plain_request c POST ''/api/v1/auth/universal-auth/login'')
       \<lparr>rq_Body := Some (JObj [(''clientId'', JStr clientID), (''clientSecret'', JStr clientSecret)])\<rparr>"

definition Login :: "env \<Rightarrow> client \<Rightarrow> string \<Rightarrow> string \<Rightarrow> (string \<times> duration) op" where
  "Login e c clientID clientSecret w =
     (case do_call e ''login'' dec_loginResponse ([], 0) (login_request c clientID clientSecret) w of
        (Inl err, w') \<Rightarrow> (Inl err, w')
      | (Inr (accessToken, expiresIn), w') \<Rightarrow>
          (if accessToken = []
           then Inl (RequestErr ''login'' (Errorf ''login response had no access token'' []))
           else Inr (accessToken, i64 (expiresIn * second)), w'))"

section \<open>ListSigners\<close>

record signer =
  sg_ID :: string
  sg_Name :: string
  sg_Status :: string
  sg_CertificateID :: string
  sg_KeyAlgorithm :: string
  sg_ApprovalPolicyID :: "string option"

definition zero_signer :: signer where
  "zero_signer = \<lparr>sg_ID = [], sg_Name = [], sg_Status = [], sg_CertificateID = [],
     sg_KeyAlgorithm = [], sg_ApprovalPolicyID = None\<rparr>"

definition dec_signer :: "json \<Rightarrow> signer \<Rightarrow> signer \<times> bool" where
  "dec_signer = dec_struct
     [''id'', ''name'', ''status'', ''certificateId'', ''keyAlgorithm'', ''approvalPolicyId''] (\<lambda>t j r.
     if t = ''id'' then (case dec_string j (sg_ID r) of (v, ok) \<Rightarrow> (r\<lparr>sg_ID := v\<rparr>, ok))
     else if t = ''name'' then (case dec_string j (sg_Name r) of (v, ok) \<Rightarrow> (r\<lparr>sg_Name := v\<rparr>, ok))
     else if t = ''status'' then (case dec_string j (sg_Status r) of (v, ok) \<Rightarrow> (r\<lparr>sg_Status := v\<rparr>, ok))
     else if t = ''certificateId''
     then (case dec_string j (sg_CertificateID r) of (v, ok) \<Rightarrow> (r\<lparr>sg_CertificateID := v\<rparr>, ok))
     else if t = ''keyAlgorithm''
     then (case dec_string j (sg_KeyAlgorithm r) of (v, ok) \<Rightarrow> (r\<lparr>sg_KeyAlgorithm := v\<rparr>, ok))
     else if j = JNull then (r\<lparr>sg_ApprovalPolicyID := None\<rparr>, True)
     else (case dec_string j (case sg_ApprovalPolicyID r of None \<Rightarrow> [] | Some p \<Rightarrow> p) of
             (v, ok) \<Rightarrow> (r\<lparr>sg_ApprovalPolicyID := Some v\<rparr>, ok)))"

text \<open>A slice of signers: \<^verbatim>\<open>null\<close> makes it \<^verbatim>\<open>nil\<close>, an array replaces it, decoding over the elements
  that are already there.\<close>

fun dec_signers :: "json list \<Rightarrow> signer list \<Rightarrow> signer list \<times> bool" where
  "dec_signers [] old = ([], True)"
| "dec_signers (j # js) old =
     (case dec_signer j (case old of [] \<Rightarrow> zero_signer | s # _ \<Rightarrow> s) of
        (s, ok) \<Rightarrow> (case dec_signers js (tl old) of (ss, oks) \<Rightarrow> (s # ss, ok \<and> oks)))"

definition dec_listSignersResponse ::
    "json \<Rightarrow> signer list option \<Rightarrow> signer list option \<times> bool" where
  "dec_listSignersResponse = dec_struct [''signers''] (\<lambda>t j r.
     case j of
       JNull \<Rightarrow> (None, True)
     | JArr js \<Rightarrow> (case dec_signers js (case r of None \<Rightarrow> [] | Some ss \<Rightarrow> ss) of (ss, ok) \<Rightarrow> (Some ss, ok))
     | _ \<Rightarrow> (r, False))"

definition list_request :: "client \<Rightarrow> string \<Rightarrow> http_request" where
  "list_request c token = (plain_request c GET ''/api/v1/cert-manager/signers'')
     \<lparr>rq_Query := [(''limit'', ''100'')], rq_Token := Some token\<rparr>"

definition ListSigners :: "env \<Rightarrow> client \<Rightarrow> string \<Rightarrow> signer list option op" where
  "ListSigners e c token w =
     do_call e ''list-signers'' dec_listSignersResponse None (list_request c token) w"

section \<open>GetCertificate\<close>

definition signer_path :: "string \<Rightarrow> string \<Rightarrow> string" where
  "signer_path signerID leaf = ''/api/v1/cert-manager/signers/'' @ PathEscape signerID @ ''/'' @ leaf"

text \<open>\<^verbatim>\<open>signerCertResponse\<close>: the certificate and the signer's name, which is not used.\<close>

definition dec_signerCertResponse :: "json \<Rightarrow> string \<times> string \<Rightarrow> (string \<times> string) \<times> bool" where
  "dec_signerCertResponse = dec_struct [''certificatePem'', ''signerName''] (\<lambda>t j (p, n).
     if t = ''certificatePem'' then (case dec_string j p of (v, ok) \<Rightarrow> ((v, n), ok))
     else (case dec_string j n of (v, ok) \<Rightarrow> ((p, v), ok)))"

definition cert_request :: "client \<Rightarrow> string \<Rightarrow> string \<Rightarrow> http_request" where
  "cert_request c token signerID =
     (plain_request c GET (signer_path signerID ''certificate''))\<lparr>rq_Token := Some token\<rparr>"

definition GetCertificate :: "env \<Rightarrow> client \<Rightarrow> string \<Rightarrow> string \<Rightarrow> string op" where
  "GetCertificate e c token signerID w =
     (case do_call e ''get-certificate'' dec_signerCertResponse ([], [])
             (cert_request c token signerID) w of
        (Inl err, w') \<Rightarrow> (Inl err, w')
      | (Inr (certificatePem, _), w') \<Rightarrow> (Inr certificatePem, w'))"

section \<open>Sign\<close>

record sign_params =
  sp_DataB64 :: string
  sp_SigningAlgorithm :: string
  sp_IsDigest :: bool
  sp_ClientMetadata :: client_metadata

definition str_members :: "(string \<times> string) list \<Rightarrow> json" where
  "str_members ms = JObj (map (\<lambda>(k, v). (k, JStr v)) ms)"

definition wire_sign :: "sign_params \<Rightarrow> json" where
  "wire_sign p = JObj
     [(''data'', JStr (sp_DataB64 p)), (''signingAlgorithm'', JStr (sp_SigningAlgorithm p)),
      (''isDigest'', JBool (sp_IsDigest p)),
      (''clientMetadata'', str_members (wire_metadata (sp_ClientMetadata p)))]"

definition dec_signResponse :: "json \<Rightarrow> string \<Rightarrow> string \<times> bool" where
  "dec_signResponse = dec_struct [''signature''] (\<lambda>t j r. dec_string j r)"

definition sign_request :: "client \<Rightarrow> string \<Rightarrow> string \<Rightarrow> sign_params \<Rightarrow> http_request" where
  "sign_request c token signerID p =
     (plain_request c POST (signer_path signerID ''sign''))
       \<lparr>rq_Token := Some token, rq_Body := Some (wire_sign p)\<rparr>"

definition Client_Sign :: "env \<Rightarrow> client \<Rightarrow> string \<Rightarrow> string \<Rightarrow> sign_params \<Rightarrow> string op" where
  "Client_Sign e c token signerID p w =
     do_call e ''sign'' dec_signResponse [] (sign_request c token signerID p) w"

section \<open>RequestApproval\<close>

record approval_params =
  ap_Justification :: string
  ap_RequestedSignings :: int
  ap_RequestedWindowStart :: string
  ap_RequestedWindowEnd :: string
  ap_Scope :: signing_scope

definition wire_approval :: "approval_params \<Rightarrow> json" where
  "wire_approval p = JObj
     ([(''justification'', JStr (ap_Justification p))]
      @ (if ap_RequestedSignings p = 0 then []
         else [(''requestedSignings'', JNum (int_dec (ap_RequestedSignings p)))])
      @ map (\<lambda>(k, v). (k, JStr v)) (omit_empty
          [(''requestedWindowStart'', ap_RequestedWindowStart p),
           (''requestedWindowEnd'', ap_RequestedWindowEnd p)])
      @ [(''scope'', str_members (wire_scope (ap_Scope p)))])"

definition dec_approvalRequestResponse :: "json \<Rightarrow> string \<times> string \<Rightarrow> (string \<times> string) \<times> bool" where
  "dec_approvalRequestResponse = dec_struct [''id'', ''status''] (\<lambda>t j (i, s).
     if t = ''id'' then (case dec_string j i of (v, ok) \<Rightarrow> ((v, s), ok))
     else (case dec_string j s of (v, ok) \<Rightarrow> ((i, v), ok)))"

definition approval_request :: "client \<Rightarrow> string \<Rightarrow> string \<Rightarrow> approval_params \<Rightarrow> http_request" where
  "approval_request c token signerID p =
     (plain_request c POST (signer_path signerID ''requests''))
       \<lparr>rq_Token := Some token, rq_Body := Some (wire_approval p)\<rparr>"

definition RequestApproval ::
    "env \<Rightarrow> client \<Rightarrow> string \<Rightarrow> string \<Rightarrow> approval_params \<Rightarrow> (string \<times> string) op" where
  "RequestApproval e c token signerID p w =
     do_call e ''request-approval'' dec_approvalRequestResponse ([], [])
       (approval_request c token signerID p) w"

section \<open>What a call leaves behind\<close>

text \<open>Every call sends exactly its request and changes nothing else of the process.\<close>

definition logged :: "http_request list \<Rightarrow> world \<Rightarrow> world" where
  "logged rqs w = w\<lparr>w_sent := w_sent w @ rqs\<rparr>"

lemma logged_simps [simp]:
  "w_ticks (logged rqs w) = w_ticks w" "w_sent (logged rqs w) = w_sent w @ rqs"
  "w_authFail (logged rqs w) = w_authFail w" "w_signingCtx (logged rqs w) = w_signingCtx w"
  "logged [] w = w" "logged b (logged a w) = logged (a @ b) w"
  by (simp_all add: logged_def)

lemma snd_do_call [frame]: "snd (do_call e opn dec zero rq w) = logged [rq] w"
  by (simp add: do_call_def send_def logged_def split: sum.split prod.split)

lemma snd_Login [frame]: "snd (Login e c i s w) = logged [login_request c i s] w"
  using snd_do_call[of e "''login''" dec_loginResponse "([], 0)" "login_request c i s" w]
  by (auto simp: Login_def split: sum.split prod.split)

lemma snd_ListSigners [frame]: "snd (ListSigners e c t w) = logged [list_request c t] w"
  by (simp add: ListSigners_def frame)

lemma snd_GetCertificate [frame]: "snd (GetCertificate e c t i w) = logged [cert_request c t i] w"
  using snd_do_call[of e "''get-certificate''" dec_signerCertResponse "([], [])" "cert_request c t i" w]
  by (auto simp: GetCertificate_def split: sum.split prod.split)

lemma snd_Client_Sign [frame]: "snd (Client_Sign e c t i p w) = logged [sign_request c t i p] w"
  by (simp add: Client_Sign_def frame)

lemma snd_RequestApproval [frame]:
  "snd (RequestApproval e c t i p w) = logged [approval_request c t i p] w"
  by (simp add: RequestApproval_def frame)

section \<open>How a call fails\<close>

text \<open>The three ways a call ends, by the response.\<close>

lemma do_call_cases:
  "fst (do_call e opn dec zero rq w) =
     (case rt_Execute (e_Resty e) (w_sent w) rq of
        Inl t \<Rightarrow> Inl (RequestErr opn (LibErr t))
      | Inr resp \<Rightarrow>
          (case (if rt_Parses (e_Resty e) resp then json_Unmarshal dec (rs_Body resp) zero
                 else (zero, True)) of
             (out, ok) \<Rightarrow>
               if \<not> ok then Inl (RequestErr opn (LibErr ''json''))
               else if rt_IsError (e_Resty e) resp then Inl (APIErr (newAPIError opn resp))
               else Inr out))"
  by (simp add: do_call_def send_def split: sum.split prod.split)

text \<open>An error of a call shows an API error exactly when the server answered with one.\<close>

lemma do_call_As_api:
  assumes "fst (do_call e opn dec zero rq w) = Inl err" "errors_As sel_api err = Some a"
  shows "\<exists>resp. rt_Execute (e_Resty e) (w_sent w) rq = Inr resp \<and> rt_IsError (e_Resty e) resp
       \<and> a = newAPIError opn resp \<and> err = APIErr a"
  using assms unfolding do_call_cases by (auto simp: chain split: sum.splits if_splits prod.splits)

lemma do_call_not_BadHandle:
  "fst (do_call e opn dec zero rq w) = Inl err \<Longrightarrow> \<not> errors_Is_BadHandle err"
  unfolding do_call_cases by (auto simp: chain split: sum.splits if_splits prod.splits)

text \<open>Members of an error body.\<close>

lemma newAPIError_simps [simp]:
  "Operation (newAPIError opn resp) = opn" "StatusCode (newAPIError opn resp) = rs_StatusCode resp"
  by (simp_all add: newAPIError_def split: prod.split)

lemma newAPIError_unparsed:
  "json_parse (rs_Body resp) = None \<Longrightarrow>
   newAPIError opn resp = \<lparr>Operation = opn, StatusCode = rs_StatusCode resp,
     Message = ''HTTP '' @ int_dec (rs_StatusCode resp), Code = []\<rparr>"
  by (simp add: newAPIError_def json_Unmarshal_def)

section \<open>Properties\<close>

definition slashes :: "string \<Rightarrow> nat" where
  "slashes s = length (filter (\<lambda>c. c = CHR ''/'') s)"

lemma PathEscape_no_slash: "slashes (PathEscape i) = 0 \<and> CHR ''?'' \<notin> set (PathEscape i)
    \<and> CHR ''#'' \<notin> set (PathEscape i)"
  using PathEscape_safe[of _ i] by (auto simp: slashes_def filter_empty_conv)

lemma PathEscape_inj: "PathEscape i = PathEscape j \<longleftrightarrow> i = j"
  using path_escape.enc_inject[of i j] by simp

text \<open>C37: a sign request goes to the signer it names: whatever characters the identifier has, the
  path has the same number of segments and no query or fragment, and different identifiers give
  different paths.\<close>

theorem sign_path_names_signer:
  "(rq_Path (sign_request c t i p) = rq_Path (sign_request c t j q) \<longleftrightarrow> i = j)
   \<and> slashes (rq_Path (sign_request c t i p)) = 6
   \<and> CHR ''?'' \<notin> set (rq_Path (sign_request c t i p)) \<and> CHR ''#'' \<notin> set (rq_Path (sign_request c t i p))"
  using PathEscape_no_slash[of i]
  by (auto simp: sign_request_def plain_request_def signer_path_def slashes_def PathEscape_inj)


end
