(* ===== verification/Session.thy ===== *)
theory Session
  imports Client
begin

text \<open>
  \<^verbatim>\<open>internal/infisical/session.go\<close>: the session behind an open provider. It owns the access
  token and the caches, throttles failed logins through the process-wide cache, and opens an
  approval request when the server denies a signature for want of one.
\<close>

section \<open>State\<close>

definition tokenSafetyMargin :: duration where "tokenSafetyMargin = 30 * second"
definition authFailureCacheTTL :: duration where "authFailureCacheTTL = 10 * second"

record pub_key_entry =
  pk_key :: public_key
  pk_expiresAt :: instant

record session =
  s_cfg :: config
  s_client :: client
  s_token :: string
  s_tokenExpiry :: instant
  s_signers :: "signer list option"
  s_signersExpiry :: instant
  s_pubKeys :: "string \<rightharpoonup> pub_key_entry"

type_synonym 'a sop = "session \<Rightarrow> world \<Rightarrow> 'a result \<times> session \<times> world"

section \<open>The login-failure cache\<close>

definition cachedAuthFailure :: "env \<Rightarrow> string \<Rightarrow> world \<Rightarrow> go_error option \<times> world" where
  "cachedAuthFailure e key w =
     (case w_authFail w key of
        None \<Rightarrow> (None, w)
      | Some f \<Rightarrow>
          (case time_Now e w of (now, w1) \<Rightarrow>
             if now < af_until f then (Some (af_err f), w1)
             else (None, w1\<lparr>w_authFail := (w_authFail w1)(key := None)\<rparr>)))"

definition recordAuthFailure :: "env \<Rightarrow> string \<Rightarrow> go_error \<Rightarrow> world \<Rightarrow> world" where
  "recordAuthFailure e key err w =
     (case time_Now e w of (now, w1) \<Rightarrow>
        w1\<lparr>w_authFail := (w_authFail w1)(key \<mapsto> \<lparr>af_err = err, af_until = now + authFailureCacheTTL\<rparr>)\<rparr>)"

definition clearAuthFailure :: "string \<Rightarrow> world \<Rightarrow> world" where
  "clearAuthFailure key w = w\<lparr>w_authFail := (w_authFail w)(key := None)\<rparr>"

section \<open>NewSession\<close>

text \<open>The zero \<^verbatim>\<open>time.Time\<close> of a new session lies before every reading; it is never compared,
  because the token is empty and the signers are \<^verbatim>\<open>nil\<close>.\<close>

definition NewSession :: "env \<Rightarrow> config \<Rightarrow> session result" where
  "NewSession e cfg = (case NewClient e cfg of
       Inl err \<Rightarrow> Inl err
     | Inr c \<Rightarrow> Inr \<lparr>s_cfg = cfg, s_client = c, s_token = [], s_tokenExpiry = 0, s_signers = None,
                  s_signersExpiry = 0, s_pubKeys = Map.empty\<rparr>)"

section \<open>Tokens\<close>

definition cache_ttl :: "duration \<Rightarrow> int \<Rightarrow> duration" where
  "cache_ttl reported ceilingSeconds =
     (let ceiling = i64 (ceilingSeconds * second);
          ttl = (if 0 < ceiling \<and> ceiling < reported then ceiling else reported);
          ttl = i64 (ttl - tokenSafetyMargin)
      in if ttl < tokenSafetyMargin then tokenSafetyMargin else ttl)"

definition cacheExpiry :: "env \<Rightarrow> duration \<Rightarrow> int \<Rightarrow> world \<Rightarrow> instant \<times> world" where
  "cacheExpiry e reported ceilingSeconds w =
     (case time_Now e w of (now, w1) \<Rightarrow> (now + cache_ttl reported ceilingSeconds, w1))"

definition auth_key :: "config \<Rightarrow> string" where
  "auth_key cfg = auth_ClientID (Auth cfg) @ ''@'' @ ServerURL cfg"

definition no_credentials :: go_error where
  "no_credentials = Errorf ''no Universal Auth credentials: set %s and %s''
     [FStr EnvClientID, FStr EnvClientSecret]"

text \<open>The second half of \<open>ensureToken\<close>: no usable token is held.\<close>

definition acquire_token :: "env \<Rightarrow> string sop" where
  "acquire_token e s w =
     (let cfg = s_cfg s; key = auth_key cfg in
      case cachedAuthFailure e key w of
        (Some err, w1) \<Rightarrow> (Inl err, s, w1)
      | (None, w1) \<Rightarrow>
          if auth_ClientID (Auth cfg) = [] \<or> auth_ClientSecret (Auth cfg) = []
          then (Inl no_credentials, s, recordAuthFailure e key no_credentials w1)
          else (case Login e (s_client s) (auth_ClientID (Auth cfg)) (auth_ClientSecret (Auth cfg)) w1 of
              (Inl err, w2) \<Rightarrow> (Inl err, s, recordAuthFailure e key err w2)
            | (Inr (token, ttl), w2) \<Rightarrow>
                (case cacheExpiry e ttl (TokenTTLSeconds (Cache cfg)) w2 of (expiry, w3) \<Rightarrow>
                   (Inr token, s\<lparr>s_token := token, s_tokenExpiry := expiry\<rparr>,
                    clearAuthFailure key w3))))"

definition ensureToken :: "env \<Rightarrow> string sop" where
  "ensureToken e s w =
     (let cfg = s_cfg s in
      if auth_Method (Auth cfg) = AuthMethodToken
      then (if auth_Token (Auth cfg) = []
            then Inl (Errorf ''token auth selected but no token: set %s'' [FStr EnvToken])
            else Inr (auth_Token (Auth cfg)), s, w)
      else if s_token s \<noteq> []
      then (case time_Now e w of (now, w1) \<Rightarrow>
              if now < s_tokenExpiry s then (Inr (s_token s), s, w1) else acquire_token e s w1)
      else acquire_token e s w)"

section \<open>Signers and keys\<close>

definition fetch_signers :: "env \<Rightarrow> signer list option sop" where
  "fetch_signers e s w =
     (case ensureToken e s w of
        (Inl err, s1, w1) \<Rightarrow> (Inl err, s1, w1)
      | (Inr token, s1, w1) \<Rightarrow>
          (case ListSigners e (s_client s1) token w1 of
             (Inl err, w2) \<Rightarrow> (Inl err, s1, w2)
           | (Inr signers, w2) \<Rightarrow>
               (case time_Now e w2 of (now, w3) \<Rightarrow>
                  (Inr signers,
                   s1\<lparr>s_signers := signers,
                      s_signersExpiry := now + i64 (SignerTTLSeconds (Cache (s_cfg s1)) * second)\<rparr>,
                   w3))))"

definition Signers :: "env \<Rightarrow> signer list option sop" where
  "Signers e s w =
     (case s_signers s of
        None \<Rightarrow> fetch_signers e s w
      | Some sgs \<Rightarrow>
          (case time_Now e w of (now, w1) \<Rightarrow>
             if now < s_signersExpiry s then (Inr (Some sgs), s, w1) else fetch_signers e s w1))"

definition matches :: "string \<Rightarrow> signer \<Rightarrow> bool" where
  "matches nameOrID sg = (sg_Name sg = nameOrID \<or> sg_ID sg = nameOrID)"

definition no_signer :: "string \<Rightarrow> go_error" where
  "no_signer nameOrID = Errorf ''no signer named %q is available to this identity'' [FQuoted nameOrID]"

definition pick_signer :: "string \<Rightarrow> signer list \<Rightarrow> signer result" where
  "pick_signer nameOrID sgs = (case find (matches nameOrID) sgs of
       Some sg \<Rightarrow> Inr sg
     | None \<Rightarrow> Inl (no_signer nameOrID))"

definition FindSigner :: "env \<Rightarrow> string \<Rightarrow> signer sop" where
  "FindSigner e nameOrID s w =
     (case Signers e s w of
        (Inl err, s1, w1) \<Rightarrow> (Inl err, s1, w1)
      | (Inr sgs, s1, w1) \<Rightarrow>
          (pick_signer nameOrID (case sgs of None \<Rightarrow> [] | Some l \<Rightarrow> l), s1, w1))"

definition publicKeyFromCertPEM :: "env \<Rightarrow> string \<Rightarrow> public_key result" where
  "publicKeyFromCertPEM e certPEM =
     (case x_pemDecode (e_X509 e) (TrimSpace certPEM) of
        None \<Rightarrow> Inl (Errorf ''certificate is not valid PEM'' [])
      | Some der \<Rightarrow>
          (case x_ParseCertificate (e_X509 e) der of
             Inl t \<Rightarrow> Inl (Wrapf ''failed to parse certificate: '' [] (LibErr t))
           | Inr key \<Rightarrow> Inr key))"

definition fetch_key :: "env \<Rightarrow> string \<Rightarrow> public_key sop" where
  "fetch_key e signerID s w =
     (case ensureToken e s w of
        (Inl err, s1, w1) \<Rightarrow> (Inl err, s1, w1)
      | (Inr token, s1, w1) \<Rightarrow>
          (case GetCertificate e (s_client s1) token signerID w1 of
             (Inl err, w2) \<Rightarrow> (Inl err, s1, w2)
           | (Inr certPEM, w2) \<Rightarrow>
               (case publicKeyFromCertPEM e certPEM of
                  Inl err \<Rightarrow> (Inl err, s1, w2)
                | Inr key \<Rightarrow>
                    (case time_Now e w2 of (now, w3) \<Rightarrow>
                       (Inr key,
                        s1\<lparr>s_pubKeys := (s_pubKeys s1)(signerID \<mapsto>
                            \<lparr>pk_key = key,
                             pk_expiresAt = now + i64 (CertTTLSeconds (Cache (s_cfg s1)) * second)\<rparr>)\<rparr>,
                        w3)))))"

definition PublicKey :: "env \<Rightarrow> string \<Rightarrow> public_key sop" where
  "PublicKey e signerID s w =
     (case s_pubKeys s signerID of
        None \<Rightarrow> fetch_key e signerID s w
      | Some entry \<Rightarrow>
          (case time_Now e w of (now, w1) \<Rightarrow>
             if now < pk_expiresAt entry then (Inr (pk_key entry), s, w1)
             else fetch_key e signerID s w1))"

section \<open>Approval requests\<close>

definition approvalJustification :: "string \<Rightarrow> string" where
  "approvalJustification hostname =
     (if hostname = [] then ''Auto-requested by the Infisical KSP''
      else ''Auto-requested by the Infisical KSP on '' @ hostname)"

definition approval_configured :: "config \<Rightarrow> bool" where
  "approval_configured cfg = (\<not> (SigningCount (Approval cfg) = 0 \<and> SigningDuration (Approval cfg) = []))"

text \<open>The request parameters; \<open>now\<close> is read only when a duration is set.\<close>

definition approval_base :: "approval_config \<Rightarrow> signing_context \<Rightarrow> string \<Rightarrow> approval_params" where
  "approval_base a signCtx dataHash =
     \<lparr>ap_Justification = approvalJustification (sc_Hostname signCtx),
      ap_RequestedSignings = (if 0 < SigningCount a then SigningCount a else 0),
      ap_RequestedWindowStart = [], ap_RequestedWindowEnd = [],
      ap_Scope = RequestScope signCtx dataHash\<rparr>"

definition approval_params_of ::
    "env \<Rightarrow> config \<Rightarrow> signing_context \<Rightarrow> string \<Rightarrow> approval_params op" where
  "approval_params_of e cfg signCtx dataHash w =
     (let a = Approval cfg; params = approval_base a signCtx dataHash in
      if SigningDuration a = [] then (Inr params, w)
      else case parseApprovalDuration (SigningDuration a) of
          Inl parseErr \<Rightarrow>
            (Inl (Wrapf ''invalid approval.signing_duration %q: '' [FQuoted (SigningDuration a)] parseErr), w)
        | Inr window \<Rightarrow>
            (case time_Now e w of (now, w1) \<Rightarrow>
               (Inr (params\<lparr>ap_RequestedWindowStart := FormatRFC3339 now,
                            ap_RequestedWindowEnd := FormatRFC3339 (now + window)\<rparr>), w1)))"

definition requestApprovalIfConfigured ::
    "env \<Rightarrow> session \<Rightarrow> string \<Rightarrow> string \<Rightarrow> signing_context \<Rightarrow> string \<Rightarrow> (string \<times> string) op" where
  "requestApprovalIfConfigured e s token signerID signCtx dataHash w =
     (if \<not> approval_configured (s_cfg s) then (Inr ([], []), w)
      else case approval_params_of e (s_cfg s) signCtx dataHash w of
          (Inl err, w1) \<Rightarrow> (Inl err, w1)
        | (Inr params, w1) \<Rightarrow> RequestApproval e (s_client s) token signerID params w1)"

definition approval_required :: "go_error \<Rightarrow> bool" where
  "approval_required err =
     (case errors_As sel_api err of None \<Rightarrow> False | Some apiErr \<Rightarrow> IsApprovalRequired apiErr)"

definition payload_hash :: "bytes \<Rightarrow> string" where
  "payload_hash digest = hex_encode (Sum256 digest)"

definition autoRequestOnDenial ::
    "env \<Rightarrow> session \<Rightarrow> string \<Rightarrow> string \<Rightarrow> signing_context \<Rightarrow> bytes \<Rightarrow> go_error \<Rightarrow> world
     \<Rightarrow> go_error \<times> world" where
  "autoRequestOnDenial e s token signerID signCtx digest signErr w =
     (if \<not> approval_required signErr then (signErr, w)
      else case requestApprovalIfConfigured e s token signerID signCtx (payload_hash digest) w of
          (Inl err, w1) \<Rightarrow> (ApprovalRequestFailed signErr err, w1)
        | (Inr (reqID, status), w1) \<Rightarrow>
            (if reqID \<noteq> [] then ApprovalRequestOpened signErr reqID status else signErr, w1))"

section \<open>Sign\<close>

definition sign_params_of :: "signing_context \<Rightarrow> string \<Rightarrow> bytes \<Rightarrow> sign_params" where
  "sign_params_of signCtx algorithm digest =
     \<lparr>sp_DataB64 = b64_encode digest, sp_SigningAlgorithm = algorithm, sp_IsDigest = True,
      sp_ClientMetadata = ClientMetadata signCtx\<rparr>"

text \<open>\<open>CurrentSigningContext()\<close> on the process state.\<close>

definition current_ctx :: "env \<Rightarrow> world \<Rightarrow> signing_context \<times> world" where
  "current_ctx e w =
     (case CurrentSigningContext (e_Lower e) (e_OS e) (w_signingCtx w) of
        (c, cell) \<Rightarrow> (c, w\<lparr>w_signingCtx := cell\<rparr>))"

definition Session_Sign :: "env \<Rightarrow> string \<Rightarrow> string \<Rightarrow> bytes \<Rightarrow> bytes sop" where
  "Session_Sign e signerID algorithm digest s w =
     (case ensureToken e s w of
        (Inl err, s1, w1) \<Rightarrow> (Inl err, s1, w1)
      | (Inr token, s1, w1) \<Rightarrow>
          (case current_ctx e w1 of (signCtx, w2) \<Rightarrow>
            (case Client_Sign e (s_client s1) token signerID (sign_params_of signCtx algorithm digest) w2 of
               (Inl err, w3) \<Rightarrow>
                 (case autoRequestOnDenial e s1 token signerID signCtx digest err w3 of
                    (err', w4) \<Rightarrow> (Inl err', s1, w4))
             | (Inr sigB64, w3) \<Rightarrow>
                 (case b64_decode sigB64 of
                    None \<Rightarrow> (Inl (LibErr ''illegal base64 data''), s1, w3)
                  | Some sig \<Rightarrow> (Inr sig, s1, w3)))))"

section \<open>Frames\<close>

abbreviation s_after :: "'a result \<times> session \<times> world \<Rightarrow> session" where
  "s_after r \<equiv> fst (snd r)"

abbreviation w_after :: "'a result \<times> session \<times> world \<Rightarrow> world" where
  "w_after r \<equiv> snd (snd r)"

definition tick :: "world \<Rightarrow> world" where
  "tick w = w\<lparr>w_ticks := Suc (w_ticks w)\<rparr>"

lemma tick_simps [simp]:
  "w_ticks (tick w) = Suc (w_ticks w)" "w_sent (tick w) = w_sent w"
  "w_authFail (tick w) = w_authFail w" "w_signingCtx (tick w) = w_signingCtx w"
  by (simp_all add: tick_def)

lemma time_Now_tick: "time_Now e w = (e_Clock e (w_ticks w), tick w)"
  by (simp add: time_Now_def tick_def)

definition login_rq :: "session \<Rightarrow> http_request" where
  "login_rq s = login_request (s_client s) (auth_ClientID (Auth (s_cfg s)))
     (auth_ClientSecret (Auth (s_cfg s)))"

lemma case_snd: "(case p of (a, b) \<Rightarrow> f a b) = f (fst p) (snd p)"
  by (simp add: case_prod_beta)

text \<open>A call's result and the world it leaves, once its world is known.\<close>

lemma call_pair: "snd p = w' \<Longrightarrow> p = (fst p, w')"
  by (cases p) simp

lemmas call_pairs =
  call_pair[OF snd_Login] call_pair[OF snd_ListSigners] call_pair[OF snd_GetCertificate]
  call_pair[OF snd_Client_Sign] call_pair[OF snd_RequestApproval]

lemma cachedAuthFailure_frame [frame]:
  "w_sent (snd (cachedAuthFailure e key w)) = w_sent w"
  "w_signingCtx (snd (cachedAuthFailure e key w)) = w_signingCtx w"
  "w_ticks w \<le> w_ticks (snd (cachedAuthFailure e key w))"
  by (simp_all add: cachedAuthFailure_def time_Now_tick split: option.split)

lemma recordAuthFailure_frame [frame]:
  "w_sent (recordAuthFailure e key err w) = w_sent w"
  "w_signingCtx (recordAuthFailure e key err w) = w_signingCtx w"
  "w_ticks (recordAuthFailure e key err w) = Suc (w_ticks w)"
  by (simp_all add: recordAuthFailure_def time_Now_tick)

lemma clearAuthFailure_frame [frame]:
  "w_sent (clearAuthFailure key w) = w_sent w"
  "w_signingCtx (clearAuthFailure key w) = w_signingCtx w"
  "w_ticks (clearAuthFailure key w) = w_ticks w"
  by (simp_all add: clearAuthFailure_def)

text \<open>\<open>acquire_token\<close> with its calls evaluated.\<close>

lemma acquire_token_unfold:
  "acquire_token e s w =
     (let key = auth_key (s_cfg s);
          w1 = snd (cachedAuthFailure e key w);
          w2 = logged [login_rq s] w1 in
      case fst (cachedAuthFailure e key w) of
        Some err \<Rightarrow> (Inl err, s, w1)
      | None \<Rightarrow>
          if auth_ClientID (Auth (s_cfg s)) = [] \<or> auth_ClientSecret (Auth (s_cfg s)) = []
          then (Inl no_credentials, s, recordAuthFailure e key no_credentials w1)
          else (case fst (Login e (s_client s) (auth_ClientID (Auth (s_cfg s)))
                      (auth_ClientSecret (Auth (s_cfg s))) w1) of
              Inl err \<Rightarrow> (Inl err, s, recordAuthFailure e key err w2)
            | Inr (token, ttl) \<Rightarrow>
                (Inr token,
                 s\<lparr>s_token := token,
                   s_tokenExpiry := e_Clock e (w_ticks w1)
                     + cache_ttl ttl (TokenTTLSeconds (Cache (s_cfg s)))\<rparr>,
                 clearAuthFailure key (tick w2))))"
  by (subst acquire_token_def, subst call_pairs(1))
    (auto simp: Let_def cacheExpiry_def time_Now_tick login_rq_def
      split: option.split sum.split prod.split)

lemma acquire_token_sent:
  "w_sent (w_after (acquire_token e s w)) = w_sent w
   \<or> w_sent (w_after (acquire_token e s w)) = w_sent w @ [login_rq s]"
  by (auto simp: acquire_token_unfold Let_def frame split: option.split sum.split prod.split)

lemma acquire_token_frame [frame]:
  "s_cfg (s_after (acquire_token e s w)) = s_cfg s"
  "s_client (s_after (acquire_token e s w)) = s_client s"
  "s_signers (s_after (acquire_token e s w)) = s_signers s"
  "s_signersExpiry (s_after (acquire_token e s w)) = s_signersExpiry s"
  "s_pubKeys (s_after (acquire_token e s w)) = s_pubKeys s"
  "w_signingCtx (w_after (acquire_token e s w)) = w_signingCtx w"
  by (simp_all add: acquire_token_unfold Let_def frame split: option.split sum.split prod.split)

lemma ensureToken_unfold:
  "ensureToken e s w =
     (if auth_Method (Auth (s_cfg s)) = AuthMethodToken
      then (if auth_Token (Auth (s_cfg s)) = []
            then Inl (Errorf ''token auth selected but no token: set %s'' [FStr EnvToken])
            else Inr (auth_Token (Auth (s_cfg s))), s, w)
      else if s_token s = [] then acquire_token e s w
      else if e_Clock e (w_ticks w) < s_tokenExpiry s then (Inr (s_token s), s, tick w)
      else acquire_token e s (tick w))"
  by (simp add: ensureToken_def Let_def time_Now_tick)

lemma ensureToken_sent:
  "w_sent (w_after (ensureToken e s w)) = w_sent w
   \<or> w_sent (w_after (ensureToken e s w)) = w_sent w @ [login_rq s]"
  using acquire_token_sent[of e s w] acquire_token_sent[of e s "tick w"]
  by (simp add: ensureToken_unfold)

lemma ensureToken_frame [frame]:
  "s_cfg (s_after (ensureToken e s w)) = s_cfg s"
  "s_client (s_after (ensureToken e s w)) = s_client s"
  "s_signers (s_after (ensureToken e s w)) = s_signers s"
  "s_signersExpiry (s_after (ensureToken e s w)) = s_signersExpiry s"
  "s_pubKeys (s_after (ensureToken e s w)) = s_pubKeys s"
  "w_signingCtx (w_after (ensureToken e s w)) = w_signingCtx w"
  by (simp_all add: ensureToken_unfold frame)

text \<open>The operations above \<open>ensureToken\<close>, with their calls evaluated in the same way.\<close>

lemma ensureToken_pair:
  "ensureToken e s w = (fst (ensureToken e s w), s_after (ensureToken e s w), w_after (ensureToken e s w))"
  by simp

lemma fetch_signers_unfold:
  "fetch_signers e s w =
     (let t = ensureToken e s w; s1 = s_after t; w1 = w_after t in
      case fst t of
        Inl err \<Rightarrow> (Inl err, s1, w1)
      | Inr token \<Rightarrow>
          let w2 = logged [list_request (s_client s) token] w1 in
          case fst (ListSigners e (s_client s) token w1) of
            Inl err \<Rightarrow> (Inl err, s1, w2)
          | Inr signers \<Rightarrow>
              (Inr signers,
               s1\<lparr>s_signers := signers,
                  s_signersExpiry := e_Clock e (w_ticks w1)
                    + i64 (SignerTTLSeconds (Cache (s_cfg s)) * second)\<rparr>,
               tick w2))"
  by (subst fetch_signers_def, subst call_pairs(2))
    (simp add: Let_def time_Now_tick frame case_prod_beta split: sum.split)

lemma fetch_key_unfold:
  "fetch_key e signerID s w =
     (let t = ensureToken e s w; s1 = s_after t; w1 = w_after t in
      case fst t of
        Inl err \<Rightarrow> (Inl err, s1, w1)
      | Inr token \<Rightarrow>
          let w2 = logged [cert_request (s_client s) token signerID] w1 in
          case fst (GetCertificate e (s_client s) token signerID w1) of
            Inl err \<Rightarrow> (Inl err, s1, w2)
          | Inr certPEM \<Rightarrow>
              (case publicKeyFromCertPEM e certPEM of
                 Inl err \<Rightarrow> (Inl err, s1, w2)
               | Inr key \<Rightarrow>
                   (Inr key,
                    s1\<lparr>s_pubKeys := (s_pubKeys s)(signerID \<mapsto>
                        \<lparr>pk_key = key, pk_expiresAt = e_Clock e (w_ticks w1)
                            + i64 (CertTTLSeconds (Cache (s_cfg s)) * second)\<rparr>)\<rparr>,
                    tick w2)))"
  by (subst fetch_key_def, subst call_pairs(3))
    (simp add: Let_def time_Now_tick frame case_prod_beta split: sum.split)

lemma Signers_unfold:
  "Signers e s w =
     (case s_signers s of
        None \<Rightarrow> fetch_signers e s w
      | Some sgs \<Rightarrow> if e_Clock e (w_ticks w) < s_signersExpiry s then (Inr (Some sgs), s, tick w)
          else fetch_signers e s (tick w))"
  by (simp add: Signers_def time_Now_tick split: option.split)

lemma PublicKey_unfold:
  "PublicKey e signerID s w =
     (case s_pubKeys s signerID of
        None \<Rightarrow> fetch_key e signerID s w
      | Some entry \<Rightarrow>
          if e_Clock e (w_ticks w) < pk_expiresAt entry then (Inr (pk_key entry), s, tick w)
          else fetch_key e signerID s (tick w))"
  by (simp add: PublicKey_def time_Now_tick split: option.split)

lemma FindSigner_unfold:
  "FindSigner e n s w =
     ((case fst (Signers e s w) of
         Inl err \<Rightarrow> Inl err
       | Inr sgs \<Rightarrow> pick_signer n (case sgs of None \<Rightarrow> [] | Some l \<Rightarrow> l)),
      s_after (Signers e s w), w_after (Signers e s w))"
  by (simp add: FindSigner_def case_prod_beta split: sum.split)

definition same_setup :: "session \<Rightarrow> session \<Rightarrow> bool" where
  "same_setup s s' \<longleftrightarrow> s_cfg s' = s_cfg s \<and> s_client s' = s_client s"

lemma same_setup_refl [simp]: "same_setup s s"
  by (simp add: same_setup_def)

lemma same_setup_ops [frame]:
  "same_setup s (s_after (ensureToken e s w))"
  "same_setup s (s_after (fetch_signers e s w))"
  "same_setup s (s_after (fetch_key e i s w))"
  "same_setup s (s_after (Signers e s w))"
  "same_setup s (s_after (FindSigner e n s w))"
  "same_setup s (s_after (PublicKey e i s w))"
  by (simp_all add: same_setup_def frame fetch_signers_unfold fetch_key_unfold Signers_unfold
      PublicKey_unfold FindSigner_unfold Let_def split: sum.split option.split)

text \<open>The world only grows: the log is extended, the clock moves on, the signing context stays
  once it is set.\<close>

definition grows :: "world \<Rightarrow> world \<Rightarrow> bool" where
  "grows w w' \<longleftrightarrow> prefix (w_sent w) (w_sent w') \<and> w_ticks w \<le> w_ticks w'
     \<and> (\<forall>c. w_signingCtx w = Some c \<longrightarrow> w_signingCtx w' = Some c)"

lemma grows_refl [simp]: "grows w w"
  by (simp add: grows_def)

lemma grows_trans [trans]: "grows a b \<Longrightarrow> grows b c \<Longrightarrow> grows a c"
  unfolding grows_def by (meson order_trans prefix_order.trans)

lemma grows_tick [simp]: "grows w w' \<Longrightarrow> grows w (tick w')"
  by (simp add: grows_def)

lemma grows_tick_left: "grows (tick w) w' \<Longrightarrow> grows w w'"
  by (simp add: grows_def)

lemma grows_logged [simp]: "grows w w' \<Longrightarrow> grows w (logged rqs w')"
  by (simp add: grows_def)

lemma grows_auth [simp]:
  "grows w (snd (cachedAuthFailure e key w))"
  "grows w w' \<Longrightarrow> grows w (recordAuthFailure e key err w')"
  "grows w w' \<Longrightarrow> grows w (clearAuthFailure key w')"
  by (simp_all add: grows_def frame)

lemma grows_acquire: "grows w (w_after (acquire_token e s w))"
  by (simp add: acquire_token_unfold Let_def split: option.split sum.split prod.split)

lemma grows_ensureToken [simp]: "grows w (w_after (ensureToken e s w))"
  using grows_acquire[of w e s] grows_tick_left[OF grows_acquire[of "tick w" e s]]
  by (simp add: ensureToken_unfold)

lemma grows_fetch: "grows w (w_after (fetch_signers e s w))" "grows w (w_after (fetch_key e i s w))"
  by (simp_all add: fetch_signers_unfold fetch_key_unfold Let_def split: sum.split)

lemma grows_Signers [simp]: "grows w (w_after (Signers e s w))"
  using grows_fetch(1)[of w e s] grows_tick_left[OF grows_fetch(1)[of "tick w" e s]]
  by (simp add: Signers_unfold split: option.split)

lemma grows_FindSigner [simp]: "grows w (w_after (FindSigner e n s w))"
  by (simp add: FindSigner_unfold)

lemma grows_PublicKey [simp]: "grows w (w_after (PublicKey e i s w))"
  using grows_fetch(2)[of w e i s] grows_tick_left[OF grows_fetch(2)[of "tick w" e i s]]
  by (simp add: PublicKey_unfold split: option.split)

lemma grows_current_ctx [simp]: "grows w (snd (current_ctx e w))"
  by (simp add: current_ctx_def CurrentSigningContext_def grows_def Let_def split: option.split)

end
