(* ===== verification/SessionCache.thy ===== *)
theory SessionCache
  imports Session
begin

text \<open>
  The caches of the session. Three of them (token, signers, public keys) obey one contract, the
  locale \<open>ttl_cache\<close>: a hit answers from memory, a success that may be cached is. The fourth, the
  process-wide cache of failed logins, throttles retries across sessions.
\<close>

section \<open>The contract of a cache with expiry\<close>

definition ticks :: "nat \<Rightarrow> world \<Rightarrow> world" where
  "ticks n w = w\<lparr>w_ticks := w_ticks w + n\<rparr>"

lemma ticks_simps [simp]:
  "w_ticks (ticks n w) = w_ticks w + n" "w_sent (ticks n w) = w_sent w"
  "w_authFail (ticks n w) = w_authFail w" "w_signingCtx (ticks n w) = w_signingCtx w"
  "ticks 0 w = w" "tick (ticks n w) = ticks (Suc n) w"
  by (simp_all add: ticks_def tick_def)

text \<open>The n-fold repetition of an operation, results dropped.\<close>

definition again :: "(session \<Rightarrow> world \<Rightarrow> 'a result \<times> session \<times> world) \<Rightarrow> nat
    \<Rightarrow> session \<times> world \<Rightarrow> session \<times> world" where
  "again f n = ((\<lambda>(s, w). snd (f s w)) ^^ n)"

locale ttl_cache =
  fixes usable :: "session \<Rightarrow> bool"
    and cacheable :: "'v \<Rightarrow> bool"
    and get :: "session \<Rightarrow> ('v \<times> instant) option"
    and op :: "env \<Rightarrow> session \<Rightarrow> world \<Rightarrow> 'v result \<times> session \<times> world"
  assumes hit: "usable s \<Longrightarrow> get s = Some (v, t) \<Longrightarrow> e_Clock e (w_ticks w) < t \<Longrightarrow>
      op e s w = (Inr v, s, tick w)"
    and fill: "usable s \<Longrightarrow> op e s w = (Inr v, s', w') \<Longrightarrow> cacheable v \<Longrightarrow>
      usable s' \<and> (\<exists>t. get s' = Some (v, t))"
begin

lemma hits:
  assumes "usable s" "get s = Some (v, t)" "\<forall>k<n. e_Clock e (w_ticks w + k) < t"
  shows "again (op e) n (s, w) = (s, ticks n w)"
  using assms(3)
proof (induction n)
  case 0
  then show ?case by (simp add: again_def)
next
  case (Suc n)
  then show ?case using hit[OF assms(1,2), of e "ticks n w"] by (simp add: again_def)
qed

text \<open>After one success, every call before the expiry gives the same value and asks nobody.\<close>

lemma served_from_memory:
  assumes "usable s" "op e s w = (Inr v, s', w')" "cacheable v"
    and "\<forall>k\<le>n. e_Clock e (w_ticks w' + k) < snd (the (get s'))"
  shows "again (op e) n (s', w') = (s', ticks n w')"
    and "op e s' (ticks n w') = (Inr v, s', ticks (Suc n) w')"
proof -
  from fill[OF assms(1-3)] obtain t where u: "usable s'" "get s' = Some (v, t)" by blast
  show "again (op e) n (s', w') = (s', ticks n w')"
    using assms(4) u by (intro hits[OF u]) simp
  show "op e s' (ticks n w') = (Inr v, s', ticks (Suc n) w')"
    using assms(4) hit[OF u, of e "ticks n w'"] u by simp
qed

end

section \<open>The three caches of a session\<close>

definition signers_entry :: "session \<Rightarrow> (signer list option \<times> instant) option" where
  "signers_entry s = map_option (\<lambda>l. (Some l, s_signersExpiry s)) (s_signers s)"

definition key_entry :: "string \<Rightarrow> session \<Rightarrow> (public_key \<times> instant) option" where
  "key_entry signerID s = map_option (\<lambda>k. (pk_key k, pk_expiresAt k)) (s_pubKeys s signerID)"

definition token_entry :: "session \<Rightarrow> (string \<times> instant) option" where
  "token_entry s = (if s_token s = [] then None else Some (s_token s, s_tokenExpiry s))"

definition logs_in :: "session \<Rightarrow> bool" where
  "logs_in s = (auth_Method (Auth (s_cfg s)) \<noteq> AuthMethodToken)"

lemma fetch_signers_fill:
  "fetch_signers e s w = (Inr (Some l), s', w') \<Longrightarrow> s_signers s' = Some l"
  by (auto simp: fetch_signers_unfold Let_def split: sum.splits)

interpretation signers_cache: ttl_cache "\<lambda>_. True" "\<lambda>v. v \<noteq> None" signers_entry Signers
proof unfold_locales
  fix s v t and w :: world and e :: env assume "signers_entry s = Some (v, t)" "e_Clock e (w_ticks w) < t"
  then show "Signers e s w = (Inr v, s, tick w)"
    by (auto simp: signers_entry_def Signers_unfold)
next
  fix s v s' and w w' :: world and e :: env assume "Signers e s w = (Inr v, s', w')" "v \<noteq> None"
  then show "True \<and> (\<exists>t. signers_entry s' = Some (v, t))"
    using fetch_signers_fill[of e s w _ s' w'] fetch_signers_fill[of e s "tick w" _ s' w']
    by (auto simp: signers_entry_def Signers_unfold split: option.splits if_splits)
qed

lemma fetch_key_fill:
  "fetch_key e i s w = (Inr k, s', w') \<Longrightarrow>
   s_pubKeys s' i = Some \<lparr>pk_key = k, pk_expiresAt = e_Clock e (w_ticks w' - 1)
       + i64 (CertTTLSeconds (Cache (s_cfg s)) * second)\<rparr>"
  by (auto simp: fetch_key_unfold Let_def split: sum.splits)

interpretation key_cache: ttl_cache "\<lambda>_. True" "\<lambda>_. True" "key_entry i" "\<lambda>e. PublicKey e i" for i
proof unfold_locales
  fix s v t and w :: world and e :: env assume "key_entry i s = Some (v, t)" "e_Clock e (w_ticks w) < t"
  then show "PublicKey e i s w = (Inr v, s, tick w)"
    by (auto simp: key_entry_def PublicKey_unfold)
next
  fix s v s' and w w' :: world and e :: env assume "PublicKey e i s w = (Inr v, s', w')"
  then show "True \<and> (\<exists>t. key_entry i s' = Some (v, t))"
    using fetch_key_fill[of e i s w v s' w'] fetch_key_fill[of e i s "tick w" v s' w']
    by (auto simp: key_entry_def PublicKey_unfold split: option.splits if_splits)
qed

lemma Login_token: "fst (Login e c i p w) = Inr (t, d) \<Longrightarrow> t \<noteq> []"
  by (auto simp: Login_def split: sum.splits prod.splits if_splits)

lemma acquire_token_fill:
  "acquire_token e s w = (Inr t, s', w') \<Longrightarrow> s_token s' = t \<and> t \<noteq> [] \<and> s_cfg s' = s_cfg s"
  by (auto simp: acquire_token_unfold Let_def dest: Login_token
      split: option.splits sum.splits prod.splits if_splits)

interpretation token_cache: ttl_cache logs_in "\<lambda>_. True" token_entry ensureToken
proof unfold_locales
  fix s v t and w :: world and e :: env assume "logs_in s" "token_entry s = Some (v, t)" "e_Clock e (w_ticks w) < t"
  then show "ensureToken e s w = (Inr v, s, tick w)"
    by (auto simp: token_entry_def ensureToken_unfold logs_in_def split: if_splits)
next
  fix s v s' and w w' :: world and e :: env assume "logs_in s" "ensureToken e s w = (Inr v, s', w')"
  then show "logs_in s' \<and> (\<exists>t. token_entry s' = Some (v, t))"
    using acquire_token_fill[of e s w v s' w'] acquire_token_fill[of e s "tick w" v s' w']
    by (auto simp: token_entry_def ensureToken_unfold logs_in_def split: if_splits)
qed

section \<open>How long a token is kept\<close>

lemma cache_ttl_bounds:
  assumes "- (2 ^ 63) + tokenSafetyMargin \<le> r" "r < 2 ^ 63"
  shows "tokenSafetyMargin \<le> cache_ttl r c"
    and "2 * tokenSafetyMargin \<le> r \<Longrightarrow> cache_ttl r c + tokenSafetyMargin \<le> r"
    and "r < 2 * tokenSafetyMargin \<Longrightarrow> cache_ttl r c = tokenSafetyMargin"
  using assms by (auto simp: cache_ttl_def Let_def tokenSafetyMargin_def second_def)

text \<open>The configured ceiling, when it is at least the two margins and does not overflow.\<close>

lemma cache_ttl_ceiling:
  assumes "2 * tokenSafetyMargin \<le> c * second" "c * second < 2 ^ 63"
    and "- (2 ^ 63) + tokenSafetyMargin \<le> r" "r < 2 ^ 63"
  shows "cache_ttl r c + tokenSafetyMargin \<le> c * second"
  using assms by (auto simp: cache_ttl_def Let_def tokenSafetyMargin_def second_def)

section \<open>Throttling failed logins\<close>

text \<open>A session that has to log in to get a token.\<close>

definition tokenless :: "session \<Rightarrow> bool" where
  "tokenless s \<longleftrightarrow> logs_in s \<and> s_token s = []"

lemma tokenless_ensure: "tokenless s \<Longrightarrow> ensureToken e s w = acquire_token e s w"
  by (simp add: tokenless_def logs_in_def ensureToken_unfold)

lemma failure_recorded:
  assumes "tokenless s" "w_authFail w (auth_key (s_cfg s)) = None"
    and "ensureToken e s w = (Inl err, s', w')"
  shows "w_authFail w' (auth_key (s_cfg s))
       = Some \<lparr>af_err = err, af_until = e_Clock e (w_ticks w' - 1) + authFailureCacheTTL\<rparr>"
  using assms
  by (auto simp: tokenless_ensure acquire_token_unfold Let_def cachedAuthFailure_def
      recordAuthFailure_def time_Now_tick split: sum.splits if_splits prod.splits)

lemma failure_served:
  assumes "tokenless s" "w_authFail w (auth_key (s_cfg s)) = Some f"
    and "e_Clock e (w_ticks w) < af_until f"
  shows "ensureToken e s w = (Inl (af_err f), s, tick w)"
  using assms
  by (simp add: tokenless_ensure acquire_token_unfold Let_def cachedAuthFailure_def time_Now_tick)

lemma failure_expired:
  assumes "tokenless s" "w_authFail w (auth_key (s_cfg s)) = Some f"
    and "af_until f \<le> e_Clock e (w_ticks w)"
    and "auth_ClientID (Auth (s_cfg s)) \<noteq> []" "auth_ClientSecret (Auth (s_cfg s)) \<noteq> []"
  shows "w_sent (w_after (ensureToken e s w)) = w_sent w @ [login_rq s]"
  using assms
  by (auto simp: tokenless_ensure acquire_token_unfold Let_def cachedAuthFailure_def time_Now_tick
      frame split: sum.split prod.split)

text \<open>A host that retries: each attempt has a session of its own and looks up a signer in it.\<close>

fun open_attempts :: "env \<Rightarrow> (session \<times> string) list \<Rightarrow> world \<Rightarrow> signer result list \<times> world" where
  "open_attempts e [] w = ([], w)"
| "open_attempts e ((s, n) # rest) w =
     (case FindSigner e n s w of (r, _, w1) \<Rightarrow>
        (case open_attempts e rest w1 of (rs, w2) \<Rightarrow> (r # rs, w2)))"

definition retries_of :: "string \<Rightarrow> (session \<times> string) list \<Rightarrow> bool" where
  "retries_of key as = list_all (\<lambda>(s, _). tokenless s \<and> s_signers s = None \<and> auth_key (s_cfg s) = key) as"

lemma FindSigner_fails:
  assumes "s_signers s = None" "ensureToken e s w = (Inl err, s', w')"
  shows "FindSigner e n s w = (Inl err, s', w')"
  using assms by (simp add: FindSigner_unfold Signers_unfold fetch_signers_unfold Let_def)

lemma attempts_blocked:
  assumes "retries_of key as" "w_authFail w key = Some f"
    and "\<forall>k<length as. e_Clock e (w_ticks w + k) < af_until f"
  shows "open_attempts e as w = (replicate (length as) (Inl (af_err f)), ticks (length as) w)"
  using assms
proof (induction as arbitrary: w)
  case Nil
  then show ?case by simp
next
  case (Cons a as)
  obtain s n where a: "a = (s, n)" by force
  have s: "tokenless s" "s_signers s = None" "auth_key (s_cfg s) = key"
    using Cons.prems(1) a by (simp_all add: retries_of_def)
  have "e_Clock e (w_ticks w) < af_until f" using Cons.prems(3) by force
  with failure_served[of s w f e] s Cons.prems(2)
  have "FindSigner e n s w = (Inl (af_err f), s, tick w)"
    by (intro FindSigner_fails) simp_all
  moreover have "\<forall>k<length as. e_Clock e (w_ticks (tick w) + k) < af_until f"
    using Cons.prems(3) by (auto dest: spec[of _ "Suc _"])
  ultimately show ?case
    using Cons.IH[of "tick w"] Cons.prems(1,2) a
    by (simp add: retries_of_def ticks_def tick_def)
qed

lemma first_failure_blocks:
  assumes "retries_of key ((s, n) # as)" "w_authFail w key = None"
    and "ensureToken e s w = (Inl err, s', w')"
    and "\<forall>k<length as. e_Clock e (w_ticks w' + k) < e_Clock e (w_ticks w' - 1) + authFailureCacheTTL"
  shows "open_attempts e ((s, n) # as) w
       = (replicate (Suc (length as)) (Inl err), ticks (length as) w')"
proof -
  have s: "tokenless s" "s_signers s = None" "auth_key (s_cfg s) = key" "retries_of key as"
    using assms(1) by (simp_all add: retries_of_def)
  show ?thesis
    using FindSigner_fails[OF s(2) assms(3), of n] failure_recorded[OF s(1) _ assms(3)] assms(2,4) s(3)
      attempts_blocked[OF s(4), of w' "\<lparr>af_err = err, af_until = e_Clock e (w_ticks w' - 1) + authFailureCacheTTL\<rparr>" e]
    by simp
qed

end
