(* ===== verification/SessionSign.thy ===== *)
theory SessionSign
  imports SessionCache
begin

text \<open>
  Signing through a session: what is sent, when an approval request follows a denial, and what of
  the original denial the caller still sees.
\<close>

section \<open>The signing context of the process\<close>

definition ctx_of :: "env \<Rightarrow> world \<Rightarrow> signing_context" where
  "ctx_of e w = (case w_signingCtx w of Some c \<Rightarrow> c | None \<Rightarrow> observe_context (e_Lower e) (e_OS e))"

definition ctx_set :: "env \<Rightarrow> world \<Rightarrow> world" where
  "ctx_set e w = w\<lparr>w_signingCtx := Some (ctx_of e w)\<rparr>"

lemma ctx_set_simps [simp]:
  "w_ticks (ctx_set e w) = w_ticks w" "w_sent (ctx_set e w) = w_sent w"
  "w_authFail (ctx_set e w) = w_authFail w" "w_signingCtx (ctx_set e w) = Some (ctx_of e w)"
  by (simp_all add: ctx_set_def)

lemma current_ctx_eq: "current_ctx e w = (ctx_of e w, ctx_set e w)"
  by (simp add: current_ctx_def CurrentSigningContext_def ctx_of_def ctx_set_def Let_def
      split: option.split)

section \<open>Approval requests\<close>

text \<open>The outcome of \<open>approval_params_of\<close> as a function of the clock reading.\<close>

definition approval_window ::
    "approval_config \<Rightarrow> instant \<Rightarrow> approval_params \<Rightarrow> approval_params result" where
  "approval_window a now params =
     (if SigningDuration a = [] then Inr params
      else case parseApprovalDuration (SigningDuration a) of
          Inl err \<Rightarrow> Inl (Wrapf ''invalid approval.signing_duration %q: '' [FQuoted (SigningDuration a)] err)
        | Inr d \<Rightarrow> Inr (params\<lparr>ap_RequestedWindowStart := FormatRFC3339 now,
                               ap_RequestedWindowEnd := FormatRFC3339 (now + d)\<rparr>))"

lemma approval_params_eq:
  "fst (approval_params_of e cfg c h w)
     = approval_window (Approval cfg) (e_Clock e (w_ticks w)) (approval_base (Approval cfg) c h)"
  "snd (approval_params_of e cfg c h w)
     = (if SigningDuration (Approval cfg) \<noteq> [] \<and> is_ok (parseApprovalDuration (SigningDuration (Approval cfg)))
        then tick w else w)"
  by (simp_all add: approval_params_of_def approval_window_def time_Now_tick Let_def is_ok_def
      split: sum.split)

lemma approval_window_scope:
  "approval_window a now (approval_base a c h) = Inr p \<Longrightarrow>
   ap_Scope p = RequestScope c h \<and> ap_Justification p = approvalJustification (sc_Hostname c)
   \<and> ap_RequestedSignings p = max 0 (SigningCount a)"
  by (auto simp: approval_window_def approval_base_def split: if_splits sum.splits)

text \<open>Under a validated configuration building the parameters cannot fail, and the window asked
  for is the configured one.\<close>

lemma approval_window_good:
  assumes "good_config cfg"
  shows "\<exists>p. approval_window (Approval cfg) now (approval_base (Approval cfg) c h) = Inr p
     \<and> (SigningDuration (Approval cfg) = [] \<longrightarrow>
          ap_RequestedWindowStart p = [] \<and> ap_RequestedWindowEnd p = [])
     \<and> (SigningDuration (Approval cfg) \<noteq> [] \<longrightarrow>
          (\<exists>d. min_window \<le> d \<and> d \<le> max_window
             \<and> ap_RequestedWindowStart p = FormatRFC3339 now
             \<and> ap_RequestedWindowEnd p = FormatRFC3339 (now + d)))"
  using assms
  by (auto simp: approval_window_def good_config_def approval_base_def split: sum.splits)

text \<open>The approval request that follows a denial, if any.\<close>

definition follow_up ::
    "env \<Rightarrow> session \<Rightarrow> string \<Rightarrow> string \<Rightarrow> signing_context \<Rightarrow> bytes \<Rightarrow> go_error \<Rightarrow> world \<Rightarrow> http_request list" where
  "follow_up e s token signerID c digest err w =
     (if approval_required err \<and> approval_configured (s_cfg s)
      then (case approval_window (Approval (s_cfg s)) (e_Clock e (w_ticks w))
                   (approval_base (Approval (s_cfg s)) c (payload_hash digest)) of
              Inl _ \<Rightarrow> []
            | Inr p \<Rightarrow> [approval_request (s_client s) token signerID p])
      else [])"

lemma requestApproval_world:
  "w_sent (snd (requestApprovalIfConfigured e s token i c h w)) = w_sent w @
     (if approval_configured (s_cfg s)
      then (case approval_window (Approval (s_cfg s)) (e_Clock e (w_ticks w))
                   (approval_base (Approval (s_cfg s)) c h) of
              Inl _ \<Rightarrow> []
            | Inr p \<Rightarrow> [approval_request (s_client s) token i p])
      else [])"
  "grows w (snd (requestApprovalIfConfigured e s token i c h w))"
  "w_authFail (snd (requestApprovalIfConfigured e s token i c h w)) = w_authFail w"
  "w_signingCtx (snd (requestApprovalIfConfigured e s token i c h w)) = w_signingCtx w"
  using approval_params_eq[of e "s_cfg s" c h w]
  by (auto simp: requestApprovalIfConfigured_def frame split: prod.split sum.split)

lemma autoRequest_sent [frame]:
  "w_sent (snd (autoRequestOnDenial e s token i c digest err w))
     = w_sent w @ follow_up e s token i c digest err w"
  using requestApproval_world(1)[of e s token i c "payload_hash digest" w]
  by (auto simp: autoRequestOnDenial_def follow_up_def split: prod.split sum.split)

lemma autoRequest_world [frame]:
  "grows w (snd (autoRequestOnDenial e s token i c digest err w))"
  "w_signingCtx (snd (autoRequestOnDenial e s token i c digest err w)) = w_signingCtx w"
  "w_authFail (snd (autoRequestOnDenial e s token i c digest err w)) = w_authFail w"
  using requestApproval_world[where e = e and s = s and token = token and i = i and c = c
      and h = "payload_hash digest" and w = w]
  by (auto simp: autoRequestOnDenial_def split: prod.split sum.split)

text \<open>The denial stays visible through whatever the approval request adds.\<close>

lemma autoRequest_transparent [chain]:
  "errors_As sel_api (fst (autoRequestOnDenial e s token i c digest err w)) = errors_As sel_api err"
  "errors_Is_BadHandle (fst (autoRequestOnDenial e s token i c digest err w)) = errors_Is_BadHandle err"
  by (auto simp: autoRequestOnDenial_def chain split: prod.split sum.split)

text \<open>When the wrapper types appear.\<close>

lemma autoRequest_wraps:
  "fst (autoRequestOnDenial e s token i c digest err w)
     \<in> {err} \<union> range (ApprovalRequestFailed err) \<union> {ApprovalRequestOpened err r st |r st. r \<noteq> []}"
  by (auto simp: autoRequestOnDenial_def split: prod.split sum.split)

lemma autoRequest_opened:
  assumes "fst (requestApprovalIfConfigured e s token i c (payload_hash digest) w) = Inr (reqID, status)"
    and "approval_required err" "reqID \<noteq> []"
  shows "fst (autoRequestOnDenial e s token i c digest err w) = ApprovalRequestOpened err reqID status"
  using assms by (auto simp: autoRequestOnDenial_def split: prod.split)

section \<open>Sign\<close>

lemma Session_Sign_unfold:
  "Session_Sign e i alg digest s w =
     (let t = ensureToken e s w; s1 = s_after t; w1 = w_after t in
      case fst t of
        Inl err \<Rightarrow> (Inl err, s1, w1)
      | Inr token \<Rightarrow>
          let c = ctx_of e w1; p = sign_params_of c alg digest;
              w3 = logged [sign_request (s_client s) token i p] (ctx_set e w1) in
          case fst (Client_Sign e (s_client s) token i p (ctx_set e w1)) of
            Inl err \<Rightarrow>
              (Inl (fst (autoRequestOnDenial e s1 token i c digest err w3)), s1,
               snd (autoRequestOnDenial e s1 token i c digest err w3))
          | Inr sigB64 \<Rightarrow>
              ((case b64_decode sigB64 of
                  None \<Rightarrow> Inl (LibErr ''illegal base64 data'')
                | Some sig \<Rightarrow> Inr sig), s1, w3))"
  by (subst Session_Sign_def, unfold current_ctx_eq, subst call_pairs(4))
    (simp add: Let_def frame case_prod_beta split: sum.split option.split)

lemma same_setup_Sign [frame]: "same_setup s (s_after (Session_Sign e i alg d s w))"
  using same_setup_ops(1)[of s e w] by (simp add: Session_Sign_unfold Let_def split: sum.split)

lemma grows_ctx_set [simp]: "grows w w' \<Longrightarrow> grows w (ctx_set e w')"
  by (auto simp: grows_def ctx_of_def)

lemma grows_Sign [simp]: "grows w (w_after (Session_Sign e i alg d s w))"
proof -
  have "grows w (snd (autoRequestOnDenial e s1 token j c d err w3))" if "grows w w3"
    for e s1 token j c err w3
    using that autoRequest_world(1) by (rule grows_trans)
  then show ?thesis by (simp add: Session_Sign_unfold Let_def split: sum.split)
qed

text \<open>What a signature means: one sign request, after a login at most, carrying the digest.\<close>

lemma Session_Sign_Inr:
  assumes "Session_Sign e i alg digest s w = (Inr sig, s', w')"
  shows "\<exists>token logins c sigB64.
      w_sent w' = w_sent w @ logins
        @ [sign_request (s_client s) token i (sign_params_of c alg digest)]
      \<and> logins \<in> {[], [login_rq s]} \<and> w_signingCtx w' = Some c
      \<and> fst (ensureToken e s w) = Inr token
      \<and> fst (Client_Sign e (s_client s) token i (sign_params_of c alg digest)
             (ctx_set e (w_after (ensureToken e s w)))) = Inr sigB64
      \<and> b64_decode sigB64 = Some sig"
proof -
  let ?w1 = "w_after (ensureToken e s w)"
  obtain token where t: "fst (ensureToken e s w) = Inr token"
    using assms by (auto simp: Session_Sign_unfold Let_def split: sum.splits)
  obtain logins where l: "w_sent ?w1 = w_sent w @ logins" "logins \<in> {[], [login_rq s]}"
    using ensureToken_sent[of e s w] by auto
  obtain sigB64 where "fst (Client_Sign e (s_client s) token i
      (sign_params_of (ctx_of e ?w1) alg digest) (ctx_set e ?w1)) = Inr sigB64"
    using assms t by (auto simp: Session_Sign_unfold Let_def split: sum.splits)
  then show ?thesis
    using assms t l
    by (intro exI[of _ token] exI[of _ logins] exI[of _ "ctx_of e ?w1"] exI[of _ sigB64])
      (auto simp: Session_Sign_unfold Let_def split: sum.splits option.splits)
qed

text \<open>The sign request as the server reads it.\<close>

lemma sign_request_shape:
  "rq_Method (sign_request c t i (sign_params_of cx alg digest)) = POST"
  "rq_Path (sign_request c t i (sign_params_of cx alg digest)) = signer_path i ''sign''"
  "rq_Token (sign_request c t i (sign_params_of cx alg digest)) = Some t"
  "rq_Body (sign_request c t i (sign_params_of cx alg digest)) = Some (JObj
     [(''data'', JStr (b64_encode digest)), (''signingAlgorithm'', JStr alg), (''isDigest'', JBool True),
      (''clientMetadata'', str_members (wire_metadata (ClientMetadata cx)))])"
  by (simp_all add: sign_request_def plain_request_def wire_sign_def sign_params_of_def)

lemma b64_digest: "b64_decode (b64_encode digest) = Some digest"
  by (rule b64.dec_enc) simp

text \<open>The requests of a failed signature.\<close>

lemma Session_Sign_Inl:
  assumes "Session_Sign e i alg digest s w = (Inl err, s', w')"
    and "fst (ensureToken e s w) = Inr token"
    and "c = ctx_of e (w_after (ensureToken e s w))"
    and "p = sign_params_of c alg digest"
    and "fst (Client_Sign e (s_client s) token i p (ctx_set e (w_after (ensureToken e s w)))) = Inl denial"
  shows "\<exists>s1 w3. w_sent w' = w_sent (w_after (ensureToken e s w))
        @ [sign_request (s_client s) token i p] @ follow_up e s1 token i c digest denial w3
      \<and> same_setup s s1
      \<and> errors_As sel_api err = errors_As sel_api denial
      \<and> errors_Is_BadHandle err = errors_Is_BadHandle denial"
  using assms
  by (intro exI[of _ "s_after (ensureToken e s w)"]
      exI[of _ "logged [sign_request (s_client s) token i p] (ctx_set e (w_after (ensureToken e s w)))"])
    (auto simp: Session_Sign_unfold Let_def frame chain)

section \<open>Looking a signer up\<close>

lemma pick_signer_Inr:
  "pick_signer n l = Inr sg \<longleftrightarrow>
   (\<exists>i<length l. matches n (l ! i) \<and> sg = l ! i \<and> (\<forall>j<i. \<not> matches n (l ! j)))"
  by (simp add: pick_signer_def find_Some_iff [symmetric] split: option.split)

lemma FindSigner_Inr:
  "fst (FindSigner e n s w) = Inr sg \<longleftrightarrow>
   (\<exists>l. fst (Signers e s w) = Inr (Some l) \<and> pick_signer n l = Inr sg)"
  by (auto simp: FindSigner_unfold split: sum.splits option.splits)
    (simp add: pick_signer_def)

end
