(* ===== verification/CngAlgorithm.thy ===== *)
theory CngAlgorithm
  imports GoErrors
begin

text \<open>
  \<^verbatim>\<open>internal/cng/algorithm.go\<close> and \<^verbatim>\<open>internal/infisical/algorithm.go\<close>: from a CNG sign request
  (key family, padding, hash identifier) to the signing algorithm string of the Infisical API.
\<close>

section \<open>Algorithm identifiers\<close>

definition AlgRSAPKCS1SHA256 :: string where "AlgRSAPKCS1SHA256 = ''RSASSA_PKCS1_V1_5_SHA_256''"
definition AlgRSAPKCS1SHA384 :: string where "AlgRSAPKCS1SHA384 = ''RSASSA_PKCS1_V1_5_SHA_384''"
definition AlgRSAPKCS1SHA512 :: string where "AlgRSAPKCS1SHA512 = ''RSASSA_PKCS1_V1_5_SHA_512''"
definition AlgRSAPSSSHA256 :: string where "AlgRSAPSSSHA256 = ''RSASSA_PSS_SHA_256''"
definition AlgRSAPSSSHA384 :: string where "AlgRSAPSSSHA384 = ''RSASSA_PSS_SHA_384''"
definition AlgRSAPSSSHA512 :: string where "AlgRSAPSSSHA512 = ''RSASSA_PSS_SHA_512''"
definition AlgECDSASHA256 :: string where "AlgECDSASHA256 = ''ECDSA_SHA_256''"
definition AlgECDSASHA384 :: string where "AlgECDSASHA384 = ''ECDSA_SHA_384''"
definition AlgECDSASHA512 :: string where "AlgECDSASHA512 = ''ECDSA_SHA_512''"

lemmas alg_defs =
  AlgRSAPKCS1SHA256_def AlgRSAPKCS1SHA384_def AlgRSAPKCS1SHA512_def
  AlgRSAPSSSHA256_def AlgRSAPSSSHA384_def AlgRSAPSSSHA512_def
  AlgECDSASHA256_def AlgECDSASHA384_def AlgECDSASHA512_def

section \<open>The mapping\<close>

text \<open>\<^verbatim>\<open>KeyType\<close> and \<^verbatim>\<open>Padding\<close> are Go \<^verbatim>\<open>int\<close>s with named values; the last constructor
  of each stands for the values that have no name and reach the \<^verbatim>\<open>default\<close> branches.\<close>

datatype KeyType = KeyRSA | KeyECDSA | KeyOther int

datatype Padding = PaddingNone | PaddingPKCS1 | PaddingPSS | PaddingOther int

text \<open>\<open>strings.ToUpper(strings.TrimSpace(hash))\<close>.\<close>

definition normal_hash :: "(nat \<Rightarrow> nat) \<Rightarrow> string \<Rightarrow> string" where
  "normal_hash U hash = ToUpper U (TrimSpace hash)"

definition Algorithm :: "(nat \<Rightarrow> nat) \<Rightarrow> KeyType \<Rightarrow> Padding \<Rightarrow> string \<Rightarrow> string result" where
  "Algorithm U key padding hash =
     (let h = normal_hash U hash in
      case key of
        KeyRSA \<Rightarrow>
          (case padding of
             PaddingPKCS1 \<Rightarrow>
               if h = ''SHA256'' then Inr AlgRSAPKCS1SHA256
               else if h = ''SHA384'' then Inr AlgRSAPKCS1SHA384
               else if h = ''SHA512'' then Inr AlgRSAPKCS1SHA512
               else Inl (Errorf ''unsupported RSA hash %q'' [FQuoted hash])
           | PaddingPSS \<Rightarrow>
               if h = ''SHA256'' then Inr AlgRSAPSSSHA256
               else if h = ''SHA384'' then Inr AlgRSAPSSSHA384
               else if h = ''SHA512'' then Inr AlgRSAPSSSHA512
               else Inl (Errorf ''unsupported RSA hash %q'' [FQuoted hash])
           | _ \<Rightarrow> Inl (Errorf ''RSA signing requires PKCS1 or PSS padding'' []))
      | KeyECDSA \<Rightarrow>
          if h = ''SHA256'' then Inr AlgECDSASHA256
          else if h = ''SHA384'' then Inr AlgECDSASHA384
          else if h = ''SHA512'' then Inr AlgECDSASHA512
          else Inl (Errorf ''unsupported ECDSA hash %q'' [FQuoted hash])
      | KeyOther _ \<Rightarrow> Inl (Errorf ''unsupported key type'' []))"

definition HashFromDigestLen :: "int \<Rightarrow> string result" where
  "HashFromDigestLen n =
     (if n = 32 then Inr ''SHA256'' else if n = 48 then Inr ''SHA384''
      else if n = 64 then Inr ''SHA512''
      else Inl (Errorf ''unexpected digest length %d (want 32, 48, or 64)'' [FInt n]))"

section \<open>Properties\<close>

text \<open>The digest length each supported hash identifier stands for (FIPS 180-4).\<close>

definition hash_len :: "string \<Rightarrow> int option" where
  "hash_len h = (if h = ''SHA256'' then Some 32 else if h = ''SHA384'' then Some 48
     else if h = ''SHA512'' then Some 64 else None)"

text \<open>The request an algorithm identifier stands for, read off its name: an independent
  specification of the table.\<close>

definition alg_meaning :: "string \<Rightarrow> (KeyType \<times> Padding option \<times> string) option" where
  "alg_meaning a = map_of
     [(AlgRSAPKCS1SHA256, (KeyRSA, Some PaddingPKCS1, ''SHA256'')),
      (AlgRSAPKCS1SHA384, (KeyRSA, Some PaddingPKCS1, ''SHA384'')),
      (AlgRSAPKCS1SHA512, (KeyRSA, Some PaddingPKCS1, ''SHA512'')),
      (AlgRSAPSSSHA256, (KeyRSA, Some PaddingPSS, ''SHA256'')),
      (AlgRSAPSSSHA384, (KeyRSA, Some PaddingPSS, ''SHA384'')),
      (AlgRSAPSSSHA512, (KeyRSA, Some PaddingPSS, ''SHA512'')),
      (AlgECDSASHA256, (KeyECDSA, None, ''SHA256'')),
      (AlgECDSASHA384, (KeyECDSA, None, ''SHA384'')),
      (AlgECDSASHA512, (KeyECDSA, None, ''SHA512''))] a"

text \<open>What the request asks for, in the same vocabulary (padding is irrelevant to ECDSA).\<close>

definition request_meaning :: "KeyType \<Rightarrow> Padding \<Rightarrow> string \<Rightarrow> KeyType \<times> Padding option \<times> string" where
  "request_meaning key padding h = (key, (if key = KeyECDSA then None else Some padding), h)"

definition supported :: "KeyType \<Rightarrow> Padding \<Rightarrow> string \<Rightarrow> bool" where
  "supported key padding h \<longleftrightarrow> h \<in> {''SHA256'', ''SHA384'', ''SHA512''} \<and>
     (key = KeyECDSA \<or> key = KeyRSA \<and> padding \<in> {PaddingPKCS1, PaddingPSS})"

lemma Algorithm_supported:
  "is_ok (Algorithm U key padding hash) \<longleftrightarrow> supported key padding (normal_hash U hash)"
  by (cases key; cases padding) (auto simp: Algorithm_def supported_def Let_def)

lemma alg_meaning_simps [simp]:
  "alg_meaning AlgRSAPKCS1SHA256 = Some (KeyRSA, Some PaddingPKCS1, ''SHA256'')"
  "alg_meaning AlgRSAPKCS1SHA384 = Some (KeyRSA, Some PaddingPKCS1, ''SHA384'')"
  "alg_meaning AlgRSAPKCS1SHA512 = Some (KeyRSA, Some PaddingPKCS1, ''SHA512'')"
  "alg_meaning AlgRSAPSSSHA256 = Some (KeyRSA, Some PaddingPSS, ''SHA256'')"
  "alg_meaning AlgRSAPSSSHA384 = Some (KeyRSA, Some PaddingPSS, ''SHA384'')"
  "alg_meaning AlgRSAPSSSHA512 = Some (KeyRSA, Some PaddingPSS, ''SHA512'')"
  "alg_meaning AlgECDSASHA256 = Some (KeyECDSA, None, ''SHA256'')"
  "alg_meaning AlgECDSASHA384 = Some (KeyECDSA, None, ''SHA384'')"
  "alg_meaning AlgECDSASHA512 = Some (KeyECDSA, None, ''SHA512'')"
  by (simp_all add: alg_meaning_def alg_defs)

lemma Algorithm_meaning:
  "Algorithm U key padding hash = Inr a \<Longrightarrow>
   alg_meaning a = Some (request_meaning key padding (normal_hash U hash))"
  by (cases key; cases padding)
    (auto simp: Algorithm_def request_meaning_def Let_def split: if_splits)

lemma HashFromDigestLen_iff: "HashFromDigestLen n = Inr h \<longleftrightarrow> hash_len h = Some n"
  by (auto simp: HashFromDigestLen_def hash_len_def)

lemma normal_hash_canonical:
  "h \<in> {''SHA256'', ''SHA384'', ''SHA512''} \<Longrightarrow> normal_hash U h = h"
  by (auto simp: normal_hash_def TrimSpace_def ToUpper_def upper_ascii_def segments_ascii
      is_ascii_def byte_def is_space_def)

lemma alg_meaning_inj: "alg_meaning a = Some r \<Longrightarrow> alg_meaning b = Some r \<Longrightarrow> a = b"
  by (auto simp: alg_meaning_def split: if_splits)

lemma alg_meaning_supported:
  "alg_meaning a = Some (request_meaning key padding h) \<Longrightarrow> supported key padding h"
  by (cases key) (auto simp: alg_meaning_def request_meaning_def supported_def split: if_splits)

lemma Algorithm_iff:
  "Algorithm U key padding hash = Inr a \<longleftrightarrow>
   alg_meaning a = Some (request_meaning key padding (normal_hash U hash))" (is "?L \<longleftrightarrow> ?R")
proof
  assume ?R
  then have "is_ok (Algorithm U key padding hash)"
    by (simp add: Algorithm_supported alg_meaning_supported)
  then obtain b where b: "Algorithm U key padding hash = Inr b"
    by (cases "Algorithm U key padding hash") auto
  with Algorithm_meaning[OF b] \<open>?R\<close> show ?L using alg_meaning_inj by metis
qed (rule Algorithm_meaning)

text \<open>C20: \<open>Algorithm\<close> returns an identifier exactly when that identifier means the requested
  combination of key family, padding and (trimmed, upper-cased) hash; every other request is an
  error. The meaning of the nine identifiers is read off their names, independently of the code.\<close>

theorem algorithm_table:
  "Algorithm U key padding hash = Inr a \<longleftrightarrow>
   alg_meaning a = Some (request_meaning key padding (normal_hash U hash))"
  by (rule Algorithm_iff)

text \<open>For an ECDSA request, which carries no hash name, the name inferred from the digest
  length and the algorithm chosen for it are those of the hash with that digest length, whatever
  padding value is passed along.\<close>

theorem ecdsa_hash_inferred:
  "HashFromDigestLen n = Inr h \<and> Algorithm U KeyECDSA padding h = Inr a \<longleftrightarrow>
   hash_len h = Some n \<and> alg_meaning a = Some (KeyECDSA, None, h)"
proof -
  have "hash_len h = Some n \<Longrightarrow> normal_hash U h = h"
    by (rule normal_hash_canonical) (auto simp: hash_len_def split: if_splits)
  then show ?thesis
    by (auto simp: HashFromDigestLen_iff Algorithm_iff request_meaning_def)
qed

end
