(* ===== verification/Provider.thy ===== *)
theory Provider
  imports SessionSign CngAlgorithm
begin

text \<open>
  \<^verbatim>\<open>cmd/ksp/provider_windows.go\<close>, \<^verbatim>\<open>properties_windows.go\<close> and \<^verbatim>\<open>logging_windows.go\<close>: the handle
  registry, the objects behind the handles, the operations on them, the key properties, the log,
  and the status code each error becomes.
\<close>

section \<open>Status codes\<close>

definition statusSuccess :: u32 where "statusSuccess = 0x00000000"
definition statusNotSupported :: u32 where "statusNotSupported = 0x80090029"
definition statusPerm :: u32 where "statusPerm = 0x80090010"
definition statusBadKeyset :: u32 where "statusBadKeyset = 0x80090016"
definition statusInvalidParameter :: u32 where "statusInvalidParameter = 0x80090027"
definition statusFail :: u32 where "statusFail = 0x80090020"

lemmas status_defs = statusSuccess_def statusNotSupported_def statusPerm_def statusBadKeyset_def
  statusInvalidParameter_def statusFail_def

text \<open>The \<^verbatim>\<open>nil\<close> error is handled by the callers, which only come here with an error.\<close>

definition statusFromError :: "go_error \<Rightarrow> u32" where
  "statusFromError err =
     (if errors_Is_BadHandle err then statusInvalidParameter
      else case errors_As sel_api err of
          Some apiErr \<Rightarrow>
            (if StatusCode apiErr = 403 then statusPerm
             else if StatusCode apiErr = 401 then statusPerm
             else if StatusCode apiErr = 404 then statusBadKeyset
             else if StatusCode apiErr = 400 then statusInvalidParameter
             else statusFail)
        | None \<Rightarrow> statusFail)"

definition hint_handle :: string where
  "hint_handle = ''internal handle error; this usually indicates a host or provider-state bug, not a configuration problem''"

definition hint_denied :: string where
  "hint_denied = ''signing was denied (HTTP 403): this identity needs an approved access request ''
     @ ''(Cert Manager > Code Signing > Signers > Approvals), or it must be a Signer member ''
     @ ''with the Administrator or Operator role (Auditors cannot sign). Resolve access, then ''
     @ ''run the same command again''"

definition hint_auth :: string where
  "hint_auth = ''authentication failed: check INFISICAL_UNIVERSAL_AUTH_CLIENT_ID and ''
     @ ''INFISICAL_UNIVERSAL_AUTH_CLIENT_SECRET, and confirm the identity is a member of the Signer''"

definition hint_missing :: string where
  "hint_missing = ''not found: the Signer or its certificate does not exist, or is not visible to this identity''"

definition hint_rejected :: string where
  "hint_rejected = ''the server rejected the request: verify the key type and signing algorithm are supported''"

definition hint_server :: string where
  "hint_server = ''the Infisical server reported an internal error; retry shortly''"

definition hint_network :: string where
  "hint_network = ''cannot reach Infisical: check server_url, network connectivity, and TLS ''
     @ ''(for a self-hosted instance with a private CA, set tls.ca_cert_path in the config)''"

definition adviceForError :: "(nat \<Rightarrow> bool) \<Rightarrow> go_error \<Rightarrow> string" where
  "adviceForError P err =
     (if errors_Is_BadHandle err then hint_handle
      else case errors_As sel_opened err of
        Some (reqID, status) \<Rightarrow>
          ''signing needs approved access, so approval request '' @ reqID @ '' was opened ('' @ status
          @ ''). Ask an approver to review it under Cert Manager > Code Signing > Signers > Approvals, then run the same ''
          @ ''command again''
      | None \<Rightarrow>
        (case errors_As sel_failed err of
           Some requestErr \<Rightarrow>
             ''signing needs approved access, and opening an approval request failed (''
             @ error_text P requestErr
             @ ''). Check that the identity may request signing access and that the server is reachable, then run the same ''
             @ ''command again''
         | None \<Rightarrow>
           (case errors_As sel_api err of
              Some apiErr \<Rightarrow>
                (if StatusCode apiErr = 403 then hint_denied
                 else if StatusCode apiErr = 401 then hint_auth
                 else if StatusCode apiErr = 404 then hint_missing
                 else if StatusCode apiErr = 400 then hint_rejected
                 else if StatusCode apiErr \<ge> 500 then hint_server
                 else [])
            | None \<Rightarrow>
              (case errors_As sel_request err of
                 Some _ \<Rightarrow> hint_network
               | None \<Rightarrow> []))))"

section \<open>State\<close>

text \<open>
  A \<^verbatim>\<open>*providerState\<close> is an address in the heap of sessions, so that every key opened through a
  provider shares its session; the object lives on while a key refers to it, whatever happens to
  the provider's handle. A \<^verbatim>\<open>*keyState\<close> is never written after it is registered and is kept by value.
\<close>

record key_state =
  ks_prov :: nat
  ks_signer :: signer
  ks_pub :: public_key
  ks_keyType :: KeyType
  ks_curveBits :: nat

datatype gobject = ProviderObj nat | KeyObj key_state

record machine =
  m_world :: world
  m_heap :: "session list"
  m_handles :: "u64 \<rightharpoonup> gobject"
  m_nextHandle :: u64
  m_logDone :: bool
  m_logFile :: "string option"
  m_logLines :: "(instant \<times> string) list"

text \<open>
  The surroundings of the DLL: those of the session layer, whether the log file can be opened for
  appending (after \<^verbatim>\<open>MkdirAll\<close>), and the two UTF-16 conversions of \<^verbatim>\<open>golang.org/x/sys/windows\<close>.
\<close>

record dll_env =
  d_env :: env
  d_OpenLog :: "string \<Rightarrow> bool"
  d_UTF16FromString :: "string \<Rightarrow> u16 list option"
  d_UTF16ToString :: "u16 list \<Rightarrow> string"

definition new_world :: world where
  "new_world = \<lparr>w_ticks = 0, w_sent = [], w_authFail = Map.empty, w_signingCtx = None\<rparr>"

text \<open>The process as the DLL is loaded.\<close>

definition loaded :: machine where
  "loaded = \<lparr>m_world = new_world, m_heap = [], m_handles = Map.empty, m_nextHandle = 1,
     m_logDone = False, m_logFile = None, m_logLines = []\<rparr>"

section \<open>The log\<close>

definition setupLogging :: "dll_env \<Rightarrow> string \<Rightarrow> machine \<Rightarrow> machine" where
  "setupLogging d file m =
     (if m_logDone m then m
      else let m = m\<lparr>m_logDone := True\<rparr> in
        if file = [] then m
        else if \<not> d_OpenLog d file then m
        else m\<lparr>m_logFile := Some file\<rparr>)"

text \<open>One \<^verbatim>\<open>logger.Printf\<close>: nothing while output is discarded, a time-stamped line otherwise.\<close>

definition log_line :: "dll_env \<Rightarrow> string \<Rightarrow> machine \<Rightarrow> machine" where
  "log_line d line m = (case m_logFile m of
       None \<Rightarrow> m
     | Some _ \<Rightarrow>
         (case time_Now (d_env d) (m_world m) of (now, w) \<Rightarrow>
            m\<lparr>m_world := w, m_logLines := m_logLines m @ [(now, ''[infisical-ksp] '' @ line)]\<rparr>))"

definition logError :: "dll_env \<Rightarrow> string \<Rightarrow> go_error \<Rightarrow> machine \<Rightarrow> machine" where
  "logError d opn err m =
     (let P = e_Print (d_env d);
          m = log_line d (''ERROR '' @ opn @ '': '' @ error_text P err) m;
          hint = adviceForError P err
      in if hint \<noteq> [] then log_line d (''HINT  '' @ opn @ '': '' @ hint) m else m)"

section \<open>The handle registry\<close>

definition registerHandle :: "gobject \<Rightarrow> machine \<Rightarrow> u64 \<times> machine" where
  "registerHandle v m =
     (let h = m_nextHandle m in
      (h, m\<lparr>m_nextHandle := m_nextHandle m + 1, m_handles := (m_handles m)(h \<mapsto> v)\<rparr>))"

definition lookupHandle :: "u64 \<Rightarrow> machine \<Rightarrow> gobject option" where
  "lookupHandle h m = m_handles m h"

definition freeHandle :: "u64 \<Rightarrow> machine \<Rightarrow> machine" where
  "freeHandle h m = m\<lparr>m_handles := (m_handles m)(h := None)\<rparr>"

definition keyByHandle :: "u64 \<Rightarrow> machine \<Rightarrow> key_state result" where
  "keyByHandle h m = (case lookupHandle h m of
       Some (KeyObj ks) \<Rightarrow> Inr ks
     | _ \<Rightarrow> Inl BadHandle)"

section \<open>Operations\<close>

definition openProvider :: "dll_env \<Rightarrow> machine \<Rightarrow> u64 result \<times> machine" where
  "openProvider d m =
     (case LoadConfig (e_OS (d_env d)) of
        Inl err \<Rightarrow> (Inl err, setupLogging d (DefaultLogPath (e_OS (d_env d))) m)
      | Inr cfg \<Rightarrow>
          (let m1 = setupLogging d (LogFile cfg) m in
           case NewSession (d_env d) cfg of
             Inl err \<Rightarrow> (Inl err, m1)
           | Inr s \<Rightarrow>
               (case registerHandle (ProviderObj (length (m_heap m1))) (m1\<lparr>m_heap := m_heap m1 @ [s]\<rparr>) of
                  (h, m2) \<Rightarrow> (Inr h, m2))))"

text \<open>A method of the session at an address.\<close>

definition on_session :: "nat \<Rightarrow> 'a sop \<Rightarrow> machine \<Rightarrow> 'a result \<times> machine" where
  "on_session a f m =
     (case f (m_heap m ! a) (m_world m) of
        (r, s, w) \<Rightarrow> (r, m\<lparr>m_heap := (m_heap m)[a := s], m_world := w\<rparr>))"

definition make_key :: "nat \<Rightarrow> signer \<Rightarrow> public_key \<Rightarrow> key_state result" where
  "make_key a sg pub =
     (let ks = \<lparr>ks_prov = a, ks_signer = sg, ks_pub = pub, ks_keyType = KeyRSA, ks_curveBits = 0\<rparr> in
      case pub of
        RSAPublicKey _ \<Rightarrow> Inr (ks\<lparr>ks_keyType := KeyRSA\<rparr>)
      | ECDSAPublicKey p \<Rightarrow> Inr (ks\<lparr>ks_keyType := KeyECDSA, ks_curveBits := ec_BitSize p\<rparr>)
      | OtherPublicKey t \<Rightarrow> Inl (Errorf ''unsupported key type %T'' [FStr t]))"

definition openKey :: "dll_env \<Rightarrow> u64 \<Rightarrow> string \<Rightarrow> machine \<Rightarrow> u64 result \<times> machine" where
  "openKey d provHandle name m =
     (case lookupHandle provHandle m of
        Some (ProviderObj a) \<Rightarrow>
          (case on_session a (FindSigner (d_env d) name) m of
             (Inl err, m1) \<Rightarrow> (Inl err, m1)
           | (Inr sg, m1) \<Rightarrow>
               (case on_session a (PublicKey (d_env d) (sg_ID sg)) m1 of
                  (Inl err, m2) \<Rightarrow> (Inl err, m2)
                | (Inr pub, m2) \<Rightarrow>
                    (case make_key a sg pub of
                       Inl err \<Rightarrow> (Inl err, m2)
                     | Inr ks \<Rightarrow>
                         (case registerHandle (KeyObj ks) m2 of (h, m3) \<Rightarrow> (Inr h, m3)))))
      | _ \<Rightarrow> (Inl BadHandle, m))"

definition exportPublicBlob :: "key_state \<Rightarrow> bytes result" where
  "exportPublicBlob ks = (case ks_pub ks of
       RSAPublicKey p \<Rightarrow> Inr (RSAPublicBlob p)
     | ECDSAPublicKey p \<Rightarrow> ECCPublicBlob p
     | OtherPublicKey t \<Rightarrow> Inl (Errorf ''unsupported key type %T'' [FStr t]))"

definition signHash ::
    "dll_env \<Rightarrow> key_state \<Rightarrow> Padding \<Rightarrow> string \<Rightarrow> bytes \<Rightarrow> machine \<Rightarrow> bytes result \<times> machine" where
  "signHash d ks padding hashName digest m =
     (case Algorithm (e_Upper (d_env d)) (ks_keyType ks) padding hashName of
        Inl err \<Rightarrow> (Inl err, m)
      | Inr algorithm \<Rightarrow>
          (case on_session (ks_prov ks)
                  (Session_Sign (d_env d) (sg_ID (ks_signer ks)) algorithm digest) m of
             (Inl err, m1) \<Rightarrow> (Inl err, m1)
           | (Inr sig, m1) \<Rightarrow>
               (if ks_keyType ks = KeyECDSA then ECDSADERToRaw sig (ks_curveBits ks) else Inr sig, m1)))"

definition keyLengthBits :: "key_state \<Rightarrow> nat" where
  "keyLengthBits ks = (case ks_pub ks of
       RSAPublicKey p \<Rightarrow> BitLen (rsa_N p)
     | ECDSAPublicKey p \<Rightarrow> ec_BitSize p
     | OtherPublicKey _ \<Rightarrow> 0)"

definition algorithmGroup :: "key_state \<Rightarrow> string" where
  "algorithmGroup ks = (if ks_keyType ks = KeyRSA then ''RSA'' else ''ECDSA'')"

section \<open>Key properties\<close>

definition ncryptAllowSigningFlag :: u32 where "ncryptAllowSigningFlag = 0x00000001"

definition algorithmName :: "key_state \<Rightarrow> string" where
  "algorithmName ks =
     (if algorithmGroup ks = ''RSA'' then ''RSA''
      else if ks_curveBits ks = 256 then ''ECDSA_P256''
      else if ks_curveBits ks = 384 then ''ECDSA_P384''
      else if ks_curveBits ks = 521 then ''ECDSA_P521''
      else ''ECDSA'')"

definition utf16z :: "dll_env \<Rightarrow> string \<Rightarrow> bytes" where
  "utf16z d s = (case d_UTF16FromString d s of
       None \<Rightarrow> []
     | Some u \<Rightarrow> concat (map le16 u))"

definition dwordLE :: "u32 \<Rightarrow> bytes" where
  "dwordLE v = le32 v"

definition keyProperty :: "dll_env \<Rightarrow> key_state \<Rightarrow> string \<Rightarrow> bytes option" where
  "keyProperty d ks name =
     (if name = ''Algorithm Group'' then Some (utf16z d (algorithmGroup ks))
      else if name = ''Algorithm Name'' then Some (utf16z d (algorithmName ks))
      else if name = ''Length'' then Some (dwordLE (of_nat (keyLengthBits ks)))
      else if name = ''Export Policy'' then Some (dwordLE 0)
      else if name = ''Key Usage'' then Some (dwordLE ncryptAllowSigningFlag)
      else None)"

section \<open>What is well formed\<close>

text \<open>Addresses point into the heap, the type and curve of a key agree with its public key, and
  every session runs on a validated configuration.\<close>

definition key_ok :: "machine \<Rightarrow> key_state \<Rightarrow> bool" where
  "key_ok m ks \<longleftrightarrow> ks_prov ks < length (m_heap m) \<and>
     (case ks_pub ks of
        RSAPublicKey _ \<Rightarrow> ks_keyType ks = KeyRSA
      | ECDSAPublicKey p \<Rightarrow> ks_keyType ks = KeyECDSA \<and> ks_curveBits ks = ec_BitSize p
      | OtherPublicKey _ \<Rightarrow> False)"

definition object_ok :: "machine \<Rightarrow> gobject \<Rightarrow> bool" where
  "object_ok m v = (case v of ProviderObj a \<Rightarrow> a < length (m_heap m) | KeyObj ks \<Rightarrow> key_ok m ks)"

definition machine_ok :: "machine \<Rightarrow> bool" where
  "machine_ok m \<longleftrightarrow> (\<forall>h v. m_handles m h = Some v \<longrightarrow> object_ok m v)
     \<and> (\<forall>s\<in>set (m_heap m). good_config (s_cfg s))"

lemma machine_ok_loaded: "machine_ok loaded"
  by (simp add: machine_ok_def loaded_def)

lemma object_ok_heap: "length (m_heap m) \<le> length (m_heap m') \<Longrightarrow> object_ok m v \<Longrightarrow> object_ok m' v"
  by (auto simp: object_ok_def key_ok_def split: gobject.splits)

lemma machine_okD:
  "machine_ok m \<Longrightarrow> m_handles m h = Some v \<Longrightarrow> object_ok m v"
  "machine_ok m \<Longrightarrow> a < length (m_heap m) \<Longrightarrow> good_config (s_cfg (m_heap m ! a))"
  by (simp_all add: machine_ok_def)

lemma keyByHandle_Inr:
  "keyByHandle h m = Inr ks \<longleftrightarrow> m_handles m h = Some (KeyObj ks)"
  by (auto simp: keyByHandle_def lookupHandle_def split: option.splits gobject.splits)

lemma keyByHandle_Inl: "keyByHandle h m = Inl err \<Longrightarrow> err = BadHandle"
  by (auto simp: keyByHandle_def split: option.splits gobject.splits)

section \<open>Frames\<close>

text \<open>What the log never touches.\<close>

definition same_but_log :: "machine \<Rightarrow> machine \<Rightarrow> bool" where
  "same_but_log m m' \<longleftrightarrow> m_heap m' = m_heap m \<and> m_handles m' = m_handles m
     \<and> m_nextHandle m' = m_nextHandle m \<and> w_sent (m_world m') = w_sent (m_world m)
     \<and> w_authFail (m_world m') = w_authFail (m_world m)
     \<and> w_signingCtx (m_world m') = w_signingCtx (m_world m)
     \<and> w_ticks (m_world m) \<le> w_ticks (m_world m')
     \<and> prefix (m_logLines m) (m_logLines m')"

lemma same_but_log_refl [simp]: "same_but_log m m"
  by (simp add: same_but_log_def)

lemma same_but_log_trans: "same_but_log a b \<Longrightarrow> same_but_log b c \<Longrightarrow> same_but_log a c"
  unfolding same_but_log_def by (metis le_trans prefix_order.trans)

lemma same_but_log_setup [frame]: "same_but_log m (setupLogging d f m)"
  by (simp add: setupLogging_def same_but_log_def Let_def)

lemma same_but_log_line: "same_but_log m (log_line d l m)"
  by (simp add: log_line_def same_but_log_def time_Now_tick split: option.split)

lemma same_but_log_error [frame]: "same_but_log m (logError d opn err m)"
  using same_but_log_trans[OF same_but_log_line same_but_log_line] same_but_log_line
  by (simp add: logError_def Let_def)

lemma same_but_log_ok: "same_but_log m m' \<Longrightarrow> machine_ok m \<Longrightarrow> machine_ok m'"
  by (auto simp: machine_ok_def same_but_log_def object_ok_def key_ok_def split: gobject.splits)

lemma on_session_frame [frame]:
  "length (m_heap (snd (on_session a f m))) = length (m_heap m)"
  "m_handles (snd (on_session a f m)) = m_handles m"
  "m_nextHandle (snd (on_session a f m)) = m_nextHandle m"
  "m_logDone (snd (on_session a f m)) = m_logDone m"
  "m_logFile (snd (on_session a f m)) = m_logFile m"
  "m_logLines (snd (on_session a f m)) = m_logLines m"
  "m_world (snd (on_session a f m)) = w_after (f (m_heap m ! a) (m_world m))"
  "fst (on_session a f m) = fst (f (m_heap m ! a) (m_world m))"
  by (simp_all add: on_session_def split: prod.split)

lemma on_session_heap:
  "m_heap (snd (on_session a f m)) = (m_heap m)[a := s_after (f (m_heap m ! a) (m_world m))]"
  by (simp add: on_session_def split: prod.split)

lemma on_session_ok:
  assumes "machine_ok m" "\<And>s w. same_setup s (s_after (f s w))"
  shows "machine_ok (snd (on_session a f m))"
proof -
  have "good_config (s_cfg s)" if "s \<in> set (m_heap (snd (on_session a f m)))" for s
  proof (cases "a < length (m_heap m)")
    case True
    with that have "s \<in> set (m_heap m) \<or> s = s_after (f (m_heap m ! a) (m_world m))"
      unfolding on_session_heap using set_update_subset_insert by fastforce
    then show ?thesis
      using assms machine_okD(2)[OF assms(1) True] by (auto simp: machine_ok_def same_setup_def)
  next
    case False
    with that assms(1) show ?thesis
      by (simp add: on_session_heap machine_ok_def list_update_beyond)
  qed
  moreover have "object_ok (snd (on_session a f m)) v" if "m_handles m h = Some v" for h v
    using machine_okD(1)[OF assms(1) that] by (rule object_ok_heap[rotated]) (simp add: frame)
  ultimately show ?thesis by (simp add: machine_ok_def frame)
qed

lemma registerHandle_simps [simp]:
  "fst (registerHandle v m) = m_nextHandle m"
  "m_handles (snd (registerHandle v m)) = (m_handles m)(m_nextHandle m \<mapsto> v)"
  "m_nextHandle (snd (registerHandle v m)) = m_nextHandle m + 1"
  "m_heap (snd (registerHandle v m)) = m_heap m"
  "m_world (snd (registerHandle v m)) = m_world m"
  by (simp_all add: registerHandle_def Let_def)

lemma registerHandle_ok: "machine_ok m \<Longrightarrow> object_ok m v \<Longrightarrow> machine_ok (snd (registerHandle v m))"
  by (auto simp: machine_ok_def object_ok_def key_ok_def split: gobject.splits if_splits)

lemma freeHandle_ok: "machine_ok m \<Longrightarrow> machine_ok (freeHandle h m)"
  by (auto simp: machine_ok_def freeHandle_def object_ok_def key_ok_def split: gobject.splits if_splits)

section \<open>Every operation keeps the machine well formed\<close>

lemma make_key_ok:
  "make_key a sg pub = Inr ks \<Longrightarrow> a < length (m_heap m) \<Longrightarrow> key_ok m ks"
  by (auto simp: make_key_def key_ok_def Let_def split: public_key.splits)

lemma NewSession_cfg: "NewSession e cfg = Inr s \<Longrightarrow> s_cfg s = cfg"
  by (auto simp: NewSession_def split: sum.splits)

lemma LoadConfig_good: "LoadConfig os = Inr cfg \<Longrightarrow> good_config cfg"
  using loadConfigFrom_Inr finish_config_Inr by (fastforce simp: LoadConfig_def)

lemma openProvider_ok: "machine_ok m \<Longrightarrow> machine_ok (snd (openProvider d m))"
proof -
  assume ok: "machine_ok m"
  have log: "machine_ok (setupLogging d f m)" for f
    using same_but_log_ok[OF same_but_log_setup ok] .
  have "machine_ok (snd (registerHandle (ProviderObj (length (m_heap m1))) (m1\<lparr>m_heap := m_heap m1 @ [s]\<rparr>)))"
    if "machine_ok m1" "good_config (s_cfg s)" for m1 s
  proof (rule registerHandle_ok)
    show "machine_ok (m1\<lparr>m_heap := m_heap m1 @ [s]\<rparr>)"
      using that object_ok_heap[of m1 "m1\<lparr>m_heap := m_heap m1 @ [s]\<rparr>"] by (auto simp: machine_ok_def)
    show "object_ok (m1\<lparr>m_heap := m_heap m1 @ [s]\<rparr>) (ProviderObj (length (m_heap m1)))"
      by (simp add: object_ok_def)
  qed
  then show ?thesis
    using log LoadConfig_good[of "e_OS (d_env d)"] NewSession_cfg[of "d_env d"]
    by (auto simp: openProvider_def Let_def case_prod_beta split: sum.split)
qed

lemma openKey_ok: "machine_ok m \<Longrightarrow> machine_ok (snd (openKey d h n m))"
proof -
  assume ok: "machine_ok m"
  have fs: "machine_ok (snd (on_session a (FindSigner (d_env d) n) m))" for a
    by (rule on_session_ok[OF ok]) (rule same_setup_ops)
  have pk: "machine_ok (snd (on_session b (PublicKey (d_env d) i) (snd (on_session a (FindSigner (d_env d) n) m))))"
    for a b i
    by (rule on_session_ok[OF fs]) (rule same_setup_ops)
  have "a < length (m_heap m)" if "m_handles m h = Some (ProviderObj a)" for a
    using machine_okD(1)[OF ok that] by (simp add: object_ok_def)
  then show ?thesis
    using ok fs pk
    by (auto simp: openKey_def lookupHandle_def case_prod_beta frame object_ok_def
        intro!: registerHandle_ok make_key_ok split: option.split gobject.split sum.split)
qed

lemma signHash_ok: "machine_ok m \<Longrightarrow> machine_ok (snd (signHash d ks p h dig m))"
  using on_session_ok[of m "Session_Sign e i alg dig" a for e i alg a]
  by (auto simp: signHash_def case_prod_beta frame split: sum.split)

end
