(* ===== verification/Bridge.thy ===== *)
theory Bridge
  imports Provider
begin

text \<open>
  \<^verbatim>\<open>cmd/ksp/bridge_windows.go\<close> and the C functions of \<^verbatim>\<open>bridge_windows.c\<close> that call it: the
  marshalling between the host and the provider, and the machine as the host drives it.
\<close>

unbundle bit_operations_syntax

section \<open>The exported Go functions\<close>

definition bcryptPadPKCS1 :: u32 where "bcryptPadPKCS1 = 0x00000002"
definition bcryptPadPSS :: u32 where "bcryptPadPSS = 0x00000008"

text \<open>An LPCWSTR is \<^verbatim>\<open>NULL\<close> or the UTF-16 units up to the terminator.\<close>

type_synonym wstr = "u16 list option"

definition utf16PtrToString :: "dll_env \<Rightarrow> wstr \<Rightarrow> string" where
  "utf16PtrToString d p = (case p of None \<Rightarrow> [] | Some u \<Rightarrow> d_UTF16ToString d u)"

text \<open>\<^verbatim>\<open>C.int\<close> of a length.\<close>

definition i32 :: "int \<Rightarrow> int" where
  "i32 x = (x + 2 ^ 31) mod 2 ^ 32 - 2 ^ 31"

lemma i32_id [simp]: "- (2 ^ 31) \<le> x \<Longrightarrow> x < 2 ^ 31 \<Longrightarrow> i32 x = x"
  by (simp add: i32_def)

definition cBytes :: "bytes \<Rightarrow> bytes option \<times> int" where
  "cBytes b = (if b = [] then (None, 0) else (Some b, i32 (int (length b))))"

definition GoOpenProvider :: "dll_env \<Rightarrow> machine \<Rightarrow> (u64 \<times> u32) \<times> machine" where
  "GoOpenProvider d m = (case openProvider d m of
       (Inl err, m1) \<Rightarrow> ((0, statusFromError err), logError d ''OpenProvider'' err m1)
     | (Inr h, m1) \<Rightarrow> ((h, statusSuccess), m1))"

definition GoOpenKey :: "dll_env \<Rightarrow> u64 \<Rightarrow> wstr \<Rightarrow> machine \<Rightarrow> (u64 \<times> u32) \<times> machine" where
  "GoOpenKey d prov name m =
     (let keyName = utf16PtrToString d name in
      case openKey d prov keyName m of
        (Inl err, m1) \<Rightarrow> ((0, statusFromError err), logError d (''OpenKey('' @ keyName @ '')'') err m1)
      | (Inr h, m1) \<Rightarrow> ((h, statusSuccess), m1))"

definition GoFreeHandle :: "u64 \<Rightarrow> machine \<Rightarrow> machine" where
  "GoFreeHandle h m = freeHandle h m"

definition GoSignatureMaxSize :: "u64 \<Rightarrow> machine \<Rightarrow> u32 \<times> u32" where
  "GoSignatureMaxSize key m = (case keyByHandle key m of
       Inl _ \<Rightarrow> (0, statusInvalidParameter)
     | Inr ks \<Rightarrow>
         (let bits = keyLengthBits ks; sz = (bits + 7) div 8;
              sz = (if ks_keyType ks = KeyECDSA then sz * 2 else sz)
          in (of_nat sz, statusSuccess)))"

text \<open>\<open>pPaddingInfo\<close>: \<^verbatim>\<open>NULL\<close>, or a structure that starts with an LPCWSTR.\<close>

definition readPaddingHashID :: "dll_env \<Rightarrow> wstr option \<Rightarrow> string" where
  "readPaddingHashID d p = (case p of None \<Rightarrow> [] | Some algIDPtr \<Rightarrow> utf16PtrToString d algIDPtr)"

text \<open>The padding and hash a request asks for.\<close>

definition requested_padding ::
    "dll_env \<Rightarrow> u32 \<Rightarrow> wstr option \<Rightarrow> bytes \<Rightarrow> (Padding \<times> string) result" where
  "requested_padding d dwFlags pPaddingInfo digest =
     (if dwFlags AND bcryptPadPKCS1 \<noteq> 0 then Inr (PaddingPKCS1, readPaddingHashID d pPaddingInfo)
      else if dwFlags AND bcryptPadPSS \<noteq> 0 then Inr (PaddingPSS, readPaddingHashID d pPaddingInfo)
      else case HashFromDigestLen (int (length digest)) of
          Inl herr \<Rightarrow> Inl herr
        | Inr h \<Rightarrow> Inr (PaddingNone, h))"

text \<open>\<open>None\<close> is a Go panic, which ends the host process: \<^verbatim>\<open>C.GoBytes\<close> panics when the length is
  negative as a \<^verbatim>\<open>C.int\<close>. The \<open>cbInput\<close> bytes at \<open>pbInput\<close> are given as the list \<open>digest\<close>.\<close>

definition GoSignHash ::
    "dll_env \<Rightarrow> u64 \<Rightarrow> u32 \<Rightarrow> wstr option \<Rightarrow> bytes \<Rightarrow> machine
     \<Rightarrow> ((bytes option \<times> int \<times> u32) \<times> machine) option" where
  "GoSignHash d key dwFlags pPaddingInfo digest m =
     (case keyByHandle key m of
        Inl _ \<Rightarrow> Some ((None, 0, statusInvalidParameter), m)
      | Inr ks \<Rightarrow>
          if i32 (int (length digest)) < 0 then None
          else (case requested_padding d dwFlags pPaddingInfo digest of
              Inl herr \<Rightarrow> Some ((None, 0, statusInvalidParameter), logError d ''SignHash'' herr m)
            | Inr (padding, hashName) \<Rightarrow>
                (case signHash d ks padding hashName digest m of
                   (Inl err, m1) \<Rightarrow> Some ((None, 0, statusFromError err), logError d ''SignHash'' err m1)
                 | (Inr sig, m1) \<Rightarrow>
                     (case cBytes sig of (ptr, n) \<Rightarrow> Some ((ptr, n, statusSuccess), m1)))))"

definition GoExportKey :: "dll_env \<Rightarrow> u64 \<Rightarrow> machine \<Rightarrow> (bytes option \<times> int \<times> u32) \<times> machine" where
  "GoExportKey d key m =
     (case keyByHandle key m of
        Inl _ \<Rightarrow> ((None, 0, statusInvalidParameter), m)
      | Inr ks \<Rightarrow>
          (case exportPublicBlob ks of
             Inl err \<Rightarrow> ((None, 0, statusFromError err), logError d ''ExportKey'' err m)
           | Inr blob \<Rightarrow> (case cBytes blob of (ptr, n) \<Rightarrow> ((ptr, n, statusSuccess), m))))"

definition GoGetKeyProperty :: "dll_env \<Rightarrow> u64 \<Rightarrow> wstr \<Rightarrow> machine \<Rightarrow> bytes option \<times> int \<times> u32" where
  "GoGetKeyProperty d key prop m =
     (case keyByHandle key m of
        Inl _ \<Rightarrow> (None, 0, statusInvalidParameter)
      | Inr ks \<Rightarrow>
          (case keyProperty d ks (utf16PtrToString d prop) of
             None \<Rightarrow> (None, 0, statusNotSupported)
           | Some v \<Rightarrow> (case cBytes v of (ptr, n) \<Rightarrow> (ptr, n, statusSuccess))))"

section \<open>The C side\<close>

definition NTE_BUFFER_TOO_SMALL :: u32 where "NTE_BUFFER_TOO_SMALL = 0x80090028"
definition NTE_NOT_SUPPORTED :: u32 where "NTE_NOT_SUPPORTED = 0x80090029"
definition ERROR_SUCCESS :: u32 where "ERROR_SUCCESS = 0"

text \<open>What a function writes: its status, the memory at \<open>pbOutput\<close> afterwards (\<open>None\<close> for
  \<^verbatim>\<open>NULL\<close>), and the value stored at \<open>pcbResult\<close>, if any.\<close>

record c_result =
  c_status :: u32
  c_memory :: "bytes option"
  c_cbResult :: "u32 option"

text \<open>\<open>None\<close> is a copy outside the two objects, after which nothing can be said of the process; a
  negative length becomes a \<^verbatim>\<open>size_t\<close> larger than any object.\<close>

definition memcpy :: "bytes \<Rightarrow> bytes \<Rightarrow> int \<Rightarrow> bytes option" where
  "memcpy dst src len =
     (if len < 0 \<or> length src < nat len \<or> length dst < nat len then None
      else Some (take (nat len) src @ drop (nat len) dst))"

definition copyOut :: "bytes option \<Rightarrow> int \<Rightarrow> bytes option \<Rightarrow> u32 \<Rightarrow> bool \<Rightarrow> c_result option" where
  "copyOut data len pbOutput cbOutput pcbResult =
     (let written = (if pcbResult then Some (word_of_int len) else None)
      in case pbOutput of
          None \<Rightarrow> Some \<lparr>c_status = ERROR_SUCCESS, c_memory = None, c_cbResult = written\<rparr>
        | Some mem \<Rightarrow>
            if cbOutput < word_of_int len
            then Some \<lparr>c_status = NTE_BUFFER_TOO_SMALL, c_memory = Some mem, c_cbResult = written\<rparr>
            else map_option (\<lambda>mem'. \<lparr>c_status = ERROR_SUCCESS, c_memory = Some mem', c_cbResult = written\<rparr>)
                   (memcpy mem (case data of None \<Rightarrow> [] | Some b \<Rightarrow> b) len))"

text \<open>A failure before anything is written.\<close>

definition c_fail :: "u32 \<Rightarrow> bytes option \<Rightarrow> c_result" where
  "c_fail st mem = \<lparr>c_status = st, c_memory = mem, c_cbResult = None\<rparr>"

definition ksp_OpenProvider :: "dll_env \<Rightarrow> machine \<Rightarrow> (u32 \<times> u64 option) \<times> machine" where
  "ksp_OpenProvider d m = (case GoOpenProvider d m of
       ((h, st), m1) \<Rightarrow> (if st \<noteq> 0 then (st, None) else (ERROR_SUCCESS, Some h), m1))"

definition ksp_OpenKey :: "dll_env \<Rightarrow> u64 \<Rightarrow> wstr \<Rightarrow> machine \<Rightarrow> (u32 \<times> u64 option) \<times> machine" where
  "ksp_OpenKey d hProvider pszKeyName m = (case GoOpenKey d hProvider pszKeyName m of
       ((h, st), m1) \<Rightarrow> (if st \<noteq> 0 then (st, None) else (ERROR_SUCCESS, Some h), m1))"

definition ksp_GetKeyProperty ::
    "dll_env \<Rightarrow> u64 \<Rightarrow> wstr \<Rightarrow> bytes option \<Rightarrow> u32 \<Rightarrow> bool \<Rightarrow> machine \<Rightarrow> c_result option" where
  "ksp_GetKeyProperty d hKey pszProperty pbOutput cbOutput pcbResult m =
     (case GoGetKeyProperty d hKey pszProperty m of (ptr, n, st) \<Rightarrow>
        if st \<noteq> 0 then Some (c_fail st pbOutput) else copyOut ptr n pbOutput cbOutput pcbResult)"

definition wide :: "string \<Rightarrow> u16 list" where
  "wide s = map (\<lambda>c. of_nat (byte c)) s"

definition ksp_ExportKey ::
    "dll_env \<Rightarrow> u64 \<Rightarrow> u16 list \<Rightarrow> bytes option \<Rightarrow> u32 \<Rightarrow> bool \<Rightarrow> machine
     \<Rightarrow> (c_result \<times> machine) option" where
  "ksp_ExportKey d hKey pszBlobType pbOutput cbOutput pcbResult m =
     (if pszBlobType \<noteq> wide ''RSAPUBLICBLOB'' \<and> pszBlobType \<noteq> wide ''ECCPUBLICBLOB''
         \<and> pszBlobType \<noteq> wide ''PUBLICBLOB''
      then Some (c_fail NTE_NOT_SUPPORTED pbOutput, m)
      else case GoExportKey d hKey m of ((ptr, n, st), m1) \<Rightarrow>
        if st \<noteq> 0 then Some (c_fail st pbOutput, m1)
        else map_option (\<lambda>r. (r, m1)) (copyOut ptr n pbOutput cbOutput pcbResult))"

definition ksp_SignHash ::
    "dll_env \<Rightarrow> u64 \<Rightarrow> wstr option \<Rightarrow> bytes \<Rightarrow> bytes option \<Rightarrow> u32 \<Rightarrow> bool \<Rightarrow> u32 \<Rightarrow> machine
     \<Rightarrow> (c_result \<times> machine) option" where
  "ksp_SignHash d hKey pPaddingInfo hash pbSignature cbSignature pcbResult dwFlags m =
     (if pbSignature = None
      then (case GoSignatureMaxSize hKey m of (sz, st) \<Rightarrow>
              Some (if st \<noteq> 0 then c_fail st None
                    else \<lparr>c_status = ERROR_SUCCESS, c_memory = None,
                          c_cbResult = (if pcbResult then Some sz else None)\<rparr>, m))
      else (case GoSignHash d hKey dwFlags pPaddingInfo hash m of
              None \<Rightarrow> None
            | Some ((ptr, n, st), m1) \<Rightarrow>
                (if st \<noteq> 0 then Some (c_fail st pbSignature, m1)
                 else map_option (\<lambda>r. (r, m1)) (copyOut ptr n pbSignature cbSignature pcbResult))))"

definition ksp_FreeProvider :: "u64 \<Rightarrow> machine \<Rightarrow> u32 \<times> machine" where
  "ksp_FreeProvider hProvider m = (ERROR_SUCCESS, GoFreeHandle hProvider m)"

definition ksp_FreeKey :: "u64 \<Rightarrow> machine \<Rightarrow> u32 \<times> machine" where
  "ksp_FreeKey hKey m = (ERROR_SUCCESS, GoFreeHandle hKey m)"

definition ksp_FreeBuffer :: u32 where
  "ksp_FreeBuffer = ERROR_SUCCESS"

text \<open>The functions that only say that they are not supported; none reads an argument or writes.\<close>

datatype unsupported_fn =
    CreatePersistedKey | GetProviderProperty | SetProviderProperty | SetKeyProperty |
  FinalizeKey | DeleteKey | Encrypt | Decrypt | IsAlgSupported | EnumAlgorithms | EnumKeys |
  ImportKey | VerifySignature | PromptUser | NotifyChangeKey | SecretAgreement | DeriveKey |
  FreeSecret

definition ksp_unsupported :: "unsupported_fn \<Rightarrow> u32" where
  "ksp_unsupported f = NTE_NOT_SUPPORTED"

text \<open>The function table in the order of its fields, and the export by which CNG gets it.\<close>

datatype table_entry =
    Entry_OpenProvider | Entry_OpenKey | Entry_GetKeyProperty | Entry_ExportKey | Entry_SignHash
  | Entry_FreeProvider | Entry_FreeKey | Entry_FreeBuffer | Entry_Unsupported unsupported_fn

definition g_FunctionTable :: "table_entry list" where
  "g_FunctionTable =
     [Entry_OpenProvider, Entry_OpenKey, Entry_Unsupported CreatePersistedKey, Entry_Unsupported
      GetProviderProperty, Entry_GetKeyProperty, Entry_Unsupported SetProviderProperty,
      Entry_Unsupported SetKeyProperty, Entry_Unsupported FinalizeKey, Entry_Unsupported
      DeleteKey, Entry_FreeProvider, Entry_FreeKey, Entry_FreeBuffer, Entry_Unsupported Encrypt,
      Entry_Unsupported Decrypt, Entry_Unsupported IsAlgSupported, Entry_Unsupported
      EnumAlgorithms, Entry_Unsupported EnumKeys, Entry_Unsupported ImportKey, Entry_ExportKey,
      Entry_SignHash, Entry_Unsupported VerifySignature, Entry_Unsupported PromptUser,
      Entry_Unsupported NotifyChangeKey, Entry_Unsupported SecretAgreement, Entry_Unsupported
      DeriveKey, Entry_Unsupported FreeSecret]"

definition GetKeyStorageInterface :: "wstr \<Rightarrow> u32 \<Rightarrow> u32 \<times> table_entry list" where
  "GetKeyStorageInterface pszProviderName dwFlags = (ERROR_SUCCESS, g_FunctionTable)"

section \<open>The machine the host drives\<close>

text \<open>One constructor per entry of the function table that does something, and one for the entries
  that return \<open>NTE_NOT_SUPPORTED\<close>.\<close>

datatype host_call =
    OpenProvider
  | OpenKey u64 wstr
  | GetKeyProperty u64 wstr "bytes option" u32 bool
  | ExportKey u64 "u16 list" "bytes option" u32 bool
  | SignHash u64 "wstr option" bytes "bytes option" u32 bool u32
  | FreeProvider u64
  | FreeKey u64
  | FreeBuffer
  | Unsupported unsupported_fn

datatype reply = Opened u32 "u64 option" | Output c_result | Done u32

fun host_step :: "dll_env \<Rightarrow> host_call \<Rightarrow> machine \<Rightarrow> (reply \<times> machine) option" where
  "host_step d OpenProvider m =
     (case ksp_OpenProvider d m of ((st, h), m1) \<Rightarrow> Some (Opened st h, m1))"
| "host_step d (OpenKey p n) m =
     (case ksp_OpenKey d p n m of ((st, h), m1) \<Rightarrow> Some (Opened st h, m1))"
| "host_step d (GetKeyProperty k p out cb pcb) m =
     map_option (\<lambda>r. (Output r, m)) (ksp_GetKeyProperty d k p out cb pcb m)"
| "host_step d (ExportKey k b out cb pcb) m =
     map_option (\<lambda>(r, m1). (Output r, m1)) (ksp_ExportKey d k b out cb pcb m)"
| "host_step d (SignHash k pad hash out cb pcb fl) m =
     map_option (\<lambda>(r, m1). (Output r, m1)) (ksp_SignHash d k pad hash out cb pcb fl m)"
| "host_step d (FreeProvider h) m = (case ksp_FreeProvider h m of (st, m1) \<Rightarrow> Some (Done st, m1))"
| "host_step d (FreeKey h) m = (case ksp_FreeKey h m of (st, m1) \<Rightarrow> Some (Done st, m1))"
| "host_step d FreeBuffer m = Some (Done ksp_FreeBuffer, m)"
| "host_step d (Unsupported f) m = Some (Done (ksp_unsupported f), m)"

text \<open>The entry a call goes through.\<close>

fun entry_of :: "host_call \<Rightarrow> table_entry" where
  "entry_of OpenProvider = Entry_OpenProvider"
| "entry_of (OpenKey _ _) = Entry_OpenKey"
| "entry_of (GetKeyProperty _ _ _ _ _) = Entry_GetKeyProperty"
| "entry_of (ExportKey _ _ _ _ _) = Entry_ExportKey"
| "entry_of (SignHash _ _ _ _ _ _ _) = Entry_SignHash"
| "entry_of (FreeProvider _) = Entry_FreeProvider"
| "entry_of (FreeKey _) = Entry_FreeKey"
| "entry_of FreeBuffer = Entry_FreeBuffer"
| "entry_of (Unsupported f) = Entry_Unsupported f"

text \<open>The table has every function of the model, once.\<close>

lemma table_complete:
  "distinct (snd (GetKeyStorageInterface n fl))" "length (snd (GetKeyStorageInterface n fl)) = 26"
  "entry_of c \<in> set (snd (GetKeyStorageInterface n fl))"
proof -
  show "distinct (snd (GetKeyStorageInterface n fl))" "length (snd (GetKeyStorageInterface n fl)) = 26"
    by (simp_all add: GetKeyStorageInterface_def g_FunctionTable_def)
  have "Entry_Unsupported f \<in> set g_FunctionTable" for f
    by (cases f) (simp_all add: g_FunctionTable_def)
  then show "entry_of c \<in> set (snd (GetKeyStorageInterface n fl))"
    by (cases c) (simp_all add: GetKeyStorageInterface_def, simp_all add: g_FunctionTable_def)
qed

text \<open>The states the host can bring the process to with n calls; files, environment variables and
  the network may be others at every call.\<close>

inductive reached :: "nat \<Rightarrow> machine \<Rightarrow> bool" where
  start: "reached 0 loaded"
| call: "reached n m \<Longrightarrow> host_step d c m = Some (r, m') \<Longrightarrow> reached (Suc n) m'"

inductive_cases reached_0E: "reached 0 m"
inductive_cases reached_SucE: "reached (Suc n) m"

text \<open>The machine after a call; one that takes the process down changes nothing any more.\<close>

definition serve :: "dll_env \<Rightarrow> host_call \<Rightarrow> machine \<Rightarrow> machine" where
  "serve d c m = (case host_step d c m of None \<Rightarrow> m | Some (_, m') \<Rightarrow> m')"

end
