(* ===== verification/HostCalls.thy ===== *)
theory HostCalls
  imports Bridge
begin

text \<open>
  What holds of the machine whatever the host calls, and in whatever order: well-formedness, a
  request log that only grows, handles that are fresh and never come back, buffers that are never
  overrun, and a sizing call that predicts the signature.
\<close>

section \<open>Status codes tell failure\<close>

lemma statusFromError_failure: "statusFromError err \<noteq> 0"
  by (simp add: statusFromError_def status_defs split: option.split)

lemma status_failure [simp]:
  "statusInvalidParameter \<noteq> 0" "statusNotSupported \<noteq> 0" "statusSuccess = 0" "ERROR_SUCCESS = 0"
  by (simp_all add: status_defs ERROR_SUCCESS_def)

section \<open>Well-formedness along every call\<close>

lemma log_ok: "machine_ok m \<Longrightarrow> machine_ok (logError d opn err m)"
  by (rule same_but_log_ok[OF same_but_log_error])

lemma GoOpenProvider_ok: "machine_ok m \<Longrightarrow> machine_ok (snd (GoOpenProvider d m))"
  using openProvider_ok[of m d] by (auto simp: GoOpenProvider_def intro: log_ok split: prod.split sum.split)

lemma GoOpenKey_ok: "machine_ok m \<Longrightarrow> machine_ok (snd (GoOpenKey d p n m))"
  using openKey_ok[of m d p "utf16PtrToString d n"]
  by (auto simp: GoOpenKey_def Let_def intro: log_ok split: prod.split sum.split)

lemma GoSignHash_ok:
  "machine_ok m \<Longrightarrow> GoSignHash d k fl pad dig m = Some (r, m') \<Longrightarrow> machine_ok m'"
  using signHash_ok[of m d]
  by (auto simp: GoSignHash_def intro: log_ok split: sum.splits if_splits prod.splits)
    (metis snd_conv log_ok)+

lemma GoExportKey_ok: "machine_ok m \<Longrightarrow> machine_ok (snd (GoExportKey d k m))"
  by (auto simp: GoExportKey_def intro: log_ok split: sum.split prod.split)

lemma host_step_ok: "machine_ok m \<Longrightarrow> host_step d c m = Some (r, m') \<Longrightarrow> machine_ok m'"
proof (cases c)
  case OpenProvider
  assume "machine_ok m" "host_step d c m = Some (r, m')"
  with OpenProvider GoOpenProvider_ok[of m d] show ?thesis
    by (auto simp: ksp_OpenProvider_def split: prod.splits if_splits)
next
  case (OpenKey p n)
  assume "machine_ok m" "host_step d c m = Some (r, m')"
  with OpenKey GoOpenKey_ok[of m d p n] show ?thesis
    by (auto simp: ksp_OpenKey_def split: prod.splits if_splits)
next
  case (ExportKey k b out cb pcb)
  assume "machine_ok m" "host_step d c m = Some (r, m')"
  with ExportKey GoExportKey_ok[of m d k] show ?thesis
    by (auto simp: ksp_ExportKey_def split: prod.splits if_splits)
next
  case (SignHash k pad hash out cb pcb fl)
  assume "machine_ok m" "host_step d c m = Some (r, m')"
  with SignHash GoSignHash_ok[of m d k fl pad hash] show ?thesis
    by (auto simp: ksp_SignHash_def split: prod.splits if_splits option.splits)
qed (auto simp: ksp_FreeProvider_def ksp_FreeKey_def GoFreeHandle_def intro: freeHandle_ok)

section \<open>The log of requests\<close>

definition m_grows :: "machine \<Rightarrow> machine \<Rightarrow> bool" where
  "m_grows m m' \<longleftrightarrow> grows (m_world m) (m_world m')"

lemma m_grows_refl [simp]: "m_grows m m"
  by (simp add: m_grows_def)

lemma m_grows_trans: "m_grows a b \<Longrightarrow> m_grows b c \<Longrightarrow> m_grows a c"
  unfolding m_grows_def by (rule grows_trans)

lemma m_grows_log: "same_but_log m m' \<Longrightarrow> m_grows m m'"
  by (simp add: same_but_log_def m_grows_def grows_def)

lemma m_grows_logError: "m_grows m m1 \<Longrightarrow> m_grows m (logError d opn err m1)"
  by (rule m_grows_trans[OF _ m_grows_log[OF same_but_log_error]])

lemma m_grows_on_session:
  "(\<And>s w. grows w (w_after (f s w))) \<Longrightarrow> m_grows m (snd (on_session a f m))"
  by (simp add: m_grows_def frame)

lemma m_grows_register [simp]: "m_grows m m1 \<Longrightarrow> m_grows m (snd (registerHandle v m1))"
  by (simp add: m_grows_def)

lemma m_grows_openProvider: "m_grows m (snd (openProvider d m))"
  using m_grows_log[OF same_but_log_setup, of m d]
  by (auto simp: openProvider_def Let_def case_prod_beta m_grows_def split: sum.split)

lemma m_grows_openKey: "m_grows m (snd (openKey d p n m))"
proof -
  have "m_grows m (snd (on_session a (FindSigner (d_env d) n) m))" for a
    by (rule m_grows_on_session) simp
  moreover have "m_grows m1 (snd (on_session a (PublicKey (d_env d) i) m1))" for m1 a i
    by (rule m_grows_on_session) simp
  ultimately have "m_grows m (snd (on_session b (PublicKey (d_env d) i)
      (snd (on_session a (FindSigner (d_env d) n) m))))" for a b i
    by (rule m_grows_trans)
  then show ?thesis
    using m_grows_on_session[of "FindSigner (d_env d) n" m]
    by (auto simp: openKey_def case_prod_beta split: option.split gobject.split sum.split)
qed

lemma m_grows_signHash: "m_grows m (snd (signHash d ks p h dig m))"
  using m_grows_on_session[of "Session_Sign (d_env d) (sg_ID (ks_signer ks)) alg dig" m for alg]
  by (auto simp: signHash_def case_prod_beta split: sum.split)

lemma m_grows_snd: "p = (a, m') \<Longrightarrow> m_grows m (snd p) \<Longrightarrow> m_grows m m'"
  by simp

lemma m_grows_GoSignHash: "GoSignHash d k fl pad dig m = Some (r, m') \<Longrightarrow> m_grows m m'"
  by (auto simp: GoSignHash_def split: sum.splits if_splits prod.splits
      dest: m_grows_snd[OF _ m_grows_signHash] intro: m_grows_logError)

lemma m_grows_free: "m_grows m (freeHandle h m)"
  by (simp add: m_grows_def freeHandle_def)

lemma host_step_grows: "host_step d c m = Some (r, m') \<Longrightarrow> m_grows m m'"
  by (cases c)
    (auto simp: ksp_OpenProvider_def ksp_OpenKey_def ksp_ExportKey_def ksp_SignHash_def
      ksp_FreeProvider_def ksp_FreeKey_def GoFreeHandle_def GoOpenProvider_def GoOpenKey_def
      GoExportKey_def Let_def m_grows_free
      intro: m_grows_logError
      dest: m_grows_snd[OF _ m_grows_openProvider] m_grows_snd[OF _ m_grows_openKey] m_grows_GoSignHash
      split: prod.splits sum.splits if_splits option.splits)

definition sent_count :: "machine \<Rightarrow> nat" where
  "sent_count m = length (w_sent (m_world m))"

lemma serve_ok: "machine_ok m \<Longrightarrow> machine_ok (serve d c m)"
  by (auto simp: serve_def split: option.split dest: host_step_ok)

lemma serve_grows: "m_grows m (serve d c m)"
  by (auto simp: serve_def split: option.split dest: host_step_grows)

text \<open>The two interfaces of the prelude on the machine: whole histories keep it well formed and
  never retract a request.\<close>

interpretation host: growing_system "\<lambda>(d, c). serve d c" machine_ok sent_count
proof unfold_locales
  fix op :: "dll_env \<times> host_call" and m
  assume "machine_ok m"
  then show "machine_ok ((case op of (d, c) \<Rightarrow> serve d c) m)"
    by (auto intro: serve_ok split: prod.split)
  show "sent_count m \<le> sent_count ((case op of (d, c) \<Rightarrow> serve d c) m)"
    using serve_grows[of m]
    by (auto simp: sent_count_def m_grows_def grows_def prefix_length_le split: prod.split)
qed

section \<open>Handles\<close>

text \<open>A call registers the next handle, or registers none and at most removes some.\<close>

definition handle_move :: "machine \<Rightarrow> machine \<Rightarrow> bool" where
  "handle_move m m' \<longleftrightarrow>
     (m_nextHandle m' = m_nextHandle m \<and> m_handles m' \<subseteq>\<^sub>m m_handles m)
     \<or> (m_nextHandle m' = m_nextHandle m + 1
        \<and> (\<exists>v. m_handles m' = (m_handles m)(m_nextHandle m \<mapsto> v)))"

text \<open>Nothing happened to the registry.\<close>

definition same_handles :: "machine \<Rightarrow> machine \<Rightarrow> bool" where
  "same_handles m m' \<longleftrightarrow> m_nextHandle m' = m_nextHandle m \<and> m_handles m' = m_handles m"

lemma same_handles_refl [simp]: "same_handles m m"
  by (simp add: same_handles_def)

lemma same_handles_log [simp]:
  "same_handles m (setupLogging d f m)" "same_handles m (logError d opn err m1) = same_handles m m1"
  using same_but_log_setup[of m d f] same_but_log_error[of m1 d opn err]
  by (simp_all add: same_handles_def same_but_log_def)

lemma same_handles_on_session [simp]: "same_handles m (snd (on_session a f m1)) = same_handles m m1"
  by (simp add: same_handles_def frame)

lemma handle_move_same [simp]: "same_handles m m' \<Longrightarrow> handle_move m m'"
  by (simp add: same_handles_def handle_move_def)

lemma handle_move_register:
  "same_handles m m1 \<Longrightarrow> handle_move m (snd (registerHandle v m1))"
  by (auto simp: same_handles_def handle_move_def)

text \<open>The outcome of opening: the handle is the next one, and it is live.\<close>

definition opens :: "machine \<Rightarrow> u64 result \<times> machine \<Rightarrow> bool" where
  "opens m p \<longleftrightarrow> (case p of
       (Inl _, m') \<Rightarrow> same_handles m m'
     | (Inr h, m') \<Rightarrow> h = m_nextHandle m \<and> m_nextHandle m' = m_nextHandle m + 1
         \<and> (\<exists>v. m_handles m' = (m_handles m)(h \<mapsto> v)))"

lemma opens_openProvider: "opens m (openProvider d m)"
  using same_handles_log(1)[of m d]
  by (auto simp: opens_def openProvider_def Let_def case_prod_beta same_handles_def split: sum.split)

lemma opens_openKey: "opens m (openKey d p n m)"
  by (auto simp: opens_def openKey_def Let_def case_prod_beta same_handles_def frame
      split: sum.split option.split gobject.split)

lemma opens_move: "opens m p \<Longrightarrow> handle_move m (snd p)"
  by (auto simp: opens_def handle_move_def same_handles_def split: prod.splits sum.splits)

lemma same_handles_signHash [simp]: "same_handles m (snd (signHash d ks p h dig m))"
  by (auto simp: signHash_def case_prod_beta split: sum.split)

lemma same_handles_snd: "p = (a, m') \<Longrightarrow> same_handles m (snd p) \<Longrightarrow> same_handles m m'"
  by simp

lemma same_handles_GoSignHash: "GoSignHash d k fl pad dig m = Some (r, m') \<Longrightarrow> same_handles m m'"
  by (auto simp: GoSignHash_def split: sum.splits if_splits prod.splits
      dest: same_handles_snd[OF _ same_handles_signHash])

lemma opens_Inl: "opens m (Inl err, m1) \<Longrightarrow> handle_move m (logError d opn err' m1)"
  by (simp add: opens_def)

lemma move_GoOpenProvider: "handle_move m (snd (GoOpenProvider d m))"
proof -
  obtain r m1 where p: "openProvider d m = (r, m1)" by force
  then have "opens m (r, m1)" using opens_openProvider[of m d] by simp
  then show ?thesis
    using opens_move[of m "(r, m1)"] by (cases r) (simp_all add: GoOpenProvider_def p opens_Inl)
qed

lemma move_GoOpenKey: "handle_move m (snd (GoOpenKey d h n m))"
proof -
  obtain r m1 where p: "openKey d h (utf16PtrToString d n) m = (r, m1)" by force
  then have "opens m (r, m1)" using opens_openKey[of m d h "utf16PtrToString d n"] by simp
  then show ?thesis
    using opens_move[of m "(r, m1)"] by (cases r) (simp_all add: GoOpenKey_def Let_def p opens_Inl)
qed

lemma move_free: "handle_move m (freeHandle h m)"
  by (auto simp: handle_move_def freeHandle_def map_le_def)

lemma host_step_move: "host_step d c m = Some (r, m') \<Longrightarrow> handle_move m m'"
proof (cases c)
  case OpenProvider
  assume "host_step d c m = Some (r, m')"
  with OpenProvider move_GoOpenProvider[of m d] show ?thesis
    by (auto simp: ksp_OpenProvider_def split: prod.splits if_splits)
next
  case (OpenKey p n)
  assume "host_step d c m = Some (r, m')"
  with OpenKey move_GoOpenKey[of m d p n] show ?thesis
    by (auto simp: ksp_OpenKey_def split: prod.splits if_splits)
next
  case (ExportKey k b out cb pcb)
  assume "host_step d c m = Some (r, m')"
  with ExportKey show ?thesis
    by (auto simp: ksp_ExportKey_def GoExportKey_def split: prod.splits if_splits sum.splits)
next
  case (SignHash k pad hash out cb pcb fl)
  assume "host_step d c m = Some (r, m')"
  with SignHash show ?thesis
    by (auto simp: ksp_SignHash_def split: prod.splits if_splits option.splits
        dest: same_handles_GoSignHash)
qed (auto simp: ksp_FreeProvider_def ksp_FreeKey_def GoFreeHandle_def move_free)

text \<open>Handles in use lie between zero and the counter, as long as the counter has not wrapped.\<close>

definition handles_below :: "machine \<Rightarrow> bool" where
  "handles_below m \<longleftrightarrow> 0 < m_nextHandle m
     \<and> (\<forall>h v. m_handles m h = Some v \<longrightarrow> 0 < h \<and> h < m_nextHandle m)"

lemma unat_suc: "unat (x :: u64) + 1 < 2 ^ 64 \<Longrightarrow> unat (x + 1) = unat x + 1"
  by (simp add: unat_add_lem [symmetric, THEN iffD1] unat_word_ariths(1))

lemma handle_move_below:
  assumes "handle_move m m'" "handles_below m" "unat (m_nextHandle m) + 1 < 2 ^ 64"
  shows "handles_below m'" and "unat (m_nextHandle m') \<le> unat (m_nextHandle m) + 1"
    and "m_nextHandle m \<le> m_nextHandle m'"
  using assms unat_suc[OF assms(3)]
  by (auto simp: handle_move_def handles_below_def word_less_nat_alt word_le_nat_alt map_le_def
      split: if_splits) (metis domI less_SucI)+

lemma reached_ok: "reached n m \<Longrightarrow> machine_ok m"
  by (induction rule: reached.induct) (auto intro: machine_ok_loaded host_step_ok)

lemma reached_below:
  "reached n m \<Longrightarrow> n + 1 < 2 ^ 64 \<Longrightarrow> handles_below m \<and> unat (m_nextHandle m) \<le> n + 1"
proof (induction rule: reached.induct)
  case start
  then show ?case by (simp add: handles_below_def loaded_def)
next
  case (call n m d c r m')
  then have "handles_below m" "unat (m_nextHandle m) \<le> n + 1" by simp_all
  moreover have "unat (m_nextHandle m) + 1 < 2 ^ 64" using calculation(2) call.prems by simp
  ultimately show ?case
    using handle_move_below[OF host_step_move[OF call.hyps(2)]] by fastforce
qed

text \<open>A handle that has been given out and is not live stays dead.\<close>

lemma dead_stays_dead:
  assumes "unat (m_nextHandle m) + length cs < 2 ^ 64"
    and "h < m_nextHandle m" "m_handles m h = None"
  shows "m_handles (fold (\<lambda>(d, c). serve d c) cs m) h = None"
  using assms
proof (induction cs arbitrary: m)
  case (Cons x cs)
  obtain d c where x: "x = (d, c)" by force
  have "handle_move m (serve d c m)"
    by (auto simp: serve_def dest: host_step_move split: option.split)
  moreover have "unat (m_nextHandle m + 1) = unat (m_nextHandle m) + 1"
    using Cons.prems(1) by (intro unat_suc) simp
  ultimately have "m_handles (serve d c m) h = None" "h < m_nextHandle (serve d c m)"
    "unat (m_nextHandle (serve d c m)) + length cs < 2 ^ 64"
    using Cons.prems
    by (auto simp: handle_move_def map_le_def word_less_nat_alt) (metis domI option.exhaust)+
  then show ?case using Cons.IH x by simp
qed simp

section \<open>Buffers\<close>

lemma unat_dword_of_len: "unat (word_of_int (i32 (int n)) :: u32) = n mod 2 ^ 32"
proof -
  have "i32 (int n) mod 2 ^ 32 = int n mod 2 ^ 32"
    unfolding i32_def by (subst mod_diff_left_eq) simp
  then have "uint (word_of_int (i32 (int n)) :: u32) = int (n mod 2 ^ 32)"
    by (simp add: uint_word_of_int zmod_int)
  then show ?thesis by (metis nat_int unat_eq_nat_uint)
qed

text \<open>A C function keeps to the \<open>cb\<close> bytes it was given.\<close>

definition within :: "u32 \<Rightarrow> bytes option \<Rightarrow> bytes option \<Rightarrow> bool" where
  "within cb before after \<longleftrightarrow> (case (before, after) of
       (Some a, Some b) \<Rightarrow> length b = length a \<and> drop (unat cb) b = drop (unat cb) a
     | (None, None) \<Rightarrow> True
     | _ \<Rightarrow> False)"

lemma within_refl [simp]: "within cb m m"
  by (simp add: within_def split: option.split)

lemma i32_range: "- (2 ^ 31) \<le> i32 x \<and> i32 x < 2 ^ 31"
  by (simp add: i32_def)

lemma copyOut_within:
  assumes "cBytes b = (ptr, n)" "copyOut ptr n out cb pcb = Some r"
  shows "within cb out (c_memory r)"
proof (cases "\<exists>mem. out = Some mem \<and> \<not> cb < word_of_int n")
  case True
  then obtain mem where mem: "out = Some mem" "\<not> cb < word_of_int n" by blast
  from assms mem obtain mem' where m: "memcpy mem (case ptr of None \<Rightarrow> [] | Some b \<Rightarrow> b) n = Some mem'"
    "c_memory r = Some mem'"
    by (auto simp: copyOut_def Let_def)
  have "n < 2 ^ 31" using assms(1) i32_range[of "int (length b)"] by (auto simp: cBytes_def split: if_splits)
  moreover have "0 \<le> n" using m(1) by (auto simp: memcpy_def split: if_splits)
  ultimately have "unat (word_of_int n :: u32) = nat n"
    by (simp only: unat_eq_nat_uint uint_word_of_int) (simp add: mod_pos_pos_trivial)
  then have "nat n \<le> unat cb" using mem(2) by (simp only: word_less_nat_alt not_less)
  with m mem show ?thesis by (auto simp: memcpy_def within_def split: if_splits)
next
  case False
  with assms show ?thesis by (auto simp: copyOut_def Let_def within_def split: option.splits if_splits)
qed

lemma c_fail_simps [simp]: "c_status (c_fail st out) = st" "c_memory (c_fail st out) = out"
  "c_cbResult (c_fail st out) = None"
  by (simp_all add: c_fail_def)

text \<open>The data each function copies is a byte slice of the Go side.\<close>

lemma Go_bytes:
  "GoGetKeyProperty d k p m = (ptr, n, 0) \<Longrightarrow> \<exists>b. cBytes b = (ptr, n)"
  "GoExportKey d k m = ((ptr, n, 0), m') \<Longrightarrow> \<exists>b. cBytes b = (ptr, n)"
  "GoSignHash d k fl pad hash m = Some ((ptr, n, 0), m') \<Longrightarrow> \<exists>b. cBytes b = (ptr, n)"
  by (auto simp: GoGetKeyProperty_def GoExportKey_def GoSignHash_def statusFromError_failure
      dest: sym[of 0] split: sum.splits if_splits prod.splits option.splits)

lemma GetKeyProperty_within:
  "ksp_GetKeyProperty d k p out cb pcb m = Some r \<Longrightarrow> within cb out (c_memory r)"
  by (auto simp: ksp_GetKeyProperty_def intro: copyOut_within dest!: Go_bytes split: prod.splits if_splits)

lemma ExportKey_within:
  "ksp_ExportKey d k b out cb pcb m = Some (r, m') \<Longrightarrow> within cb out (c_memory r)"
  by (auto simp: ksp_ExportKey_def intro: copyOut_within dest!: Go_bytes split: prod.splits if_splits)

lemma SignHash_within:
  "ksp_SignHash d k pad hash out cb pcb fl m = Some (r, m') \<Longrightarrow> within cb out (c_memory r)"
  by (auto simp: ksp_SignHash_def intro: copyOut_within dest!: Go_bytes
      split: prod.splits option.splits if_splits)

section \<open>A call that signs\<close>

lemma signHash_Inr:
  assumes "signHash d ks padding hn digest m = (Inr out, m')"
  shows "\<exists>alg raw s'. Algorithm (e_Upper (d_env d)) (ks_keyType ks) padding hn = Inr alg
     \<and> Session_Sign (d_env d) (sg_ID (ks_signer ks)) alg digest (m_heap m ! ks_prov ks) (m_world m)
         = (Inr raw, s', m_world m')
     \<and> (if ks_keyType ks = KeyECDSA then ECDSADERToRaw raw (ks_curveBits ks) = Inr out else out = raw)"
proof -
  obtain alg where alg: "Algorithm (e_Upper (d_env d)) (ks_keyType ks) padding hn = Inr alg"
    using assms by (auto simp: signHash_def split: sum.splits)
  obtain r s' w' where S: "Session_Sign (d_env d) (sg_ID (ks_signer ks)) alg digest (m_heap m ! ks_prov ks)
      (m_world m) = (r, s', w')"
    by (metis prod_cases3)
  show ?thesis
    using assms by (auto simp: signHash_def alg on_session_def S split: sum.splits if_splits)
qed

lemma GoSignHash_success:
  assumes "GoSignHash d k fl pad digest m = Some ((ptr, n, 0), m')"
  shows "\<exists>ks padding hn out. m_handles m k = Some (KeyObj ks)
     \<and> requested_padding d fl pad digest = Inr (padding, hn)
     \<and> signHash d ks padding hn digest m = (Inr out, m') \<and> cBytes out = (ptr, n)"
  using assms
  by (fastforce simp: GoSignHash_def statusFromError_failure keyByHandle_Inr [symmetric]
      statusFromError_failure[symmetric] split: sum.splits if_splits prod.splits)

lemma ecdsa_signature_length:
  assumes "signHash d ks padding hn digest m = (Inr out, m')" "ks_keyType ks = KeyECDSA"
  shows "length out = 2 * coord_size (ks_curveBits ks)"
  using signHash_Inr[OF assms(1)] assms(2) by (auto simp: ECDSADERToRaw_Inr fixed_be_length)

lemma key_ok_ecdsa:
  "key_ok m ks \<Longrightarrow> ks_keyType ks = KeyECDSA \<Longrightarrow> keyLengthBits ks = ks_curveBits ks"
  by (auto simp: key_ok_def keyLengthBits_def split: public_key.splits)

lemma max_size_ecdsa:
  assumes "m_handles m k = Some (KeyObj ks)" "key_ok m ks" "ks_keyType ks = KeyECDSA"
  shows "GoSignatureMaxSize k m = (of_nat (2 * coord_size (ks_curveBits ks)), 0)"
  using assms key_ok_ecdsa[OF assms(2,3)]
  by (simp add: GoSignatureMaxSize_def keyByHandle_def lookupHandle_def Let_def coord_size_def mult.commute)

section \<open>Calls on a handle that is no live key\<close>

lemma bad_key_calls:
  assumes "\<And>ks. m_handles m k \<noteq> Some (KeyObj ks)"
  shows "keyByHandle k m = Inl BadHandle"
    and "ksp_GetKeyProperty d k p out cb pcb m = Some (c_fail statusInvalidParameter out)"
    and "ksp_SignHash d k pad digest out cb pcb fl m = Some (c_fail statusInvalidParameter out, m)"
proof -
  show k: "keyByHandle k m = Inl BadHandle"
    using assms by (auto simp: keyByHandle_def lookupHandle_def split: option.split gobject.split)
  show "ksp_GetKeyProperty d k p out cb pcb m = Some (c_fail statusInvalidParameter out)"
    by (simp add: ksp_GetKeyProperty_def GoGetKeyProperty_def k)
  show "ksp_SignHash d k pad digest out cb pcb fl m = Some (c_fail statusInvalidParameter out, m)"
    by (cases out) (simp_all add: ksp_SignHash_def GoSignHash_def GoSignatureMaxSize_def k)
qed

lemma bad_provider_call:
  assumes "\<And>a. m_handles m p \<noteq> Some (ProviderObj a)"
  shows "openKey d p n m = (Inl BadHandle, m)"
  using assms by (auto simp: openKey_def lookupHandle_def split: option.split gobject.split)

lemma status_bad_handle: "statusFromError BadHandle = statusInvalidParameter"
  by (simp add: statusFromError_def chain)

text \<open>What opening replies.\<close>

lemma host_step_opened:
  assumes "host_step d c m = Some (Opened st (Some h), m')"
  shows "st = 0 \<and> h = m_nextHandle m \<and> (\<exists>v. m_handles m' = (m_handles m)(h \<mapsto> v))"
proof (cases c)
  case OpenProvider
  obtain r m1 where p: "openProvider d m = (r, m1)" by force
  have "opens m (r, m1)" using opens_openProvider[of m d] p by simp
  with OpenProvider assms show ?thesis
    by (cases r) (auto simp: ksp_OpenProvider_def GoOpenProvider_def p opens_def statusFromError_failure
        split: if_splits)
next
  case (OpenKey q n)
  obtain r m1 where p: "openKey d q (utf16PtrToString d n) m = (r, m1)" by force
  have "opens m (r, m1)" using opens_openKey[of m d q "utf16PtrToString d n"] p by simp
  with OpenKey assms show ?thesis
    by (cases r) (auto simp: ksp_OpenKey_def GoOpenKey_def Let_def p opens_def statusFromError_failure
        split: if_splits)
qed (use assms in \<open>auto split: prod.splits\<close>)

definition after_calls :: "(dll_env \<times> host_call) list \<Rightarrow> machine \<Rightarrow> machine" where
  "after_calls cs m = fold (\<lambda>(d, c). serve d c) cs m"

lemma after_calls_append: "after_calls (xs @ ys) m = after_calls ys (after_calls xs m)"
  by (simp add: after_calls_def)

end
