(* ===== verification/KspSpec.thy ===== *)
theory KspSpec
  imports HostCalls
begin

text \<open>
  What a key storage provider promises its host, independently of sessions, caches and the network:
  a set of live handles, each a provider or a public key, and for every call the replies allowed
  and what they do to the handles. The machine of \<open>Bridge\<close> implements it, call by call and over
  whole traces.
\<close>

section \<open>Simulation\<close>

inductive runs :: "('l \<Rightarrow> 's \<Rightarrow> 's \<Rightarrow> bool) \<Rightarrow> 'l list \<Rightarrow> 's \<Rightarrow> 's \<Rightarrow> bool"
  for step :: "'l \<Rightarrow> 's \<Rightarrow> 's \<Rightarrow> bool" where
  halt: "runs step [] s s"
| move: "step l s t \<Longrightarrow> runs step ls t u \<Longrightarrow> runs step (l # ls) s u"

inductive_simps runs_Nil [simp]: "runs step [] s t"
inductive_simps runs_Cons [simp]: "runs step (l # ls) s t"

lemma runs_append: "runs step (xs @ ys) s u \<longleftrightarrow> (\<exists>t. runs step xs s t \<and> runs step ys t u)"
  by (induction xs arbitrary: s) auto

text \<open>
  A forward simulation under an invariant that pays for every step out of a budget (here, the
  handles left before the counter wraps). Clients get the inclusion of traces.
\<close>

locale budgeted_simulation =
  fixes cstep :: "'l \<Rightarrow> 's \<Rightarrow> 's \<Rightarrow> bool"
    and astep :: "'l \<Rightarrow> 'a \<Rightarrow> 'a \<Rightarrow> bool"
    and absf :: "'s \<Rightarrow> 'a"
    and inv :: "nat \<Rightarrow> 's \<Rightarrow> bool"
  assumes budget: "inv (Suc k) s \<Longrightarrow> cstep l s t \<Longrightarrow> inv k t"
    and simulates: "inv (Suc k) s \<Longrightarrow> cstep l s t \<Longrightarrow> astep l (absf s) (absf t)"
begin

lemma traces: "inv (length ls + k) s \<Longrightarrow> runs cstep ls s t \<Longrightarrow> runs astep ls (absf s) (absf t) \<and> inv k t"
proof (induction ls arbitrary: s)
  case (Cons l ls)
  then obtain u where "cstep l s u" "runs cstep ls u t" by auto
  moreover have "inv (length ls + k) u" using Cons.prems(1) calculation(1) by (auto intro: budget)
  ultimately show ?case using Cons.IH simulates Cons.prems(1) by fastforce
qed simp

end

section \<open>The specification\<close>

datatype ksp_object = AProvider | AKey public_key

record ksp =
  k_live :: "u64 \<rightharpoonup> ksp_object"
  k_issued :: "u64 set"

definition no_handles :: ksp where
  "no_handles = \<lparr>k_live = Map.empty, k_issued = {}\<rparr>"

definition issue :: "u64 \<Rightarrow> ksp_object \<Rightarrow> ksp \<Rightarrow> ksp" where
  "issue h v A = A\<lparr>k_live := (k_live A)(h \<mapsto> v), k_issued := insert h (k_issued A)\<rparr>"

definition release :: "u64 \<Rightarrow> ksp \<Rightarrow> ksp" where
  "release h A = A\<lparr>k_live := (k_live A)(h := None)\<rparr>"

definition fresh :: "u64 \<Rightarrow> ksp \<Rightarrow> bool" where
  "fresh h A \<longleftrightarrow> h \<noteq> 0 \<and> h \<notin> k_issued A"

text \<open>What a public key alone determines.\<close>

fun pub_bits :: "public_key \<Rightarrow> nat" where
  "pub_bits (RSAPublicKey p) = BitLen (rsa_N p)"
| "pub_bits (ECDSAPublicKey p) = ec_BitSize p"
| "pub_bits (OtherPublicKey _) = 0"

fun pub_group :: "public_key \<Rightarrow> string" where
  "pub_group (RSAPublicKey _) = ''RSA''"
| "pub_group _ = ''ECDSA''"

fun pub_name :: "public_key \<Rightarrow> string" where
  "pub_name (ECDSAPublicKey p) =
     (case map_of [(256, ''ECDSA_P256''), (384, ''ECDSA_P384''), (521, ''ECDSA_P521'')] (ec_BitSize p) of
        None \<Rightarrow> ''ECDSA'' | Some n \<Rightarrow> n)"
| "pub_name _ = ''RSA''"

fun pub_blob :: "public_key \<Rightarrow> bytes option" where
  "pub_blob (RSAPublicKey p) = Some (RSAPublicBlob p)"
| "pub_blob (ECDSAPublicKey p) = (case ECCPublicBlob p of Inl _ \<Rightarrow> None | Inr b \<Rightarrow> Some b)"
| "pub_blob (OtherPublicKey _) = None"

fun supported_key :: "public_key \<Rightarrow> bool" where
  "supported_key (OtherPublicKey _) = False"
| "supported_key _ = True"

text \<open>The bytes of the longest signature.\<close>

fun pub_signature :: "public_key \<Rightarrow> nat" where
  "pub_signature (RSAPublicKey p) = (BitLen (rsa_N p) + 7) div 8"
| "pub_signature (ECDSAPublicKey p) = 2 * coord_size (ec_BitSize p)"
| "pub_signature (OtherPublicKey _) = 0"

definition pub_property :: "dll_env \<Rightarrow> public_key \<Rightarrow> string \<Rightarrow> bytes option" where
  "pub_property d pub name = map_of
     [(''Algorithm Group'', utf16z d (pub_group pub)), (''Algorithm Name'', utf16z d (pub_name pub)),
      (''Length'', le32 (of_nat (pub_bits pub))), (''Export Policy'', le32 0), (''Key Usage'', le32 1)] name"

text \<open>How data reaches the host: its length is a DWORD; without a buffer only the length is
  reported; a buffer that is too small is left alone.\<close>

definition deliver :: "bytes \<Rightarrow> bytes option \<Rightarrow> u32 \<Rightarrow> bool \<Rightarrow> c_result" where
  "deliver b out cb pcb =
     (let n = length b mod 2 ^ 32; report = (if pcb then Some (of_nat n) else None) in
      case out of
        None \<Rightarrow> \<lparr>c_status = 0, c_memory = None, c_cbResult = report\<rparr>
      | Some mem \<Rightarrow>
          if unat cb < n then \<lparr>c_status = NTE_BUFFER_TOO_SMALL, c_memory = Some mem, c_cbResult = report\<rparr>
          else \<lparr>c_status = 0, c_memory = Some (take n b @ drop n mem), c_cbResult = report\<rparr>)"

definition is_public_blob :: "u16 list \<Rightarrow> bool" where
  "is_public_blob b \<longleftrightarrow> b \<in> wide ` {''RSAPUBLICBLOB'', ''ECCPUBLICBLOB'', ''PUBLICBLOB''}"

text \<open>The key a call is about.\<close>

fun key_of :: "host_call \<Rightarrow> u64 option" where
  "key_of (GetKeyProperty k _ _ _ _) = Some k"
| "key_of (ExportKey k _ _ _ _) = Some k"
| "key_of (SignHash k _ _ _ _ _ _) = Some k"
| "key_of _ = None"

text \<open>The statuses of a failure that comes from the code, the server or the network; a buffer that
  is too small is never among them.\<close>

definition failures :: "u32 set" where
  "failures = {statusPerm, statusBadKeyset, statusInvalidParameter, statusFail}"

lemma statusFromError_in [simp]: "statusFromError err \<in> failures"
  by (simp add: statusFromError_def failures_def split: option.split)

lemma failures_iff: "st \<in> failures \<Longrightarrow> st \<noteq> 0 \<and> st \<noteq> NTE_BUFFER_TOO_SMALL"
  by (auto simp: failures_def status_defs NTE_BUFFER_TOO_SMALL_def)

text \<open>The replies allowed. A signature is whatever the server made of the digest; that of an ECDSA
  key has the one size the curve gives it.\<close>

inductive ksp_spec :: "dll_env \<Rightarrow> host_call \<Rightarrow> reply \<Rightarrow> ksp \<Rightarrow> ksp \<Rightarrow> bool" where
  open_provider: "fresh h A \<Longrightarrow> ksp_spec d OpenProvider (Opened 0 (Some h)) A (issue h AProvider A)"
| open_provider_fails: "st \<in> failures \<Longrightarrow> ksp_spec d OpenProvider (Opened st None) A A"
| open_key: "k_live A p = Some AProvider \<Longrightarrow> fresh h A \<Longrightarrow> supported_key pub \<Longrightarrow>
    ksp_spec d (OpenKey p n) (Opened 0 (Some h)) A (issue h (AKey pub) A)"
| open_key_fails: "st \<in> failures \<Longrightarrow> ksp_spec d (OpenKey p n) (Opened st None) A A"
| property: "k_live A k = Some (AKey pub) \<Longrightarrow> pub_property d pub (utf16PtrToString d p) = Some v \<Longrightarrow>
    ksp_spec d (GetKeyProperty k p out cb pcb) (Output (deliver v out cb pcb)) A A"
| no_property: "k_live A k = Some (AKey pub) \<Longrightarrow> pub_property d pub (utf16PtrToString d p) = None \<Longrightarrow>
    ksp_spec d (GetKeyProperty k p out cb pcb) (Output (c_fail NTE_NOT_SUPPORTED out)) A A"
| export: "k_live A k = Some (AKey pub) \<Longrightarrow> is_public_blob b \<Longrightarrow> pub_blob pub = Some v \<Longrightarrow>
    ksp_spec d (ExportKey k b out cb pcb) (Output (deliver v out cb pcb)) A A"
| no_export: "k_live A k = Some (AKey pub) \<Longrightarrow> is_public_blob b \<Longrightarrow> pub_blob pub = None \<Longrightarrow> st \<in> failures \<Longrightarrow>
    ksp_spec d (ExportKey k b out cb pcb) (Output (c_fail st out)) A A"
| private_export: "\<not> is_public_blob b \<Longrightarrow>
    ksp_spec d (ExportKey k b out cb pcb) (Output (c_fail NTE_NOT_SUPPORTED out)) A A"
| sized: "k_live A k = Some (AKey pub) \<Longrightarrow>
    ksp_spec d (SignHash k pad hash None cb pcb fl)
      (Output \<lparr>c_status = 0, c_memory = None,
               c_cbResult = (if pcb then Some (of_nat (pub_signature pub)) else None)\<rparr>) A A"
| signed: "k_live A k = Some (AKey pub) \<Longrightarrow>
    pub_group pub = ''ECDSA'' \<longrightarrow> length sig = pub_signature pub \<Longrightarrow>
    ksp_spec d (SignHash k pad hash (Some mem) cb pcb fl) (Output (deliver sig (Some mem) cb pcb)) A A"
| sign_fails: "k_live A k = Some (AKey pub) \<Longrightarrow> st \<in> failures \<Longrightarrow>
    ksp_spec d (SignHash k pad hash (Some mem) cb pcb fl) (Output (c_fail st (Some mem))) A A"
| bad_property: "(\<And>pub. k_live A k \<noteq> Some (AKey pub)) \<Longrightarrow>
    ksp_spec d (GetKeyProperty k p out cb pcb) (Output (c_fail statusInvalidParameter out)) A A"
| bad_export: "(\<And>pub. k_live A k \<noteq> Some (AKey pub)) \<Longrightarrow> is_public_blob b \<Longrightarrow>
    ksp_spec d (ExportKey k b out cb pcb) (Output (c_fail statusInvalidParameter out)) A A"
| bad_sign: "(\<And>pub. k_live A k \<noteq> Some (AKey pub)) \<Longrightarrow>
    ksp_spec d (SignHash k pad hash out cb pcb fl) (Output (c_fail statusInvalidParameter out)) A A"
| free_provider: "ksp_spec d (FreeProvider h) (Done 0) A (release h A)"
| free_key: "ksp_spec d (FreeKey h) (Done 0) A (release h A)"
| free_buffer: "ksp_spec d FreeBuffer (Done 0) A A"
| unsupported: "ksp_spec d (Unsupported f) (Done NTE_NOT_SUPPORTED) A A"

section \<open>The machine implements the specification\<close>

definition abs_object :: "gobject \<Rightarrow> ksp_object" where
  "abs_object v = (case v of ProviderObj _ \<Rightarrow> AProvider | KeyObj ks \<Rightarrow> AKey (ks_pub ks))"

definition abs_ksp :: "machine \<Rightarrow> ksp" where
  "abs_ksp m = \<lparr>k_live = (\<lambda>h. map_option abs_object (m_handles m h)),
     k_issued = {h. 0 < h \<and> h < m_nextHandle m}\<rparr>"

lemma abs_object_simps [simp]:
  "abs_object (ProviderObj a) = AProvider" "abs_object (KeyObj ks) = AKey (ks_pub ks)"
  by (simp_all add: abs_object_def)

lemma abs_object_iff: "abs_object v = AProvider \<longleftrightarrow> (\<exists>a. v = ProviderObj a)"
  "abs_object v = AKey pub \<longleftrightarrow> (\<exists>ks. v = KeyObj ks \<and> ks_pub ks = pub)"
  by (cases v; simp)+

lemma abs_loaded: "abs_ksp loaded = no_handles"
  by (auto simp: abs_ksp_def loaded_def no_handles_def word_less_nat_alt)

lemma abs_live: "k_live (abs_ksp m) h = map_option abs_object (m_handles m h)"
  by (simp add: abs_ksp_def)

lemma abs_key:
  "k_live (abs_ksp m) k = Some (AKey pub) \<longleftrightarrow> (\<exists>ks. m_handles m k = Some (KeyObj ks) \<and> ks_pub ks = pub)"
  by (auto simp: abs_live abs_object_iff)

text \<open>The data of a handle against the data of its public key.\<close>

lemma key_ok_spec:
  assumes "key_ok m ks"
  shows "keyProperty d ks name = pub_property d (ks_pub ks) name"
    and "keyLengthBits ks = pub_bits (ks_pub ks)"
    and "exportPublicBlob ks = Inr v \<longleftrightarrow> pub_blob (ks_pub ks) = Some v"
    and "supported_key (ks_pub ks)"
    and "ks_keyType ks = KeyECDSA \<longleftrightarrow> pub_group (ks_pub ks) = ''ECDSA''"
  using assms
  by (cases "ks_pub ks";
      auto simp: key_ok_def keyProperty_def pub_property_def algorithmGroup_def algorithmName_def
        keyLengthBits_def dwordLE_def ncryptAllowSigningFlag_def exportPublicBlob_def
        split: sum.split)+

text \<open>A copy that returns is the delivery of the specification, and it returns when the data fits an
  \<^verbatim>\<open>int\<close> and the host's buffer is as large as the host says.\<close>

lemma dword_of_len: "word_of_int (i32 (int n)) = (of_nat (n mod 2 ^ 32) :: u32)"
  using unat_dword_of_len[of n] by (metis of_nat_unat ucast_id)

lemma copyOut_deliver:
  assumes "cBytes b = (ptr, n)" "copyOut ptr n out cb pcb = Some r"
  shows "r = deliver b out cb pcb"
proof -
  have ptr: "(case ptr of None \<Rightarrow> [] | Some b \<Rightarrow> b) = b" "n = i32 (int (length b))"
    using assms(1) by (auto simp: cBytes_def split: if_splits)
  have w: "word_of_int n = (of_nat (length b mod 2 ^ 32) :: u32)" by (simp only: ptr(2) dword_of_len)
  have u: "unat (word_of_int n :: u32) = length b mod 2 ^ 32" by (simp only: ptr(2) unat_dword_of_len)
  have "nat n = length b mod 2 ^ 32" if "0 \<le> n"
    using that i32_range[of "int (length b)"] u unfolding ptr(2)
    by (simp add: unat_eq_nat_uint uint_word_of_int)
  then show ?thesis
    using assms(2) w u
    by (cases out) (auto simp: copyOut_def deliver_def Let_def memcpy_def ERROR_SUCCESS_def ptr(1)
        word_less_nat_alt split: if_splits)
qed

lemma copyOut_returns:
  assumes "cBytes b = (ptr, n)" "length b < 2 ^ 31" "\<forall>mem. out = Some mem \<longrightarrow> unat cb \<le> length mem"
  shows "copyOut ptr n out cb pcb = Some (deliver b out cb pcb)"
proof -
  have ptr: "(case ptr of None \<Rightarrow> [] | Some b \<Rightarrow> b) = b" "n = int (length b)"
    using assms(1,2) by (auto simp: cBytes_def split: if_splits)
  have "\<exists>r. copyOut ptr n out cb pcb = Some r"
    using assms(2,3)
    by (cases out) (auto simp: copyOut_def memcpy_def Let_def ptr word_less_nat_alt not_less unat_of_nat)
  then show ?thesis using copyOut_deliver[OF assms(1)] by auto
qed

text \<open>Opening, with the object that is registered.\<close>

lemma openProvider_Inr:
  "openProvider d m = (Inr h, m') \<Longrightarrow> h = m_nextHandle m \<and> m_nextHandle m' = m_nextHandle m + 1
     \<and> (\<exists>a. m_handles m' = (m_handles m)(h \<mapsto> ProviderObj a))"
  using same_handles_log(1)[of m d]
  by (auto simp: openProvider_def Let_def registerHandle_def same_handles_def split: sum.splits)

lemma make_key_Inr: "make_key a sg pub = Inr ks \<Longrightarrow> ks_pub ks = pub \<and> supported_key pub"
  by (auto simp: make_key_def Let_def split: public_key.splits)

lemma openKey_Inr:
  "openKey d p n m = (Inr h, m') \<Longrightarrow> h = m_nextHandle m \<and> m_nextHandle m' = m_nextHandle m + 1
     \<and> (\<exists>a. m_handles m p = Some (ProviderObj a))
     \<and> (\<exists>ks. supported_key (ks_pub ks) \<and> m_handles m' = (m_handles m)(h \<mapsto> KeyObj ks))"
  by (auto simp: openKey_def lookupHandle_def case_prod_beta frame dest!: make_key_Inr
      split: option.splits gobject.splits sum.splits)

text \<open>Registering the next handle issues it; freeing releases; everything else is invisible.\<close>

lemma abs_issue:
  assumes "handles_below m" "unat (m_nextHandle m) + 1 < 2 ^ 64"
    and "m_nextHandle m' = m_nextHandle m + 1" "m_handles m' = (m_handles m)(m_nextHandle m \<mapsto> v)"
  shows "abs_ksp m' = issue (m_nextHandle m) (abs_object v) (abs_ksp m)"
    and "fresh (m_nextHandle m) (abs_ksp m)"
proof -
  have "h < m_nextHandle m + 1 \<longleftrightarrow> h < m_nextHandle m \<or> h = m_nextHandle m" for h
    using unat_suc[OF assms(2)] by (simp add: word_less_nat_alt word_unat_eq_iff less_Suc_eq)
  moreover have "0 < m_nextHandle m" using assms(1) by (simp add: handles_below_def)
  ultimately have "{h. 0 < h \<and> h < m_nextHandle m + 1} = insert (m_nextHandle m) {h. 0 < h \<and> h < m_nextHandle m}"
    by auto
  then show "abs_ksp m' = issue (m_nextHandle m) (abs_object v) (abs_ksp m)"
    unfolding abs_ksp_def issue_def assms(3,4) by (simp add: fun_eq_iff)
  show "fresh (m_nextHandle m) (abs_ksp m)"
    using assms(1) by (auto simp: fresh_def abs_ksp_def handles_below_def)
qed

lemma abs_same: "same_handles m m' \<Longrightarrow> abs_ksp m' = abs_ksp m"
  by (simp add: same_handles_def abs_ksp_def)

lemma abs_log [simp]: "abs_ksp (logError d opn err m) = abs_ksp m"
  by (rule abs_same) simp

lemma abs_release: "abs_ksp (freeHandle h m) = release h (abs_ksp m)"
  by (auto simp: abs_ksp_def freeHandle_def release_def)

definition host_inv :: "nat \<Rightarrow> machine \<Rightarrow> bool" where
  "host_inv k m \<longleftrightarrow> machine_ok m \<and> handles_below m \<and> unat (m_nextHandle m) + k < 2 ^ 64"

lemma host_inv_step:
  assumes "host_inv (Suc k) m" "host_step d c m = Some (r, m')"
  shows "host_inv k m'"
  using handle_move_below[OF host_step_move[OF assms(2)]] host_step_ok[OF _ assms(2)] assms(1)
  by (fastforce simp: host_inv_def)

section \<open>Simulation, call by call\<close>

lemma sim_open_provider:
  assumes "host_inv (Suc k) m" "host_step d OpenProvider m = Some (r, m')"
  shows "ksp_spec d OpenProvider r (abs_ksp m) (abs_ksp m')"
proof (cases "openProvider d m")
  case (Pair x m1)
  show ?thesis
  proof (cases x)
    case (Inl err)
    then have "r = Opened (statusFromError err) None" "m' = logError d ''OpenProvider'' err m1"
      using assms(2) Pair by (simp_all add: ksp_OpenProvider_def GoOpenProvider_def statusFromError_failure)
    moreover have "same_handles m m1"
      using opens_openProvider[of m d] Pair Inl by (simp add: opens_def)
    ultimately show ?thesis
      using ksp_spec.open_provider_fails by (simp add: abs_same)
  next
    case (Inr h)
    with Pair assms(2) have r: "r = Opened 0 (Some h)" "m' = m1"
      by (simp_all add: ksp_OpenProvider_def GoOpenProvider_def)
    from openProvider_Inr[OF Pair[unfolded Inr]] assms(1) show ?thesis
      using abs_issue[of m m1] ksp_spec.open_provider unfolding r host_inv_def by fastforce
  qed
qed

lemma sim_open_key:
  assumes "host_inv (Suc k) m" "host_step d (OpenKey p n) m = Some (r, m')"
  shows "ksp_spec d (OpenKey p n) r (abs_ksp m) (abs_ksp m')"
proof (cases "openKey d p (utf16PtrToString d n) m")
  case (Pair x m1)
  show ?thesis
  proof (cases x)
    case (Inl err)
    then have "r = Opened (statusFromError err) None" "same_handles m1 m'"
      using assms(2) Pair
      by (auto simp: ksp_OpenKey_def GoOpenKey_def Let_def statusFromError_failure)
    moreover have "same_handles m m1"
      using opens_openKey[of m d p "utf16PtrToString d n"] Pair Inl by (simp add: opens_def)
    ultimately show ?thesis
      using ksp_spec.open_key_fails by (simp add: abs_same)
  next
    case (Inr h)
    with Pair assms(2) have r: "r = Opened 0 (Some h)" "m' = m1"
      by (simp_all add: ksp_OpenKey_def GoOpenKey_def Let_def)
    obtain a ks where o: "h = m_nextHandle m" "m_nextHandle m1 = m_nextHandle m + 1"
      "m_handles m p = Some (ProviderObj a)" "supported_key (ks_pub ks)"
      "m_handles m1 = (m_handles m)(m_nextHandle m \<mapsto> KeyObj ks)"
      using openKey_Inr[OF Pair[unfolded Inr]] by auto
    have "k_live (abs_ksp m) p = Some AProvider" using o(3) by (simp add: abs_live)
    from ksp_spec.open_key[OF this _ o(4)] show ?thesis
      using abs_issue[OF _ _ o(2,5)] assms(1) o(1) unfolding r host_inv_def by fastforce
  qed
qed

text \<open>A live key, or none: the two ways a call on a key goes.\<close>

lemma key_handle_cases:
  assumes "machine_ok m"
  obtains ks where "m_handles m k = Some (KeyObj ks)" "key_ok m ks"
      "k_live (abs_ksp m) k = Some (AKey (ks_pub ks))" "keyByHandle k m = Inr ks"
  | "\<And>ks. m_handles m k \<noteq> Some (KeyObj ks)" "\<And>pub. k_live (abs_ksp m) k \<noteq> Some (AKey pub)"
proof (cases "\<exists>ks. m_handles m k = Some (KeyObj ks)")
  case True
  then obtain ks where ks: "m_handles m k = Some (KeyObj ks)" by blast
  moreover have "key_ok m ks" using machine_okD(1)[OF assms ks] by (simp add: object_ok_def)
  ultimately show ?thesis using that(1) by (simp add: abs_live keyByHandle_Inr)
qed (use that(2) in \<open>auto simp: abs_key\<close>)

lemma sim_property:
  assumes "machine_ok m" "ksp_GetKeyProperty d k p out cb pcb m = Some r"
  shows "ksp_spec d (GetKeyProperty k p out cb pcb) (Output r) (abs_ksp m) (abs_ksp m)"
  using assms(1)
proof (cases rule: key_handle_cases[where k = k])
  case (1 ks)
  show ?thesis
  proof (cases "pub_property d (ks_pub ks) (utf16PtrToString d p)")
    case None
    with 1 show ?thesis
      using ksp_spec.no_property[OF 1(3) None, of out cb pcb] assms(2)
      by (simp add: ksp_GetKeyProperty_def GoGetKeyProperty_def key_ok_spec(1)[OF 1(2)]
          statusNotSupported_def NTE_NOT_SUPPORTED_def)
  next
    case (Some v)
    with 1 assms(2) have "r = deliver v out cb pcb"
      by (auto simp: ksp_GetKeyProperty_def GoGetKeyProperty_def key_ok_spec(1)[OF 1(2)]
          dest: copyOut_deliver split: prod.splits)
    then show ?thesis using ksp_spec.property[OF 1(3) Some] by simp
  qed
next
  case 2
  then show ?thesis
    using bad_key_calls(2)[OF 2(1)] ksp_spec.bad_property[OF 2(2)] assms(2) by auto
qed

lemma public_blob_iff: "is_public_blob b \<longleftrightarrow>
    \<not> (b \<noteq> wide ''RSAPUBLICBLOB'' \<and> b \<noteq> wide ''ECCPUBLICBLOB'' \<and> b \<noteq> wide ''PUBLICBLOB'')"
  by (auto simp: is_public_blob_def)

lemma ExportKey_public:
  "is_public_blob b \<Longrightarrow> ksp_ExportKey d k b out cb pcb m = (case GoExportKey d k m of ((ptr, n, st), m1) \<Rightarrow>
      if st \<noteq> 0 then Some (c_fail st out, m1) else map_option (\<lambda>r. (r, m1)) (copyOut ptr n out cb pcb))"
  unfolding ksp_ExportKey_def public_blob_iff by (simp only: if_False)

lemma sim_export:
  assumes "machine_ok m" "ksp_ExportKey d k b out cb pcb m = Some (r, m')"
  shows "ksp_spec d (ExportKey k b out cb pcb) (Output r) (abs_ksp m) (abs_ksp m')"
proof (cases "is_public_blob b")
  case False
  then show ?thesis
    using ksp_spec.private_export[OF False] assms(2) by (auto simp: ksp_ExportKey_def public_blob_iff)
next
  case blob: True
  note e = assms(2)[unfolded ExportKey_public[OF blob]]
  from assms(1) show ?thesis
  proof (cases rule: key_handle_cases[where k = k])
    case (1 ks)
    show ?thesis
    proof (cases "exportPublicBlob ks")
      case (Inl err)
      then have n: "pub_blob (ks_pub ks) = None"
        using key_ok_spec(3)[OF 1(2)] by (cases "pub_blob (ks_pub ks)") auto
      from e have "r = c_fail (statusFromError err) out" "abs_ksp m' = abs_ksp m"
        by (auto simp: GoExportKey_def statusFromError_failure Inl 1(4))
      then show ?thesis
        using ksp_spec.no_export[OF 1(3) blob n statusFromError_in, of d out cb pcb err] by simp
    next
      case (Inr v)
      then have v: "pub_blob (ks_pub ks) = Some v" using key_ok_spec(3)[OF 1(2)] by simp
      from e have "r = deliver v out cb pcb" "m' = m"
        by (auto simp: GoExportKey_def Inr 1(4) dest: copyOut_deliver split: prod.splits)
      then show ?thesis using ksp_spec.export[OF 1(3) blob v] by simp
    qed
  next
    case 2
    then show ?thesis
      using bad_key_calls(1)[OF 2(1)] ksp_spec.bad_export[OF 2(2) blob] e by (auto simp: GoExportKey_def)
  qed
qed

lemma max_size_spec:
  assumes "m_handles m k = Some (KeyObj ks)" "key_ok m ks"
  shows "GoSignatureMaxSize k m = (of_nat (pub_signature (ks_pub ks)), 0)"
  using assms(2) keyByHandle_Inr[of k m ks] assms(1)
  by (cases "ks_pub ks")
    (simp_all add: GoSignatureMaxSize_def Let_def key_ok_def keyLengthBits_def coord_size_def mult.commute)

lemma signHash_size:
  assumes "signHash d ks padding hn digest m = (Inr out, m')" "key_ok m ks"
  shows "pub_group (ks_pub ks) = ''ECDSA'' \<longrightarrow> length out = pub_signature (ks_pub ks)"
  using ecdsa_signature_length[OF assms(1)] assms(2) by (cases "ks_pub ks") (auto simp: key_ok_def)

lemma GoSignHash_cases:
  assumes "GoSignHash d k fl pad digest m = Some ((ptr, n, st), m')" "keyByHandle k m = Inr ks"
  shows "same_handles m m'
     \<and> (if st = 0 then \<exists>padding hn out. requested_padding d fl pad digest = Inr (padding, hn)
          \<and> signHash d ks padding hn digest m = (Inr out, m') \<and> cBytes out = (ptr, n)
        else st \<in> failures)"
proof -
  have "st \<noteq> 0 \<Longrightarrow> st \<in> failures"
    using assms by (auto simp: GoSignHash_def failures_def statusFromError_def
        split: sum.splits if_splits prod.splits option.splits)
  then show ?thesis
    using GoSignHash_success[of d k fl pad digest m ptr n m'] assms same_handles_GoSignHash[OF assms(1)]
    by (auto simp: keyByHandle_Inr)
qed

lemma sim_sign:
  assumes "machine_ok m" "ksp_SignHash d k pad hash out cb pcb fl m = Some (r, m')"
  shows "ksp_spec d (SignHash k pad hash out cb pcb fl) (Output r) (abs_ksp m) (abs_ksp m')"
  using assms(1)
proof (cases rule: key_handle_cases[where k = k])
  case (1 ks)
  show ?thesis
  proof (cases out)
    case None
    then have "r = \<lparr>c_status = 0, c_memory = None,
        c_cbResult = (if pcb then Some (of_nat (pub_signature (ks_pub ks))) else None)\<rparr>" "m' = m"
      using assms(2) max_size_spec[OF 1(1,2)] by (simp_all add: ksp_SignHash_def ERROR_SUCCESS_def)
    then show ?thesis unfolding None using ksp_spec.sized[OF 1(3)] by simp
  next
    case (Some mem)
    then obtain ptr n st where g: "GoSignHash d k fl pad hash m = Some ((ptr, n, st), m')"
      and r: "if st \<noteq> 0 then r = c_fail st (Some mem) else copyOut ptr n (Some mem) cb pcb = Some r"
      using assms(2) by (auto simp: ksp_SignHash_def split: option.splits prod.splits if_splits)
    have s: "abs_ksp m' = abs_ksp m" using GoSignHash_cases[OF g 1(4)] abs_same by blast
    show ?thesis
    proof (cases "st = 0")
      case True
      then obtain padding hn sig where "signHash d ks padding hn hash m = (Inr sig, m')" "cBytes sig = (ptr, n)"
        using GoSignHash_cases[OF g 1(4)] by auto
      then show ?thesis
        using ksp_spec.signed[OF 1(3) signHash_size[OF _ 1(2)]] True s r Some by (auto dest: copyOut_deliver)
    next
      case False
      then have "st \<in> failures" using GoSignHash_cases[OF g 1(4)] by auto
      then show ?thesis using ksp_spec.sign_fails[OF 1(3)] False s r Some by simp
    qed
  qed
next
  case 2
  then show ?thesis
    using bad_key_calls(3)[OF 2(1), of d pad hash out cb pcb fl] ksp_spec.bad_sign[OF 2(2)] assms(2) by auto
qed

lemma host_step_sim:
  assumes "host_inv (Suc k) m" "host_step d c m = Some (r, m')"
  shows "ksp_spec d c r (abs_ksp m) (abs_ksp m')"
proof -
  have ok: "machine_ok m" using assms(1) by (simp add: host_inv_def)
  show ?thesis
  proof (cases c)
    case OpenProvider
    then show ?thesis using sim_open_provider assms by blast
  next
    case (OpenKey p n)
    then show ?thesis using sim_open_key assms by blast
  next
    case (GetKeyProperty h p out cb pcb)
    then show ?thesis using assms(2) sim_property[OF ok] by auto
  next
    case (ExportKey h b out cb pcb)
    then show ?thesis using assms(2) sim_export[OF ok] by auto
  next
    case (SignHash h pad hash out cb pcb fl)
    then show ?thesis using assms(2) sim_sign[OF ok] by auto
  qed (use assms(2) in \<open>auto simp: ksp_FreeProvider_def ksp_FreeKey_def GoFreeHandle_def abs_release ksp_FreeBuffer_def ksp_unsupported_def
         ERROR_SUCCESS_def intro: ksp_spec.intros\<close>)
qed

text \<open>Transitions are labelled with the surroundings, the call and the reply.\<close>

type_synonym host_event = "dll_env \<times> host_call \<times> reply"

fun host_event :: "host_event \<Rightarrow> machine \<Rightarrow> machine \<Rightarrow> bool" where
  "host_event (d, c, r) m m' \<longleftrightarrow> host_step d c m = Some (r, m')"

fun spec_event :: "host_event \<Rightarrow> ksp \<Rightarrow> ksp \<Rightarrow> bool" where
  "spec_event (d, c, r) A A' \<longleftrightarrow> ksp_spec d c r A A'"

interpretation ksp: budgeted_simulation host_event spec_event abs_ksp host_inv
  by unfold_locales (auto intro: host_inv_step host_step_sim split: prod.splits)

lemma host_inv_loaded: "k + 1 < 2 ^ 64 \<Longrightarrow> host_inv k loaded"
  by (simp add: host_inv_def machine_ok_loaded handles_below_def) (simp add: loaded_def)

lemma loaded_traces:
  assumes "runs host_event ls loaded m" "length ls + 1 < 2 ^ 64"
  shows "runs spec_event ls no_handles (abs_ksp m)"
  using ksp.traces[of ls 0 loaded m] assms host_inv_loaded[of "length ls"] by (simp add: abs_loaded)

end
