(* ===== verification/KspTraces.thy ===== *)
theory KspTraces
  imports KspSpec
begin

text \<open>
  Consequences of the specification of \<open>KspSpec\<close> for whole traces, and through the simulation
  for every history of the machine: handles are given out once, and a key can be used only between
  the call that opened it and the call that frees it.
\<close>

section \<open>Reading a trace\<close>

fun given_by :: "host_event \<Rightarrow> u64 list" where
  "given_by (d, c, Opened st (Some h)) = [h]"
| "given_by _ = []"

definition handles_given :: "host_event list \<Rightarrow> u64 list" where
  "handles_given ls = concat (map given_by ls)"

lemma handles_given_simps [simp]:
  "handles_given [] = []" "handles_given (l # ls) = given_by l @ handles_given ls"
  by (simp_all add: handles_given_def)

fun frees :: "host_event \<Rightarrow> u64 option" where
  "frees (d, FreeKey h, r) = Some h"
| "frees (d, FreeProvider h, r) = Some h"
| "frees _ = None"

text \<open>The trace ends with the key open.\<close>

definition key_open :: "u64 \<Rightarrow> host_event list \<Rightarrow> bool" where
  "key_open k ls \<longleftrightarrow> (\<exists>xs d p n ys. ls = xs @ (d, OpenKey p n, Opened 0 (Some k)) # ys
     \<and> (\<forall>l\<in>set ys. frees l \<noteq> Some k))"

lemma key_open_snoc: "key_open k ls \<Longrightarrow> frees l \<noteq> Some k \<Longrightarrow> key_open k (ls @ [l])"
  by (force simp: key_open_def)

lemma key_open_now: "key_open k (ls @ [(d, OpenKey p n, Opened 0 (Some k))])"
  unfolding key_open_def by (intro exI[of _ ls] exI) auto

section \<open>Handles are given out once\<close>

inductive_cases spec_stepE: "ksp_spec d c r A A'"

lemma release_simps [simp]: "k_issued (release h A) = k_issued A" "k_live (release h A) = (k_live A)(h := None)"
  by (simp_all add: release_def)

lemma issue_simps [simp]:
  "k_issued (issue h v A) = insert h (k_issued A)" "k_live (issue h v A) = (k_live A)(h \<mapsto> v)"
  by (simp_all add: issue_def)

lemma spec_given:
  "ksp_spec d c r A A' \<Longrightarrow> k_issued A' = k_issued A \<union> set (given_by (d, c, r))
     \<and> (\<forall>h\<in>set (given_by (d, c, r)). fresh h A) \<and> distinct (given_by (d, c, r))"
  by (induction rule: ksp_spec.induct) auto

lemma spec_handles:
  "runs spec_event ls A A' \<Longrightarrow>
   distinct (handles_given ls) \<and> 0 \<notin> set (handles_given ls) \<and> set (handles_given ls) \<inter> k_issued A = {}"
proof (induction ls arbitrary: A)
  case (Cons l ls)
  obtain d c r where l: "l = (d, c, r)" by (cases l)
  from Cons.prems obtain B where "ksp_spec d c r A B" "runs spec_event ls B A'" by (auto simp: l)
  with spec_given[of d c r A B] Cons.IH[of B] show ?case by (auto simp: l fresh_def)
qed simp

section \<open>A key is used while it is open\<close>

lemma spec_live:
  assumes "ksp_spec d c r A A'" "k_live A' k = Some (AKey pub)"
  shows "(\<exists>p n. c = OpenKey p n \<and> r = Opened 0 (Some k)) \<or> k_live A k = Some (AKey pub) \<and> frees (d, c, r) \<noteq> Some k"
  using assms by (induction rule: ksp_spec.induct) (auto split: if_splits)

lemma spec_key_open:
  "runs spec_event ls no_handles A \<Longrightarrow> k_live A k = Some (AKey pub) \<Longrightarrow> key_open k ls"
proof (induction ls arbitrary: A pub rule: rev_induct)
  case Nil
  then show ?case by (simp add: no_handles_def)
next
  case (snoc l ls)
  obtain d c r where l: "l = (d, c, r)" by (cases l)
  from snoc.prems obtain B where B: "runs spec_event ls no_handles B" "ksp_spec d c r B A"
    by (auto simp: runs_append l)
  from spec_live[OF B(2) snoc.prems(2)] show ?case
    using snoc.IH[OF B(1)] key_open_snoc key_open_now unfolding l by blast
qed

lemma spec_use:
  "ksp_spec d c (Output res) A A' \<Longrightarrow> key_of c = Some k \<Longrightarrow> c_status res = 0 \<Longrightarrow>
   \<exists>pub. k_live A k = Some (AKey pub)"
  by (erule spec_stepE) (auto simp: NTE_NOT_SUPPORTED_def dest: failures_iff)

text \<open>Traces of the machine.\<close>

lemma host_handles:
  assumes "runs host_event ls loaded m" "length ls + 1 < 2 ^ 64"
  shows "distinct (handles_given ls) \<and> 0 \<notin> set (handles_given ls)"
  using spec_handles[OF loaded_traces[OF assms]] by simp

lemma host_use:
  assumes "runs host_event (ls @ [(d, c, Output res)]) loaded m" "length ls + 2 < 2 ^ 64"
    and "key_of c = Some k" "c_status res = 0"
  shows "key_open k ls"
proof -
  have "runs spec_event (ls @ [(d, c, Output res)]) no_handles (abs_ksp m)"
    using assms(1,2) by (intro loaded_traces) auto
  then obtain A where "runs spec_event ls no_handles A" "ksp_spec d c (Output res) A (abs_ksp m)"
    by (auto simp: runs_append)
  with spec_use[OF _ assms(3,4)] spec_key_open show ?thesis by blast
qed

section \<open>The two-call protocol\<close>

text \<open>A call without a buffer reports the length; the same call with a buffer of that length
  succeeds and fills it.\<close>

lemma deliver_fits:
  assumes "c_cbResult (deliver b None cb0 True) = Some n" "length mem = unat n"
  shows "c_status (deliver b (Some mem) n pcb) = 0"
    and "c_memory (deliver b (Some mem) n pcb) = Some (take (length mem) b)"
  using assms by (auto simp: deliver_def Let_def unat_of_nat)

lemma deliver_small:
  "c_status (deliver b (Some mem) cb pcb) \<noteq> 0 \<Longrightarrow> c_memory (deliver b (Some mem) cb pcb) = Some mem
     \<and> c_status (deliver b (Some mem) cb pcb) = NTE_BUFFER_TOO_SMALL"
  by (auto simp: deliver_def Let_def split: if_splits)

lemma deliver_query: "c_status (deliver b None cb pcb) = 0" "c_memory (deliver b None cb pcb) = None"
  by (simp_all add: deliver_def Let_def)

text \<open>A reply that reports failure has left the host's buffer alone.\<close>

lemma spec_failure_silent:
  "ksp_spec d c (Output res) A A' \<Longrightarrow> c_status res \<noteq> 0 \<Longrightarrow>
   c_memory res = (case c of GetKeyProperty _ _ out _ _ \<Rightarrow> out | ExportKey _ _ out _ _ \<Rightarrow> out
     | SignHash _ _ _ out _ _ _ \<Rightarrow> out | _ \<Rightarrow> None)"
  by (erule spec_stepE) (auto simp: deliver_def Let_def split: option.splits if_splits)

section \<open>Buffers\<close>

text \<open>The buffer a call offers for output.\<close>

fun output_buffer :: "host_call \<Rightarrow> (bytes option \<times> u32) option" where
  "output_buffer (GetKeyProperty _ _ out cb _) = Some (out, cb)"
| "output_buffer (ExportKey _ _ out cb _) = Some (out, cb)"
| "output_buffer (SignHash _ _ _ out cb _ _) = Some (out, cb)"
| "output_buffer _ = None"

lemma host_step_within:
  assumes "host_step d c m = Some (Output r, m')" "output_buffer c = Some (out, cb)"
  shows "within cb out (c_memory r)"
  using assms by (cases c) (auto intro: GetKeyProperty_within ExportKey_within SignHash_within)

section \<open>Replies in terms of what is delivered\<close>

lemma keyByHandle_live: "m_handles m k = Some (KeyObj ks) \<Longrightarrow> keyByHandle k m = Inr ks"
  by (simp add: keyByHandle_Inr)

text \<open>A read of data \<open>v\<close> from a live key.\<close>

definition reads :: "dll_env \<Rightarrow> u64 \<Rightarrow> key_state \<Rightarrow> bytes \<Rightarrow> (bytes option \<Rightarrow> u32 \<Rightarrow> host_call) \<Rightarrow> bool" where
  "reads d k ks v c \<longleftrightarrow>
     (\<exists>p. c = (\<lambda>out cb. GetKeyProperty k p out cb True) \<and> keyProperty d ks (utf16PtrToString d p) = Some v)
   \<or> (\<exists>b. c = (\<lambda>out cb. ExportKey k b out cb True) \<and> is_public_blob b \<and> exportPublicBlob ks = Inr v)"

lemma read_replies:
  assumes "m_handles m k = Some (KeyObj ks)" "reads d k ks v c" "length v < 2 ^ 31"
    and "\<forall>mem. out = Some mem \<longrightarrow> unat cb \<le> length mem"
  shows "host_step d (c out cb) m = Some (Output (deliver v out cb True), m)"
  using assms(2) keyByHandle_live[OF assms(1)] copyOut_returns[OF _ assms(3,4), of _ _ True]
  by (auto simp: reads_def ksp_GetKeyProperty_def GoGetKeyProperty_def ExportKey_public GoExportKey_def
      split: prod.split)

lemma SignHash_reply:
  assumes "ksp_SignHash d k pad hash (Some mem) cb pcb fl m = Some (r, m')"
    and "m_handles m k = Some (KeyObj ks)"
  shows "c_status r \<in> failures \<or> (\<exists>padding hn sig. requested_padding d fl pad hash = Inr (padding, hn)
     \<and> signHash d ks padding hn hash m = (Inr sig, m') \<and> r = deliver sig (Some mem) cb pcb)"
proof -
  obtain ptr n st where g: "GoSignHash d k fl pad hash m = Some ((ptr, n, st), m')"
    and r: "if st \<noteq> 0 then r = c_fail st (Some mem) else copyOut ptr n (Some mem) cb pcb = Some r"
    using assms(1) by (auto simp: ksp_SignHash_def split: option.splits prod.splits if_splits)
  from GoSignHash_cases[OF g keyByHandle_live[OF assms(2)]] have c: "if st = 0 then \<exists>padding hn out.
      requested_padding d fl pad hash = Inr (padding, hn)
      \<and> signHash d ks padding hn hash m = (Inr out, m') \<and> cBytes out = (ptr, n) else st \<in> failures"
    by blast
  show ?thesis
  proof (cases "st = 0")
    case True
    with c obtain padding hn out where "requested_padding d fl pad hash = Inr (padding, hn)"
      "signHash d ks padding hn hash m = (Inr out, m')" "cBytes out = (ptr, n)" by auto
    moreover have "r = deliver out (Some mem) cb pcb" using r True calculation(3) by (auto dest: copyOut_deliver)
    ultimately show ?thesis by blast
  qed (use c r in simp)
qed

section \<open>Calls that return\<close>

text \<open>What a call asks of its surroundings to return at all: buffers as large as the host says, a
  digest and data that fit an \<^verbatim>\<open>int\<close>.\<close>

definition honest_call :: "host_call \<Rightarrow> bool" where
  "honest_call c \<longleftrightarrow>
     (\<forall>mem cb. output_buffer c = Some (Some mem, cb) \<longrightarrow> unat cb \<le> length mem)
   \<and> (case c of SignHash _ _ hash _ _ _ _ \<Rightarrow> length hash < 2 ^ 31 | _ \<Rightarrow> True)"

definition small_data :: "dll_env \<Rightarrow> machine \<Rightarrow> key_state \<Rightarrow> bool" where
  "small_data d m ks \<longleftrightarrow>
     (\<forall>name v. keyProperty d ks name = Some v \<longrightarrow> length v < 2 ^ 31)
   \<and> (\<forall>v. exportPublicBlob ks = Inr v \<longrightarrow> length v < 2 ^ 31)
   \<and> (\<forall>padding hn hash v m'. signHash d ks padding hn hash m = (Inr v, m') \<longrightarrow> length v < 2 ^ 31)"

lemma small_dataD:
  "small_data d m ks \<Longrightarrow> keyProperty d ks name = Some v \<Longrightarrow> length v < 2 ^ 31"
  "small_data d m ks \<Longrightarrow> exportPublicBlob ks = Inr v \<Longrightarrow> length v < 2 ^ 31"
  "small_data d m ks \<Longrightarrow> signHash d ks padding hn hash m = (Inr v, m') \<Longrightarrow> length v < 2 ^ 31"
  unfolding small_data_def by blast+

lemma GetKeyProperty_returns:
  assumes "honest_call (GetKeyProperty k p out cb pcb)"
    and "\<And>ks. m_handles m k = Some (KeyObj ks) \<Longrightarrow> small_data d m ks"
  shows "\<exists>r. ksp_GetKeyProperty d k p out cb pcb m = Some r"
proof (cases "\<exists>ks v. m_handles m k = Some (KeyObj ks) \<and> keyProperty d ks (utf16PtrToString d p) = Some v")
  case True
  then obtain ks v where ks: "m_handles m k = Some (KeyObj ks)" "keyProperty d ks (utf16PtrToString d p) = Some v"
    by blast
  then have "length v < 2 ^ 31" using assms(2) small_dataD(1) by blast
  with ks assms(1) show ?thesis
    by (auto simp: ksp_GetKeyProperty_def GoGetKeyProperty_def keyByHandle_live honest_call_def
        copyOut_returns split: prod.splits)
qed (auto simp: ksp_GetKeyProperty_def GoGetKeyProperty_def statusNotSupported_def keyByHandle_Inr
    split: sum.split option.split)

lemma ExportKey_returns:
  assumes "honest_call (ExportKey k b out cb pcb)"
    and "\<And>ks. m_handles m k = Some (KeyObj ks) \<Longrightarrow> small_data d m ks"
  shows "\<exists>r m'. ksp_ExportKey d k b out cb pcb m = Some (r, m')"
proof (cases "is_public_blob b")
  case blob: True
  show ?thesis
  proof (cases "\<exists>ks v. m_handles m k = Some (KeyObj ks) \<and> exportPublicBlob ks = Inr v")
    case True
    then obtain ks v where ks: "m_handles m k = Some (KeyObj ks)" "exportPublicBlob ks = Inr v" by blast
    then have "length v < 2 ^ 31" using assms(2) small_dataD(2) by blast
    with ks assms(1) show ?thesis
      by (auto simp: ExportKey_public[OF blob] GoExportKey_def keyByHandle_live honest_call_def
          copyOut_returns split: prod.splits)
  qed (auto simp: ExportKey_public[OF blob] GoExportKey_def statusFromError_failure keyByHandle_Inr
      split: sum.split)
qed (simp add: ksp_ExportKey_def public_blob_iff)

lemma GoSignHash_returns:
  assumes "length hash < 2 ^ 31"
  shows "\<exists>ptr n st m'. GoSignHash d k fl pad hash m = Some ((ptr, n, st), m')"
  using assms by (auto simp: GoSignHash_def split: sum.split prod.split)

lemma SignHash_returns:
  assumes "honest_call (SignHash k pad hash out cb pcb fl)"
    and "\<And>ks. m_handles m k = Some (KeyObj ks) \<Longrightarrow> small_data d m ks"
  shows "\<exists>r m'. ksp_SignHash d k pad hash out cb pcb fl m = Some (r, m')"
proof (cases out)
  case (Some mem)
  obtain ptr n st m' where g: "GoSignHash d k fl pad hash m = Some ((ptr, n, st), m')"
    using GoSignHash_returns[of hash d k fl pad m] assms(1) by (auto simp: honest_call_def)
  show ?thesis
  proof (cases "st = 0")
    case True
    with GoSignHash_success[of d k fl pad hash m ptr n m'] g obtain ks padding hn v where
      v: "m_handles m k = Some (KeyObj ks)" "signHash d ks padding hn hash m = (Inr v, m')" "cBytes v = (ptr, n)"
      by auto
    then have "length v < 2 ^ 31" using assms(2) small_dataD(3) by blast
    with v(3) assms(1) Some g True show ?thesis
      by (auto simp: ksp_SignHash_def honest_call_def copyOut_returns)
  qed (simp add: ksp_SignHash_def Some g)
qed (simp add: ksp_SignHash_def split: prod.split)

lemma host_step_returns:
  assumes "honest_call c"
    and "\<And>k ks. key_of c = Some k \<Longrightarrow> m_handles m k = Some (KeyObj ks) \<Longrightarrow> small_data d m ks"
  shows "\<exists>r m'. host_step d c m = Some (r, m')"
proof (cases c)
  case (GetKeyProperty k p out cb pcb)
  then show ?thesis using GetKeyProperty_returns[of k p out cb pcb m d] assms by auto
next
  case (ExportKey k b out cb pcb)
  then show ?thesis using ExportKey_returns[of k b out cb pcb m d] assms by auto
next
  case (SignHash k pad hash out cb pcb fl)
  then show ?thesis using SignHash_returns[of k pad hash out cb pcb fl m d] assms by auto
qed (auto split: prod.split)

end
