(* ===== verification/JsonPrint.thy ===== *)
theory JsonPrint
  imports Json
begin

text \<open>
  A printer for JSON values whose strings need no escapes, and the proof that the parser reads
  its output back. Servers and administrators write such texts; the round trip is what lets the
  properties of the clients of \<open>json_Unmarshal\<close> start from a value instead of from its text.
\<close>

section \<open>Printing\<close>

fun sep_by :: "'a \<Rightarrow> 'a list list \<Rightarrow> 'a list" where
  "sep_by s [] = []"
| "sep_by s [x] = x"
| "sep_by s (x # y # xs) = x @ s # sep_by s (y # xs)"

definition plain_char :: "char \<Rightarrow> bool" where
  "plain_char c \<longleftrightarrow> 32 \<le> byte c \<and> byte c < 128 \<and> c \<noteq> CHR 0x22 \<and> c \<noteq> CHR 0x5C"

definition plain :: "string \<Rightarrow> bool" where
  "plain s = list_all plain_char s"

definition quoted :: "string \<Rightarrow> string" where
  "quoted s = CHR 0x22 # s @ [CHR 0x22]"

fun render :: "json \<Rightarrow> string" where
  "render JNull = ''null''"
| "render (JBool b) = (if b then ''true'' else ''false'')"
| "render (JNum s) = s"
| "render (JStr s) = quoted s"
| "render (JArr js) = ''['' @ sep_by CHR '','' (map render js) @ '']''"
| "render (JObj ms) = ''{'' @ sep_by CHR '','' (map (\<lambda>(k, v). quoted k @ '':'' @ render v) ms) @ ''}''"

text \<open>The values the printer is for, nested at most \<open>n\<close> deep.\<close>

fun printable :: "nat \<Rightarrow> json \<Rightarrow> bool" where
  "printable n JNull = True"
| "printable n (JBool b) = True"
| "printable n (JNum s) = (valid_number s \<and> list_all num_char s)"
| "printable n (JStr s) = plain s"
| "printable n (JArr js) = (n \<noteq> 0 \<and> (\<forall>j\<in>set js. printable (n - 1) j))"
| "printable n (JObj ms) = (n \<noteq> 0 \<and> (\<forall>(k, v)\<in>set ms. plain k \<and> printable (n - 1) v))"

fun toks :: "json \<Rightarrow> token list" where
  "toks JNull = [TNull]"
| "toks (JBool b) = [TBool b]"
| "toks (JNum s) = [TNum s]"
| "toks (JStr s) = [TStr s]"
| "toks (JArr js) = TLBrack # sep_by TComma (map toks js) @ [TRBrack]"
| "toks (JObj ms) = TLBrace # sep_by TComma (map (\<lambda>(k, v). TStr k # TColon # toks v) ms) @ [TRBrace]"

section \<open>The lexer on printed text\<close>

lemma decode_rune_ascii: "byte c < 128 \<Longrightarrow> decode_rune (c # s) = (byte c, 1)"
  by (simp add: decode_rune.simps rune_width_def Let_def)

lemma unquote_plain: "plain s \<Longrightarrow> unquote s = s"
proof (induction s)
  case (Cons c s)
  then have c: "byte c < 128" "c \<noteq> CHR 0x5C" "plain s" by (auto simp: plain_def plain_char_def)
  then have "unquote_step (c # s) = ([c], 1)"
    by (simp add: unquote_step_def encode_rune_def decode_rune_ascii del: decode_rune.simps)
  with Cons c show ?case by (subst unquote.simps) simp
qed (simp add: unquote.simps)

lemma raw_string_plain: "plain s \<Longrightarrow> raw_string (s @ CHR 0x22 # rest) = Some (s, rest)"
  by (induction s) (auto simp: plain_def plain_char_def)

lemma next_token_quoted: "plain s \<Longrightarrow> next_token (quoted s @ rest) = Some (TStr s, rest)"
  by (simp add: next_token_def quoted_def raw_string_plain unquote_plain)

text \<open>What may follow a value.\<close>

definition delimited :: "string \<Rightarrow> bool" where
  "delimited rest \<longleftrightarrow> rest = [] \<or> hd rest \<in> {CHR '','', CHR '']'', CHR ''}''}"

definition prepend :: "token list \<Rightarrow> token list option \<Rightarrow> token list option" where
  "prepend ts r = map_option ((@) ts) r"

lemma prepend_simps [simp]:
  "prepend [] r = r" "prepend a (prepend b r) = prepend (a @ b) r"
  by (cases r; simp add: prepend_def)+

lemma tokens_step:
  "next_token (c # s) = Some (t, rest) \<Longrightarrow> \<not> json_ws c \<Longrightarrow> tokens (c # s) = prepend [t] (tokens rest)"
  by (cases "tokens rest") (simp_all add: tokens.simps[of "c # s"] prepend_def)

lemma tokens_punct:
  "tokens (CHR ''{'' # s) = prepend [TLBrace] (tokens s)"
  "tokens (CHR ''}'' # s) = prepend [TRBrace] (tokens s)"
  "tokens (CHR ''['' # s) = prepend [TLBrack] (tokens s)"
  "tokens (CHR '']'' # s) = prepend [TRBrack] (tokens s)"
  "tokens (CHR '','' # s) = prepend [TComma] (tokens s)"
  "tokens (CHR '':'' # s) = prepend [TColon] (tokens s)"
  by (rule tokens_step; simp add: next_token_def json_ws_def)+

lemma tokens_quoted: "plain s \<Longrightarrow> tokens (quoted s @ rest) = prepend [TStr s] (tokens rest)"
  using tokens_step[of "CHR 0x22" "(s @ [CHR 0x22]) @ rest" "TStr s" rest] next_token_quoted[of s rest]
  by (simp add: quoted_def json_ws_def)

lemma num_char_delim: "delimited rest \<Longrightarrow> rest = [] \<or> \<not> num_char (hd rest)"
  by (auto simp: delimited_def num_char_def is_digit_def byte_def)

definition number_start :: "char \<Rightarrow> bool" where
  "number_start c \<longleftrightarrow> is_digit c \<or> c = CHR ''-''"

lemma number_start_byte: "number_start c \<Longrightarrow> byte c = 45 \<or> 48 \<le> byte c \<and> byte c \<le> 57"
  by (auto simp: number_start_def is_digit_def byte_def)

lemma valid_number_start: "valid_number s \<Longrightarrow> \<exists>c t. s = c # t \<and> number_start c"
  by (cases s; cases "tl s")
    (auto simp: valid_number_def Let_def HasPrefix_def number_start_def split: if_splits prod.splits)

lemma number_start_not:
  "number_start c \<Longrightarrow> c \<notin> set ''{}[],:tfn'' \<and> c \<noteq> CHR 0x22 \<and> \<not> json_ws c"
  using number_start_byte[of c] by (auto simp: json_ws_def byte_def)

lemma next_token_number:
  assumes "number_start c" "valid_number (takeWhile num_char (c # t))"
  shows "next_token (c # t) = Some (TNum (takeWhile num_char (c # t)), dropWhile num_char (c # t))"
  using assms number_start_not[OF assms(1)]
  by (auto simp: next_token_def HasPrefix_def number_start_def simp del: takeWhile.simps dropWhile.simps)

lemma tokens_number:
  assumes "valid_number s" "list_all num_char s" "delimited rest"
  shows "tokens (s @ rest) = prepend [TNum s] (tokens rest)"
proof -
  obtain c t where s: "s = c # t" and c: "number_start c"
    using valid_number_start[OF assms(1)] by blast
  have "takeWhile num_char rest = []" "dropWhile num_char rest = rest"
    using num_char_delim[OF assms(3)] by (cases rest; simp)+
  then have tw: "takeWhile num_char (s @ rest) = s" "dropWhile num_char (s @ rest) = rest"
    using assms(2) by (simp_all add: list_all_iff takeWhile_append2 dropWhile_append2)
  have "next_token (c # (t @ rest)) = Some (TNum s, rest)"
    using next_token_number[OF c, of "t @ rest"] tw assms(1) unfolding s append.simps by simp
  then show ?thesis
    using number_start_not[OF c] unfolding s append.simps by (intro tokens_step) simp_all
qed

lemma delimited_simps [simp]:
  "delimited []" "delimited (CHR '','' # s)" "delimited (CHR '']'' # s)" "delimited (CHR ''}'' # s)"
  by (simp_all add: delimited_def)

lemma tokens_word:
  "tokens (''null'' @ rest) = prepend [TNull] (tokens rest)"
  "tokens (''true'' @ rest) = prepend [TBool True] (tokens rest)"
  "tokens (''false'' @ rest) = prepend [TBool False] (tokens rest)"
  unfolding append.simps
  by (rule tokens_step; simp add: next_token_def json_ws_def HasPrefix_def)+

text \<open>A separated list, once each of its parts is known to lex.\<close>

lemma tokens_sep_by:
  assumes "\<And>x rest. x \<in> set xs \<Longrightarrow> delimited rest \<Longrightarrow> tokens (f x @ rest) = prepend (g x) (tokens rest)"
    and "delimited rest"
  shows "tokens (sep_by CHR '','' (map f xs) @ rest) = prepend (sep_by TComma (map g xs)) (tokens rest)"
  using assms
proof (induction xs)
  case (Cons x xs)
  show ?case
  proof (cases xs)
    case Nil
    with Cons.prems show ?thesis by simp
  next
    case (Cons y ys)
    with Cons.IH Cons.prems
    have "tokens (sep_by CHR '','' (map f xs) @ rest) = prepend (sep_by TComma (map g xs)) (tokens rest)"
      by simp
    with Cons Cons.prems(1)[of x] show ?thesis by (simp add: tokens_punct)
  qed
qed simp

lemma tokens_render:
  "printable n j \<Longrightarrow> delimited rest \<Longrightarrow> tokens (render j @ rest) = prepend (toks j) (tokens rest)"
proof (induction n j arbitrary: rest rule: printable.induct)
  case (5 n js)
  have "tokens (sep_by CHR '','' (map render js) @ ('']'' @ rest))
      = prepend (sep_by TComma (map toks js)) (tokens ('']'' @ rest))"
    using 5 by (intro tokens_sep_by) auto
  then show ?case by (simp add: tokens_punct)
next
  case (6 n ms)
  have "tokens ((case m of (k, v) \<Rightarrow> quoted k @ '':'' @ render v) @ r)
      = prepend (case m of (k, v) \<Rightarrow> TStr k # TColon # toks v) (tokens r)"
    if "m \<in> set ms" "delimited r" for m r
    using 6 that by (cases m) (auto simp: tokens_quoted tokens_punct)
  then have "tokens (sep_by CHR '','' (map (\<lambda>(k, v). quoted k @ '':'' @ render v) ms) @ (''}'' @ rest))
      = prepend (sep_by TComma (map (\<lambda>(k, v). TStr k # TColon # toks v) ms)) (tokens (''}'' @ rest))"
    by (intro tokens_sep_by) auto
  then show ?case by (simp add: tokens_punct)
qed (use tokens_word in \<open>auto simp: tokens_quoted tokens_number\<close>)

section \<open>The parser on the tokens of a value\<close>

lemma run_array:
  assumes "\<And>j fs' ts'. j \<in> set js \<Longrightarrow> length fs' = length fs + 1 \<Longrightarrow>
      json_run PVal fs' (toks j @ ts') = json_run (PDone j) fs' ts'"
    and "js \<noteq> []"
  shows "json_run PVal (FArr vs # fs) (sep_by TComma (map toks js) @ TRBrack # ts)
       = json_run (PDone (JArr (rev vs @ js))) fs ts"
  using assms
proof (induction js arbitrary: vs)
  case (Cons j js)
  show ?case
  proof (cases js)
    case Nil
    with Cons.prems(1)[of j "FArr vs # fs"] show ?thesis by simp
  next
    case (Cons y ys)
    with Cons.IH[of "j # vs"] Cons.prems(1) show ?thesis by simp
  qed
qed simp

lemma run_object:
  assumes "\<And>k v fs' ts'. (k, v) \<in> set ms \<Longrightarrow> length fs' = length fs + 1 \<Longrightarrow>
      json_run PVal fs' (toks v @ ts') = json_run (PDone v) fs' ts'"
    and "ms \<noteq> []" "st \<in> {PKey, PKeyOrEnd}"
  shows "json_run st (FObj old # fs)
           (sep_by TComma (map (\<lambda>(k, v). TStr k # TColon # toks v) ms) @ TRBrace # ts)
       = json_run (PDone (JObj (rev old @ ms))) fs ts"
  using assms
proof (induction ms arbitrary: old st)
  case (Cons m ms)
  obtain k v where m: "m = (k, v)" by force
  show ?case
  proof (cases ms)
    case Nil
    with Cons.prems(1)[of k v "FVal old k # fs"] Cons.prems(3) m show ?thesis by auto
  next
    case (Cons y ys)
    have later: "json_run PVal fs' (toks w @ ts') = json_run (PDone w) fs' ts'"
      if "(l, w) \<in> set ms" "length fs' = length fs + 1" for l w fs' ts'
      using that by (intro Cons.prems(1)[of l]) simp_all
    have "json_run PKey (FObj ((k, v) # old) # fs)
        (sep_by TComma (map (\<lambda>(k, v). TStr k # TColon # toks v) ms) @ TRBrace # ts)
      = json_run (PDone (JObj (rev ((k, v) # old) @ ms))) fs ts"
      by (rule Cons.IH) (use later Cons in auto)
    then show ?thesis using Cons.prems(1)[of k v "FVal old k # fs"] Cons.prems(3) Cons m by auto
  qed
qed simp

text \<open>A state that also accepts the end of an array goes the way of \<open>PVal\<close> on a value.\<close>

lemma toks_first: "\<exists>t ts. toks j = t # ts \<and> t \<noteq> TRBrack \<and> t \<noteq> TRBrace"
  by (cases j) auto

lemma run_first_of_array:
  "js \<noteq> [] \<Longrightarrow> json_run PValOrEnd fs (sep_by TComma (map toks js) @ ts)
     = json_run PVal fs (sep_by TComma (map toks js) @ ts)"
proof -
  assume "js \<noteq> []"
  then obtain j js' where js: "js = j # js'" by (cases js) auto
  obtain t ts' where t: "toks j = t # ts'" "t \<noteq> TRBrack" using toks_first[of j] by blast
  have "json_step PValOrEnd fs t = json_step PVal fs t"
    using t(2) by (cases fs; cases t; cases "hd fs") auto
  with js t show ?thesis by (cases js') simp_all
qed

lemma run_render:
  "printable n j \<Longrightarrow> n + length fs \<le> 10000 \<Longrightarrow>
   json_run PVal fs (toks j @ ts) = json_run (PDone j) fs ts"
proof (induction n j arbitrary: fs ts rule: printable.induct)
  case (5 n js)
  have IH: "json_run PVal fs' (toks j @ ts') = json_run (PDone j) fs' ts'"
    if "j \<in> set js" "length fs' = length fs + 1" for j fs' ts'
    using that 5 by auto
  show ?case
  proof (cases "js = []")
    case False
    with 5(2,3) show ?thesis
      using run_array[of js fs "[]" ts] IH by (simp add: start_value_def run_first_of_array)
  qed (use 5 in \<open>simp add: start_value_def\<close>)
next
  case (6 n ms)
  have IH: "json_run PVal fs' (toks v @ ts') = json_run (PDone v) fs' ts'"
    if "(k, v) \<in> set ms" "length fs' = length fs + 1" for k v fs' ts'
    using that 6 by fastforce
  show ?case
  proof (cases "ms = []")
    case False
    with 6(2,3) run_object[of ms fs PKeyOrEnd "[]" ts] IH show ?thesis
      by (simp add: start_value_def)
  qed (use 6 in \<open>simp add: start_value_def\<close>)
qed (simp_all add: start_value_def)

text \<open>The round trip, as the codec interface of the prelude.\<close>

theorem json_parse_render: "printable 10000 j \<Longrightarrow> json_parse (render j) = Some j"
  using tokens_render[of 10000 j "[]"] run_render[of 10000 j "[]" "[]"]
  by (simp add: json_parse_def prepend_def tokens.simps[of "[]"])

interpretation json_text: codec "printable 10000" render json_parse
  by unfold_locales (rule json_parse_render)

lemma json_Unmarshal_render:
  "printable 10000 j \<Longrightarrow> json_Unmarshal dec (render j) old = dec j old"
  by (simp add: json_Unmarshal_def json_parse_render)

declare render.simps [simp del] printable.simps [simp del]

end
