(* ===== verification/Scenario.thy ===== *)
theory Scenario
  imports Client JsonPrint
begin

text \<open>
  Concrete surroundings on which the properties of the session and of the DLL are instantiated: a
  clock that advances by a second at each reading, a server that answers by path from a table
  of JSON values, and a machine whose environment gives the server and a token.
\<close>

section \<open>The process and its machine\<close>

definition demo_os :: os_info where
  "demo_os = env_only_os"

definition demo_clock :: "nat \<Rightarrow> instant" where
  "demo_clock n = int n * second"

section \<open>The server\<close>

type_synonym answers = "(string \<times> int \<times> json) list"

definition demo_execute :: "answers \<Rightarrow> http_request list \<Rightarrow> http_request \<Rightarrow> string + http_response" where
  "demo_execute as log rq = (case map_of as (rq_Path rq) of
       None \<Rightarrow> Inl ''connection refused''
     | Some (code, body) \<Rightarrow> Inr \<lparr>rs_StatusCode = code, rs_Body = render body\<rparr>)"

definition demo_resty :: "answers \<Rightarrow> resty" where
  "demo_resty as = \<lparr>rt_Execute = demo_execute as, rt_IsError = (\<lambda>r. 399 < rs_StatusCode r),
     rt_Parses = (\<lambda>r. 200 \<le> rs_StatusCode r \<and> rs_StatusCode r \<le> 299)\<rparr>"

definition demo_x509 :: "public_key \<Rightarrow> x509_lib" where
  "demo_x509 key = \<lparr>x_AppendCertsFromPEM = (\<lambda>_. True), x_pemDecode = (\<lambda>s. Some (bytes_of s)),
     x_ParseCertificate = (\<lambda>_. Inr key)\<rparr>"

definition demo_key :: public_key where
  "demo_key = ECDSAPublicKey \<lparr>ec_BitSize = 256, ec_X = 5, ec_Y = 7\<rparr>"

definition demo_env :: "answers \<Rightarrow> env" where
  "demo_env as = \<lparr>e_OS = demo_os, e_Clock = demo_clock, e_Resty = demo_resty as,
     e_X509 = demo_x509 demo_key, e_Lower = (\<lambda>n. n), e_Upper = (\<lambda>n. n), e_Print = (\<lambda>_. True)\<rparr>"

section \<open>Configurations and clients\<close>

definition demo_config :: config where
  "demo_config = zero_config
     \<lparr>ServerURL := ''https://h'',
      Auth := \<lparr>auth_Method = AuthMethodUniversalAuth, auth_ClientID = ''id'',
              auth_ClientSecret = ''secret'', auth_Token = []\<rparr>,
      Cache := \<lparr>TokenTTLSeconds = 300, CertTTLSeconds = 3600, SignerTTLSeconds = 300\<rparr>\<rparr>"

definition token_config :: config where
  "token_config = demo_config
     \<lparr>Auth := \<lparr>auth_Method = AuthMethodToken, auth_ClientID = [], auth_ClientSecret = [],
              auth_Token = ''tok''\<rparr>,
      Approval := \<lparr>SigningCount = 2, SigningDuration = []\<rparr>\<rparr>"

definition demo_client :: client where
  "demo_client = \<lparr>cl_BaseURL = ''https://h'', cl_MinVersion = VersionTLS12,
     cl_InsecureSkipVerify = False, cl_RootCAs = None, cl_Timeout = clientTimeout,
     cl_UserAgent = userAgent\<rparr>"

definition demo_world :: world where
  "demo_world = \<lparr>w_ticks = 0, w_sent = [], w_authFail = Map.empty, w_signingCtx = None\<rparr>"

section \<open>What the server says\<close>

definition login_path :: string where "login_path = ''/api/v1/auth/universal-auth/login''"

definition ok_answers :: answers where
  "ok_answers =
     [(login_path, 200, JObj [(''accessToken'', JStr ''tok''), (''expiresIn'', JNum ''300'')]),
      (''/api/v1/cert-manager/signers'', 200,
        JObj [(''signers'', JArr [JObj [(''id'', JStr ''s1''), (''name'', JStr ''one'')],
                                  JObj [(''id'', JStr ''one''), (''name'', JStr ''two'')]])]),
      (''/api/v1/cert-manager/signers/s1/certificate'', 200, JObj [(''certificatePem'', JStr ''pem'')]),
      (''/api/v1/cert-manager/signers/s1/sign'', 200, JObj [(''signature'', JStr ''MAcCAgDIAgEH'')])]"

definition denied_answers :: answers where
  "denied_answers =
     [(''/api/v1/cert-manager/signers/s1/sign'', 403, JObj [(''error'', JStr ''ApprovalRequired'')]),
      (''/api/v1/cert-manager/signers/s1/requests'', 200,
        JObj [(''id'', JStr ''r1''), (''status'', JStr ''pending'')])]"

lemmas demo_defs = demo_env_def demo_resty_def demo_execute_def demo_x509_def

lemma demo_escape [simp]: "PathEscape ''s1'' = ''s1''"
  by code_simp

lemma demo_paths [simp]:
  "signer_path ''s1'' ''sign'' = ''/api/v1/cert-manager/signers/s1/sign''"
  "signer_path ''s1'' ''certificate'' = ''/api/v1/cert-manager/signers/s1/certificate''"
  "signer_path ''s1'' ''requests'' = ''/api/v1/cert-manager/signers/s1/requests''"
  by (simp_all add: signer_path_def)

lemma demo_call_ok:
  assumes "map_of as (rq_Path rq) = Some (code, j)" "printable 10000 j" "200 \<le> code" "code \<le> 299"
  shows "fst (do_call (demo_env as) opn dec zero rq w)
       = (case dec j zero of (out, ok) \<Rightarrow> if ok then Inr out else Inl (RequestErr opn (LibErr ''json'')))"
  using assms by (simp add: do_call_cases demo_defs json_Unmarshal_render split: prod.split)

lemma demo_call_error:
  assumes "map_of as (rq_Path rq) = Some (code, j)" "399 < code"
  shows "fst (do_call (demo_env as) opn dec zero rq w)
       = Inl (APIErr (newAPIError opn \<lparr>rs_StatusCode = code, rs_Body = render j\<rparr>))"
  using assms by (simp add: do_call_cases demo_defs)

lemma demo_call_lost:
  assumes "map_of as (rq_Path rq) = None"
  shows "fst (do_call (demo_env as) opn dec zero rq w)
       = Inl (RequestErr opn (LibErr ''connection refused''))"
  using assms by (simp add: do_call_cases demo_defs)

lemmas printable_defs = printable.simps plain_def plain_char_def byte_def valid_number_def HasPrefix_def is_digit_def
  Let_def num_char_def

lemmas decode_defs = dec_struct_def select_field_def dec_string_def dec_int_def dec_bool_def
  Let_def HasPrefix_def is_digit_def byte_def dec_val_def digit_val_def

lemma printable_answers [simp]:
  "printable 10000 (JObj [(''accessToken'', JStr ''tok''), (''expiresIn'', JNum ''300'')])"
  "printable 10000 (JObj [(''signers'', JArr [JObj [(''id'', JStr ''s1''), (''name'', JStr ''one'')],
      JObj [(''id'', JStr ''one''), (''name'', JStr ''two'')]])])"
  "printable 10000 (JObj [(''certificatePem'', JStr ''pem'')])"
  "printable 10000 (JObj [(''signature'', JStr ''MAcCAgDIAgEH'')])"
  "printable 10000 (JObj [(''error'', JStr ''ApprovalRequired'')])"
  "printable 10000 (JObj [(''id'', JStr ''r1''), (''status'', JStr ''pending'')])"
  by (simp_all add: printable_defs)

lemma ok_routes [simp]:
  "map_of ok_answers login_path
     = Some (200, JObj [(''accessToken'', JStr ''tok''), (''expiresIn'', JNum ''300'')])"
  "map_of ok_answers ''/api/v1/cert-manager/signers''
     = Some (200, JObj [(''signers'', JArr [JObj [(''id'', JStr ''s1''), (''name'', JStr ''one'')],
         JObj [(''id'', JStr ''one''), (''name'', JStr ''two'')]])])"
  "map_of ok_answers ''/api/v1/cert-manager/signers/s1/certificate''
     = Some (200, JObj [(''certificatePem'', JStr ''pem'')])"
  "map_of ok_answers ''/api/v1/cert-manager/signers/s1/sign'' = Some (200, JObj [(''signature'', JStr ''MAcCAgDIAgEH'')])"
  "map_of denied_answers ''/api/v1/cert-manager/signers/s1/sign''
     = Some (403, JObj [(''error'', JStr ''ApprovalRequired'')])"
  "map_of denied_answers ''/api/v1/cert-manager/signers/s1/requests''
     = Some (200, JObj [(''id'', JStr ''r1''), (''status'', JStr ''pending'')])"
  by (simp_all add: ok_answers_def denied_answers_def login_path_def)

lemma request_paths [simp]:
  "rq_Path (login_request c i s) = login_path"
  "rq_Path (list_request c t) = ''/api/v1/cert-manager/signers''"
  "rq_Path (cert_request c t i) = signer_path i ''certificate''"
  "rq_Path (sign_request c t i p) = signer_path i ''sign''"
  "rq_Path (approval_request c t i q) = signer_path i ''requests''"
  by (simp_all add: login_request_def list_request_def cert_request_def sign_request_def
      approval_request_def plain_request_def login_path_def)

lemma demo_Login [simp]: "fst (Login (demo_env ok_answers) c i s w) = Inr (''tok'', 300 * second)"
proof -
  have "fst (do_call (demo_env ok_answers) ''login'' dec_loginResponse ([], 0) (login_request c i s) w)
      = Inr (''tok'', 300)"
    by (simp add: demo_call_ok dec_loginResponse_def decode_defs)
  then show ?thesis by (auto simp: Login_def second_def split: prod.split sum.split)
qed

lemma demo_no_login [simp]:
  "fst (Login (demo_env []) c i s w) = Inl (RequestErr ''login'' (LibErr ''connection refused''))"
  using demo_call_lost[of "[]" "login_request c i s" "''login''" dec_loginResponse "([], 0)" w]
  by (auto simp: Login_def split: prod.split sum.split)

definition demo_signers :: "signer list" where
  "demo_signers = [zero_signer\<lparr>sg_ID := ''s1'', sg_Name := ''one''\<rparr>,
     zero_signer\<lparr>sg_ID := ''one'', sg_Name := ''two''\<rparr>]"

lemma demo_ListSigners [simp]:
  "fst (ListSigners (demo_env ok_answers) c t w) = Inr (Some demo_signers)"
  by (simp add: ListSigners_def demo_call_ok dec_listSignersResponse_def decode_defs dec_signer_def
      demo_signers_def zero_signer_def)

lemma demo_GetCertificate [simp]: "fst (GetCertificate (demo_env ok_answers) c t ''s1'' w) = Inr ''pem''"
proof -
  have "fst (do_call (demo_env ok_answers) ''get-certificate'' dec_signerCertResponse ([], [])
      (cert_request c t ''s1'') w) = Inr (''pem'', [])"
    by (simp add: demo_call_ok dec_signerCertResponse_def decode_defs)
  then show ?thesis by (auto simp: GetCertificate_def split: prod.split sum.split)
qed

lemma demo_Client_Sign [simp]: "fst (Client_Sign (demo_env ok_answers) c t ''s1'' p w) = Inr ''MAcCAgDIAgEH''"
  by (simp add: Client_Sign_def demo_call_ok dec_signResponse_def decode_defs)

definition demo_denial :: go_error where
  "demo_denial = APIErr \<lparr>Operation = ''sign'', StatusCode = 403, Message = ''ApprovalRequired'',
     Code = ErrorCodeApprovalRequired\<rparr>"

lemma demo_Client_Sign_denied [simp]:
  "fst (Client_Sign (demo_env denied_answers) c t ''s1'' p w) = Inl demo_denial"
  by (simp add: Client_Sign_def demo_call_error newAPIError_def json_Unmarshal_render
      dec_apiErrorBody_def decode_defs demo_denial_def ErrorCodeApprovalRequired_def)

lemma demo_RequestApproval [simp]:
  "fst (RequestApproval (demo_env denied_answers) c t ''s1'' p w) = Inr (''r1'', ''pending'')"
  by (simp add: RequestApproval_def demo_call_ok dec_approvalRequestResponse_def decode_defs)

text \<open>The signature is the DER text of \<open>r = 200\<close>, \<open>s = 7\<close>.\<close>

definition demo_sig :: bytes where
  "demo_sig = [48, 7, 2, 2, 0, 200, 2, 1, 7]"

lemma demo_signature: "b64_decode ''MAcCAgDIAgEH'' = Some demo_sig"
  unfolding demo_sig_def
  by (simp add: b64_decode_def b64_quanta.simps b64_val_def byte_def Let_def)

end
