(* ===== verification/HostScenario.thy ===== *)
theory HostScenario
  imports HostCalls Scenario
begin

text \<open>
  A host at work, on the surroundings of \<open>Scenario\<close>: the DLL is loaded, a provider and then a
  key are opened. The properties of the machine are instantiated on these states.
\<close>

definition demo_dll :: "answers \<Rightarrow> dll_env" where
  "demo_dll as = \<lparr>d_env = demo_env as, d_OpenLog = (\<lambda>_. False),
     d_UTF16FromString = (\<lambda>s. Some (wide s @ [0])),
     d_UTF16ToString = (\<lambda>u. map (\<lambda>x. chr8 (unat x)) u)\<rparr>"

lemma demo_dll_simps [simp]:
  "d_env (demo_dll as) = demo_env as" "d_OpenLog (demo_dll as) f = False"
  "e_OS (demo_env as) = env_only_os" "e_Clock (demo_env as) n = int n * second"
  by (simp_all add: demo_dll_def demo_env_def demo_os_def demo_clock_def)

lemma utf16_wide [simp]: "utf16PtrToString (demo_dll as) (Some (wide s)) = s"
proof -
  have "chr8 (byte c mod 65536) = c" for c
  proof -
    have "byte c < 256" by (simp add: byte_def)
    then have "byte c mod 65536 = byte c" by (intro mod_less) linarith
    then show ?thesis by (simp only: chr8_byte)
  qed
  then show ?thesis
    by (simp add: utf16PtrToString_def demo_dll_def wide_def comp_def unat_of_nat)
qed

definition env_client :: client where
  "env_client = \<lparr>cl_BaseURL = ''http://h'', cl_MinVersion = VersionTLS12,
     cl_InsecureSkipVerify = False, cl_RootCAs = None, cl_Timeout = clientTimeout,
     cl_UserAgent = userAgent\<rparr>"

definition env_session :: session where
  "env_session = \<lparr>s_cfg = env_only_config, s_client = env_client, s_token = [], s_tokenExpiry = 0,
     s_signers = None, s_signersExpiry = 0, s_pubKeys = Map.empty\<rparr>"

lemma env_session_new: "NewSession (demo_env as) env_only_config = Inr env_session"
  by (simp add: NewSession_def NewClient_def env_session_def env_client_def env_only_config_def
      applyEnvOverrides_fields setDefaults_eq zero_config_def env_only_os_def TrimRight_def
      EnvServerURL_def)

lemma env_session_ensure [simp]:
  "s_cfg s = env_only_config \<Longrightarrow> ensureToken e s w = (Inr ''t'', s, w)"
  using env_overrides_file[OF env_only_loads]
  by (simp add: ensureToken_unfold env_only_os_def EnvServerURL_def EnvToken_def)

definition provider_machine :: machine where
  "provider_machine = loaded\<lparr>m_logDone := True, m_heap := [env_session],
     m_handles := [1 \<mapsto> ProviderObj 0], m_nextHandle := 2\<rparr>"

lemma demo_open_provider:
  "host_step (demo_dll as) OpenProvider loaded = Some (Opened 0 (Some 1), provider_machine)"
proof -
  have "openProvider (demo_dll as) loaded = (Inr 1, provider_machine)"
    by (simp add: openProvider_def env_only_loads env_session_new setupLogging_def loaded_def Let_def
        registerHandle_def provider_machine_def)
  then show ?thesis
    by (simp add: ksp_OpenProvider_def GoOpenProvider_def statusSuccess_def)
qed

definition demo_ks :: key_state where
  "demo_ks = \<lparr>ks_prov = 0, ks_signer = zero_signer\<lparr>sg_ID := ''s1'', sg_Name := ''one''\<rparr>,
     ks_pub = demo_key, ks_keyType = KeyECDSA, ks_curveBits = 256\<rparr>"

definition key_machine :: machine where
  "key_machine = serve (demo_dll ok_answers) (OpenKey 1 (Some (wide ''one''))) provider_machine"

lemma demo_find:
  "fst (FindSigner (demo_env ok_answers) ''one'' env_session w) = Inr (ks_signer demo_ks)"
  "s_pubKeys (s_after (FindSigner (demo_env ok_answers) ''one'' env_session w)) = Map.empty"
  "s_cfg (s_after (FindSigner (demo_env ok_answers) ''one'' env_session w)) = env_only_config"
  by (simp_all add: FindSigner_unfold Signers_unfold fetch_signers_unfold Let_def env_session_def
      demo_signers_def pick_signer_def matches_def demo_ks_def)

lemma demo_public_key:
  "s_cfg s = env_only_config \<Longrightarrow> s_pubKeys s = Map.empty \<Longrightarrow>
   fst (PublicKey (demo_env ok_answers) ''s1'' s w) = Inr demo_key"
proof -
  have "publicKeyFromCertPEM (demo_env as) pem = Inr demo_key" for as pem
    by (simp add: publicKeyFromCertPEM_def demo_env_def demo_x509_def)
  then show "s_cfg s = env_only_config \<Longrightarrow> s_pubKeys s = Map.empty \<Longrightarrow> ?thesis"
    by (simp add: PublicKey_unfold fetch_key_unfold Let_def)
qed

lemma demo_open_key:
  "\<exists>m. openKey (demo_dll ok_answers) 1 ''one'' provider_machine = (Inr 2, m)
     \<and> m_handles m = [1 \<mapsto> ProviderObj 0, 2 \<mapsto> KeyObj demo_ks] \<and> m_nextHandle m = 3
     \<and> length (m_heap m) = 1 \<and> s_cfg (m_heap m ! 0) = env_only_config"
proof -
  let ?e = "demo_env ok_answers" and ?m = "provider_machine"
  define f where "f = on_session 0 (FindSigner ?e ''one'') ?m"
  define p where "p = on_session 0 (PublicKey ?e ''s1'') (snd f)"
  have h: "m_heap ?m = [env_session]" "m_handles ?m = [1 \<mapsto> ProviderObj 0]" "m_nextHandle ?m = 2"
    by (simp_all add: provider_machine_def)
  have f: "fst f = Inr (ks_signer demo_ks)" "m_heap (snd f) ! 0 = s_after (FindSigner ?e ''one'' env_session (m_world ?m))"
    by (simp_all add: f_def frame h on_session_heap demo_find)
  have p: "fst p = Inr demo_key"
    by (simp add: p_def frame f demo_find demo_public_key)
  have k: "make_key 0 (ks_signer demo_ks) demo_key = Inr demo_ks"
    by (simp add: make_key_def demo_ks_def demo_key_def Let_def)
  have s: "sg_ID (ks_signer demo_ks) = ''s1''" by (simp add: demo_ks_def)
  have "s_cfg (m_heap (snd p) ! 0) = env_only_config"
    using f(2) same_setup_ops(6)[of "m_heap (snd f) ! 0" ?e "''s1''" "m_world (snd f)"]
    by (simp add: p_def on_session_heap frame f_def h demo_find same_setup_def)
  moreover have "m_handles (snd p) = [1 \<mapsto> ProviderObj 0]" "m_nextHandle (snd p) = 2"
    "length (m_heap (snd p)) = 1"
    by (simp_all add: p_def f_def frame h)
  moreover have "openKey (demo_dll ok_answers) 1 ''one'' ?m = (Inr 2, snd (registerHandle (KeyObj demo_ks) (snd p)))"
    using h k p f(1) s calculation
    by (simp add: openKey_def lookupHandle_def f_def [symmetric] case_prod_beta p_def [symmetric])
  ultimately show ?thesis by simp
qed

lemma key_machine_opened:
  "host_step (demo_dll ok_answers) (OpenKey 1 (Some (wide ''one''))) provider_machine
     = Some (Opened 0 (Some 2), key_machine)"
  "m_handles key_machine = [1 \<mapsto> ProviderObj 0, 2 \<mapsto> KeyObj demo_ks]"
  "m_nextHandle key_machine = 3" "length (m_heap key_machine) = 1"
  "s_cfg (m_heap key_machine ! 0) = env_only_config"
  using demo_open_key
  by (auto simp: key_machine_def serve_def ksp_OpenKey_def GoOpenKey_def statusSuccess_def)

lemma key_machine_reached: "reached 2 key_machine"
  using reached.call[OF reached.call[OF reached.start demo_open_provider] key_machine_opened(1)]
  by (simp add: numeral_2_eq_2)

lemma provider_machine_reached: "reached 1 provider_machine"
  using reached.call[OF reached.start demo_open_provider] by simp

lemma key_machine_ok: "machine_ok key_machine"
  using key_machine_reached by (rule reached_ok)

text \<open>A SHA-256 digest is signed.\<close>

lemma demo_der: "ECDSADERToRaw demo_sig 256 = Inr (fixed_be 32 200 @ fixed_be 32 7)"
proof -
  have "demo_sig = der_sig 200 7"
    by (simp add: demo_sig_def der_sig_def der_seq_def der_int_def der_length_def der_content_def
        be_bytes.simps)
  then show ?thesis
    using ECDSADERToRaw_der[of 200 7 256 "[]"] by (simp add: der_sig_def coord_size_def)
qed

lemma demo_signHash:
  "fst (signHash (demo_dll ok_answers) demo_ks PaddingNone ''SHA256'' digest key_machine)
     = Inr (fixed_be 32 200 @ fixed_be 32 7)"
proof -
  have "Algorithm (e_Upper (demo_env ok_answers)) KeyECDSA PaddingNone ''SHA256'' = Inr AlgECDSASHA256"
    unfolding Algorithm_iff by (simp add: normal_hash_canonical request_meaning_def)
  moreover have "fst (Session_Sign (demo_env ok_answers) ''s1'' AlgECDSASHA256 digest (m_heap key_machine ! 0)
      (m_world key_machine)) = Inr demo_sig"
    by (simp add: Session_Sign_unfold Let_def demo_signature key_machine_opened)
  ultimately show ?thesis
    by (auto simp: signHash_def demo_ks_def case_prod_beta frame demo_der split: sum.split)
qed

definition demo_sign_call :: host_call where
  "demo_sign_call = SignHash 2 None (replicate 32 7) (Some (replicate 64 0)) 64 True 0"

definition demo_sign_result :: c_result where
  "demo_sign_result = \<lparr>c_status = 0, c_memory = Some (fixed_be 32 200 @ fixed_be 32 7),
     c_cbResult = Some 64\<rparr>"

definition signed_machine :: machine where
  "signed_machine = snd (signHash (demo_dll ok_answers) demo_ks PaddingNone ''SHA256'' (replicate 32 7) key_machine)"

lemma demo_signs:
  "host_step (demo_dll ok_answers) demo_sign_call key_machine = Some (Output demo_sign_result, signed_machine)"
proof -
  have s: "signHash (demo_dll ok_answers) demo_ks PaddingNone ''SHA256'' (replicate 32 7) key_machine
      = (Inr (fixed_be 32 200 @ fixed_be 32 7), signed_machine)"
    using demo_signHash[of "replicate 32 7"] by (simp add: signed_machine_def prod_eq_iff)
  have l: "length (fixed_be 32 200 @ fixed_be 32 7) = 64"
    by (simp add: fixed_be_length)
  have k: "keyByHandle 2 key_machine = Inr demo_ks"
    by (simp add: keyByHandle_Inr key_machine_opened)
  have "GoSignHash (demo_dll ok_answers) 2 0 None (replicate 32 7) key_machine
      = Some ((Some (fixed_be 32 200 @ fixed_be 32 7), 64, 0), signed_machine)"
    using l by (auto simp: GoSignHash_def k s requested_padding_def HashFromDigestLen_def cBytes_def
        statusSuccess_def split: if_splits)
  then show ?thesis
    using l by (simp add: demo_sign_call_def ksp_SignHash_def copyOut_def Let_def memcpy_def
        demo_sign_result_def ERROR_SUCCESS_def)
qed

end
