(* ===== verification/SessionProps.thy ===== *)
theory SessionProps
  imports SessionSign Scenario
begin

text \<open>
  The properties of the session, each with an instance on the surroundings of \<open>Scenario\<close>.
\<close>

section \<open>Instances\<close>

definition demo_session :: "config \<Rightarrow> session" where
  "demo_session cfg = \<lparr>s_cfg = cfg, s_client = demo_client, s_token = [], s_tokenExpiry = 0,
     s_signers = None, s_signersExpiry = 0, s_pubKeys = Map.empty\<rparr>"

lemma demo_session_simps [simp]:
  "s_cfg (demo_session cfg) = cfg" "s_client (demo_session cfg) = demo_client"
  "s_token (demo_session cfg) = []" "s_signers (demo_session cfg) = None"
  "s_pubKeys (demo_session cfg) = Map.empty"
  by (simp_all add: demo_session_def)

lemma demo_world_simps [simp]:
  "w_ticks demo_world = 0" "w_sent demo_world = []" "w_authFail demo_world = Map.empty"
  "w_signingCtx demo_world = None"
  by (simp_all add: demo_world_def)

lemma demo_config_simps [simp]:
  "Auth demo_config = \<lparr>auth_Method = AuthMethodUniversalAuth, auth_ClientID = ''id'',
      auth_ClientSecret = ''secret'', auth_Token = []\<rparr>"
  "Auth token_config = \<lparr>auth_Method = AuthMethodToken, auth_ClientID = [], auth_ClientSecret = [],
      auth_Token = ''tok''\<rparr>"
  "Cache demo_config = \<lparr>TokenTTLSeconds = 300, CertTTLSeconds = 3600, SignerTTLSeconds = 300\<rparr>"
  "Cache token_config = \<lparr>TokenTTLSeconds = 300, CertTTLSeconds = 3600, SignerTTLSeconds = 300\<rparr>"
  "Approval token_config = \<lparr>SigningCount = 2, SigningDuration = []\<rparr>"
  by (simp_all add: demo_config_def token_config_def)

lemma demo_env_simps [simp]:
  "e_Clock (demo_env as) n = int n * second" "e_OS (demo_env as) = demo_os"
  "e_X509 (demo_env as) = demo_x509 demo_key"
  by (simp_all add: demo_env_def demo_clock_def)

lemma methods_differ [simp]: "AuthMethodUniversalAuth \<noteq> AuthMethodToken"
  by (simp add: AuthMethodUniversalAuth_def AuthMethodToken_def)

lemma demo_tokenless [simp]: "tokenless (demo_session demo_config)"
  by (simp add: tokenless_def logs_in_def)

lemma demo_logs_in [simp]: "logs_in (demo_session demo_config)" "\<not> logs_in (demo_session token_config)"
  by (simp_all add: logs_in_def)

lemma token_session_ensure [simp]:
  "ensureToken e (demo_session token_config) w = (Inr ''tok'', demo_session token_config, w)"
  by (simp add: ensureToken_unfold)

lemma demo_cached [simp]: "cachedAuthFailure e key demo_world = (None, demo_world)"
  by (simp add: cachedAuthFailure_def)

lemma demo_ttl: "cache_ttl (300 * second) 300 = 270 * second"
  by (simp add: cache_ttl_def tokenSafetyMargin_def second_def Let_def)

definition logged_in :: session where
  "logged_in = (demo_session demo_config)\<lparr>s_token := ''tok'', s_tokenExpiry := 270 * second\<rparr>"

definition after_login :: world where
  "after_login = clearAuthFailure (auth_key demo_config)
     (tick (logged [login_rq (demo_session demo_config)] demo_world))"

lemma after_login_simps [simp]:
  "w_ticks after_login = 1" "w_sent after_login = [login_rq (demo_session demo_config)]"
  "w_signingCtx after_login = None"
  by (simp_all add: after_login_def frame)

lemma demo_ensure:
  "ensureToken (demo_env ok_answers) (demo_session demo_config) demo_world
   = (Inr ''tok'', logged_in, after_login)"
  by (simp add: tokenless_ensure acquire_token_unfold Let_def logged_in_def after_login_def demo_ttl)

definition failed_world :: world where
  "failed_world = recordAuthFailure (demo_env []) (auth_key demo_config)
     (RequestErr ''login'' (LibErr ''connection refused''))
     (logged [login_rq (demo_session demo_config)] demo_world)"

lemma failed_world_simps [simp]:
  "w_ticks failed_world = 1" "w_sent failed_world = [login_rq (demo_session demo_config)]"
  by (simp_all add: failed_world_def frame)

lemma demo_fail:
  "ensureToken (demo_env []) (demo_session demo_config) demo_world
   = (Inl (RequestErr ''login'' (LibErr ''connection refused'')), demo_session demo_config, failed_world)"
  by (simp add: tokenless_ensure acquire_token_unfold Let_def failed_world_def)

section \<open>Logging in\<close>

text \<open>With token authentication no login is ever sent and nothing of the session or the process
  changes; the configured token is used as it is, and an empty one is an error.\<close>

theorem token_auth_offline:
  assumes "\<not> logs_in s"
  shows "ensureToken e s w =
     ((if auth_Token (Auth (s_cfg s)) = []
       then Inl (Errorf ''token auth selected but no token: set %s'' [FStr EnvToken])
       else Inr (auth_Token (Auth (s_cfg s)))), s, w)"
  using assms by (simp add: ensureToken_unfold logs_in_def)

text \<open>C9: retries do not multiply failed logins. When the login of a first attempt fails with no
  failure cached, every further attempt with the same credentials within ten seconds, each in a
  session of its own, fails with the same error, and at most the one login request of the first
  attempt has been sent.\<close>

theorem failed_login_throttled:
  assumes "retries_of key ((s, n) # rest)" "w_authFail w key = None"
    and "ensureToken e s w = (Inl err, s', w')"
    and "\<forall>k<length rest. e_Clock e (w_ticks w' + k) < e_Clock e (w_ticks w' - 1) + authFailureCacheTTL"
  shows "fst (open_attempts e ((s, n) # rest) w) = replicate (Suc (length rest)) (Inl err)
     \<and> w_sent (snd (open_attempts e ((s, n) # rest) w)) \<in> {w_sent w, w_sent w @ [login_rq s]}"
  using first_failure_blocks[OF assms] ensureToken_sent[of e s w] assms(3) by simp

theorem failed_login_throttled_witness:
  "w_sent (snd (open_attempts (demo_env []) (replicate 8 (demo_session demo_config, ''one'')) demo_world))
   \<in> {[], [login_rq (demo_session demo_config)]}"
proof -
  let ?a = "(demo_session demo_config, ''one'')"
  have "retries_of (auth_key demo_config) (?a # replicate 7 ?a)"
    by (simp add: retries_of_def list_all_iff)
  from failed_login_throttled[OF this _ demo_fail]
  have "w_sent (snd (open_attempts (demo_env []) (?a # replicate 7 ?a) demo_world))
      \<in> {w_sent demo_world, w_sent demo_world @ [login_rq (demo_session demo_config)]}"
    by (simp add: authFailureCacheTTL_def second_def)
  then show ?thesis by (simp add: numeral_eq_Suc)
qed

text \<open>C29: the throttle opens again: once the ten seconds are over, the next attempt with complete
  credentials sends a login.\<close>

theorem login_retried_after_window:
  assumes "tokenless s" "w_authFail w (auth_key (s_cfg s)) = Some f"
    and "af_until f \<le> e_Clock e (w_ticks w)"
    and "auth_ClientID (Auth (s_cfg s)) \<noteq> []" "auth_ClientSecret (Auth (s_cfg s)) \<noteq> []"
  shows "w_sent (w_after (ensureToken e s w)) = w_sent w @ [login_rq s]"
  by (rule failure_expired[OF assms])

theorem login_retried_after_window_witness:
  "w_sent (w_after (ensureToken (demo_env ok_answers) (demo_session demo_config)
     (ticks 9 (failed_world)))) = [login_rq (demo_session demo_config), login_rq (demo_session demo_config)]"
proof -
  have f: "w_authFail (ticks 9 failed_world) (auth_key (s_cfg (demo_session demo_config)))
      = Some \<lparr>af_err = RequestErr ''login'' (LibErr ''connection refused''), af_until = 10 * second\<rparr>"
    using failure_recorded[OF demo_tokenless _ demo_fail]
    by (simp add: authFailureCacheTTL_def)
  show ?thesis
    using login_retried_after_window[OF demo_tokenless f, of "demo_env ok_answers"] by simp
qed



text \<open>C21: a token is asked for once. After a login, every later use of the session gets the same
  token without a request for as long as the clock stays before the expiry computed at the
  login.\<close>

theorem token_reused:
  assumes "tokenless s" "ensureToken e s w = (Inr t, s', w')"
    and "\<forall>k\<le>n. e_Clock e (w_ticks w' + k) < s_tokenExpiry s'"
  shows "again (ensureToken e) n (s', w') = (s', ticks n w')
     \<and> ensureToken e s' (ticks n w') = (Inr t, s', ticks (Suc n) w')
     \<and> w_sent (ticks (Suc n) w') \<in> {w_sent w, w_sent w @ [login_rq s]}"
proof -
  have l: "logs_in s" using assms(1) by (simp add: tokenless_def)
  have "s_token s' \<noteq> []"
    using assms(1,2) acquire_token_fill[of e s w t s' w'] by (simp add: tokenless_ensure)
  then have "snd (the (token_entry s')) = s_tokenExpiry s'" by (simp add: token_entry_def)
  then show ?thesis
    using token_cache.served_from_memory[OF l assms(2)] assms ensureToken_sent[of e s w] by simp
qed

theorem token_reused_witness:
  "ensureToken (demo_env ok_answers) logged_in (ticks 200 after_login) = (Inr ''tok'', logged_in, ticks 201 after_login)"
proof -
  have "\<forall>k\<le>200. e_Clock (demo_env ok_answers) (w_ticks after_login + k) < s_tokenExpiry logged_in"
    by (simp add: logged_in_def second_def)
  from token_reused[OF demo_tokenless demo_ensure this] show ?thesis by simp
qed

section \<open>Signers and keys\<close>

text \<open>C24: the list of signers is fetched once: after a call that returned one, further calls return
  the same list and send nothing while the clock stays before its expiry.\<close>

theorem signers_cached:
  assumes "Signers e s w = (Inr (Some l), s', w')"
    and "\<forall>k\<le>n. e_Clock e (w_ticks w' + k) < s_signersExpiry s'"
  shows "again (Signers e) n (s', w') = (s', ticks n w')
     \<and> Signers e s' (ticks n w') = (Inr (Some l), s', ticks (Suc n) w')
     \<and> w_sent (ticks (Suc n) w') = w_sent w'"
proof -
  have "s_signers s' = Some l"
    using assms(1) fetch_signers_fill[of e s w l s' w'] fetch_signers_fill[of e s "tick w" l s' w']
    by (auto simp: Signers_unfold split: option.splits if_splits)
  then have "snd (the (signers_entry s')) = s_signersExpiry s'" by (simp add: signers_entry_def)
  then show ?thesis
    using signers_cache.served_from_memory[OF _ assms(1)] assms(2) by simp
qed

definition with_signers :: session where
  "with_signers = logged_in\<lparr>s_signers := Some demo_signers, s_signersExpiry := 301 * second\<rparr>"

lemma demo_Signers:
  "Signers (demo_env ok_answers) (demo_session demo_config) demo_world
   = (Inr (Some demo_signers), with_signers, tick (logged [list_request demo_client ''tok''] after_login))"
  using demo_ensure
  by (simp add: Signers_unfold fetch_signers_unfold Let_def with_signers_def)
    (simp add: logged_in_def second_def)

theorem signers_cached_witness:
  "fst (Signers (demo_env ok_answers) with_signers
     (ticks 200 (tick (logged [list_request demo_client ''tok''] after_login)))) = Inr (Some demo_signers)"
proof -
  have "\<forall>k\<le>200. e_Clock (demo_env ok_answers)
      (w_ticks (tick (logged [list_request demo_client ''tok''] after_login)) + k) < s_signersExpiry with_signers"
    by (simp add: with_signers_def second_def)
  from signers_cached[OF demo_Signers this] show ?thesis by simp
qed

text \<open>C23: a signer's public key, once fetched, is returned unchanged and without a request for the
  configured certificate lifetime, counted from the moment it was stored.\<close>

theorem public_key_cached:
  assumes "s_pubKeys s i = None" "PublicKey e i s w = (Inr key, s', w')"
    and "\<forall>k\<le>n. e_Clock e (w_ticks w' + k)
          < e_Clock e (w_ticks w' - 1) + i64 (CertTTLSeconds (Cache (s_cfg s)) * second)"
  shows "PublicKey e i s' (ticks n w') = (Inr key, s', ticks (Suc n) w')
     \<and> w_sent (ticks (Suc n) w') = w_sent w'"
proof -
  have "s_pubKeys s' i = Some \<lparr>pk_key = key, pk_expiresAt = e_Clock e (w_ticks w' - 1)
       + i64 (CertTTLSeconds (Cache (s_cfg s)) * second)\<rparr>"
    using assms(1,2) by (intro fetch_key_fill) (simp add: PublicKey_unfold)
  then have "snd (the (key_entry i s')) = e_Clock e (w_ticks w' - 1)
       + i64 (CertTTLSeconds (Cache (s_cfg s)) * second)"
    by (simp add: key_entry_def)
  then show ?thesis
    using key_cache.served_from_memory(2)[OF _ assms(2)] assms(3) by simp
qed

theorem public_key_cached_witness:
  "\<exists>s' w'. PublicKey (demo_env ok_answers) ''s1'' (demo_session token_config) demo_world = (Inr demo_key, s', w')
     \<and> PublicKey (demo_env ok_answers) ''s1'' s' (ticks 3000 w') = (Inr demo_key, s', ticks 3001 w')"
proof -
  obtain r s' w' where p:
    "PublicKey (demo_env ok_answers) ''s1'' (demo_session token_config) demo_world = (r, s', w')"
    by (metis prod_cases3)
  have d: "x_pemDecode demo_lib t = Some (bytes_of t)" "x_ParseCertificate demo_lib b = Inr demo_key"
    if "demo_lib = demo_x509 demo_key" for t b demo_lib
    using that by (simp_all add: demo_x509_def)
  have "r = Inr demo_key" "w_ticks w' = 1"
    using p by (auto simp: PublicKey_unfold fetch_key_unfold Let_def publicKeyFromCertPEM_def d)
  then show ?thesis
    using p public_key_cached[of "demo_session token_config" "''s1''" "demo_env ok_answers" demo_world demo_key s' w' 3000]
    by (simp add: second_def)
qed

text \<open>C35: a signer is found by name or identifier, and it is the first of the list that matches;
  there is none exactly when no signer matches.\<close>

theorem find_signer_first:
  "fst (FindSigner e n s w) = Inr sg \<longleftrightarrow>
   (\<exists>l i. fst (Signers e s w) = Inr (Some l) \<and> i < length l \<and> l ! i = sg
      \<and> (sg_Name sg = n \<or> sg_ID sg = n)
      \<and> (\<forall>j<i. sg_Name (l ! j) \<noteq> n \<and> sg_ID (l ! j) \<noteq> n))"
  unfolding FindSigner_Inr pick_signer_Inr matches_def by blast

theorem find_signer_first_witness:
  "fst (FindSigner (demo_env ok_answers) ''one'' (demo_session demo_config) demo_world) = Inr (demo_signers ! 0)"
  using find_signer_first[of "demo_env ok_answers" "''one''" "demo_session demo_config" demo_world "demo_signers ! 0"]
    demo_Signers
  by (simp add: demo_signers_def) (metis One_nat_def length_Cons less_nat_zero_code nth_Cons_0 zero_less_Suc)

section \<open>Signing\<close>



lemma demo_Sign:
  "fst (Session_Sign (demo_env ok_answers) ''s1'' alg d (demo_session token_config) demo_world) = Inr demo_sig"
  by (simp add: Session_Sign_unfold Let_def demo_signature)


text \<open>C8: an approval request is opened exactly when the server denied the signature for want of one
  and approvals are configured. Then it is the one request that follows the sign request; it names
  the same signer, asks for the configured number of signings, and its scope describes the host
  process of the denied request and carries the hex SHA-256 of the digest.\<close>

theorem approval_opened_iff:
  assumes "good_config (s_cfg s)" "Session_Sign e i alg digest s w = (Inl err, s', w')"
    and "fst (ensureToken e s w) = Inr token"
    and "c = ctx_of e (w_after (ensureToken e s w))" "p = sign_params_of c alg digest"
    and "fst (Client_Sign e (s_client s) token i p (ctx_set e (w_after (ensureToken e s w)))) = Inl denial"
  shows "\<exists>follow. w_sent w' = w_sent (w_after (ensureToken e s w)) @ [sign_request (s_client s) token i p] @ follow
     \<and> (if approval_required denial \<and> approval_configured (s_cfg s)
        then \<exists>q. follow = [approval_request (s_client s) token i q]
           \<and> ap_Scope q = RequestScope c (hex_encode (Sum256 digest))
           \<and> ap_RequestedSignings q = SigningCount (Approval (s_cfg s))
           \<and> ap_Justification q = approvalJustification (sc_Hostname c)
        else follow = [])"
proof -
  obtain s1 w3 where f: "w_sent w' = w_sent (w_after (ensureToken e s w))
        @ [sign_request (s_client s) token i p] @ follow_up e s1 token i c digest denial w3"
    and s1: "s_cfg s1 = s_cfg s" "s_client s1 = s_client s"
    using Session_Sign_Inl[OF assms(2-6)] by (auto simp: same_setup_def)
  obtain q where q: "approval_window (Approval (s_cfg s)) (e_Clock e (w_ticks w3))
      (approval_base (Approval (s_cfg s)) c (payload_hash digest)) = Inr q"
    using approval_window_good[OF assms(1)] by blast
  have "0 \<le> SigningCount (Approval (s_cfg s))" using assms(1) by (simp add: good_config_def)
  then show ?thesis
    using f q s1 approval_window_scope[OF q] by (auto simp: follow_up_def payload_hash_def)
qed

lemma good_token_config: "good_config token_config"
proof -
  have "url_Parse ''https://h'' = Inr \<lparr>url_Scheme = ''https'', url_Host = ''h''\<rparr>" by code_simp
  then show ?thesis
    by (simp add: good_config_def token_config_def demo_config_def lower_ascii_def byte_def)
qed

lemma demo_approval_required: "approval_required demo_denial \<and> approval_configured token_config"
  by (simp add: approval_required_def demo_denial_def As_direct IsApprovalRequired_def approval_configured_def)

theorem approval_opened_iff_witness:
  "\<exists>err s' w' q. Session_Sign (demo_env denied_answers) ''s1'' ''a'' [] (demo_session token_config) demo_world
       = (Inl err, s', w')
     \<and> last (w_sent w') = approval_request demo_client ''tok'' ''s1'' q \<and> ap_RequestedSignings q = 2"
proof -
  define t where "t = Session_Sign (demo_env denied_answers) ''s1'' ''a'' [] (demo_session token_config) demo_world"
  have "\<exists>err. fst t = Inl err"
    by (simp add: t_def Session_Sign_unfold Let_def)
  then obtain err s' w' where p: "Session_Sign (demo_env denied_answers) ''s1'' ''a'' []
      (demo_session token_config) demo_world = (Inl err, s', w')"
    unfolding t_def by (metis prod.collapse)
  have g: "good_config (s_cfg (demo_session token_config))" by (simp add: good_token_config)
  have d: "fst (Client_Sign (demo_env denied_answers) (s_client (demo_session token_config)) ''tok'' ''s1'' q z)
      = Inl demo_denial" for q z
    by simp
  from approval_opened_iff[OF g p _ refl refl d] p demo_approval_required show ?thesis by auto
qed

text \<open>C33: with a configuration that loaded, the parameters of an approval request can always be built;
  a configured window starts now and is between a minute and thirty days long, and without one no
  window is asked for.\<close>

theorem approval_params_built:
  assumes "LoadConfig os = Inr cfg"
  shows "\<exists>q. fst (approval_params_of e cfg c h w) = Inr q
     \<and> (if SigningDuration (Approval cfg) = []
        then ap_RequestedWindowStart q = [] \<and> ap_RequestedWindowEnd q = []
        else \<exists>d. 1 * minute \<le> d \<and> d \<le> 30 * 24 * hour
           \<and> ap_RequestedWindowStart q = FormatRFC3339 (e_Clock e (w_ticks w))
           \<and> ap_RequestedWindowEnd q = FormatRFC3339 (e_Clock e (w_ticks w) + d))"
proof -
  obtain cfg0 where "finish_config os cfg0 = Inr cfg" using LoadConfig_Inr[OF assms] by blast
  then have "good_config cfg" unfolding finish_config_Inr by (rule conjunct2)
  from approval_window_good[OF this, of "e_Clock e (w_ticks w)" c h] show ?thesis
    by (auto simp: approval_params_eq min_window_def max_window_def)
qed

theorem approval_params_built_witness:
  "\<exists>q. fst (approval_params_of (demo_env []) env_only_config (observe_context (\<lambda>n. n) demo_os) ''00'' demo_world) = Inr q"
  using approval_params_built[OF env_only_loads, of "demo_env []" "observe_context (\<lambda>n. n) demo_os" "''00''" demo_world]
  by blast



text \<open>A response that is no error but carries no signature counts as a success: the signature
  returned is empty.\<close>

theorem missing_signature_accepted:
  "fst (Session_Sign (demo_env [(''/api/v1/cert-manager/signers/s1/sign'', 200, JObj [])]) ''s1'' alg digest
     (demo_session token_config) demo_world) = Inr []"
proof -
  have "fst (Client_Sign (demo_env [(''/api/v1/cert-manager/signers/s1/sign'', 200, JObj [])]) c t ''s1'' p w)
      = Inr []" for c t p w
    by (simp add: Client_Sign_def demo_call_ok printable.simps dec_signResponse_def dec_struct_def)
  then show ?thesis by (simp add: Session_Sign_unfold Let_def b64_decode_def)
qed

end
