(* ===== verification/Threads.thy ===== *)
theory Threads
  imports Prelude
begin

text \<open>
  Threads that share a state and one mutex. A thread is a tree of atomic actions; locking and
  unlocking are nodes of their own. Rely-guarantee reasoning about pools of such threads: an
  invariant of the state that holds whenever the mutex is free, and a relation that actions outside
  the mutex keep to.
\<close>

section \<open>Threads and pools\<close>

datatype ('s, 'a) thread =
    Ret 'a
  | Act "'s \<Rightarrow> ('s, 'a) thread \<times> 's"
  | Lock "('s, 'a) thread"
  | Unlock "('s, 'a) thread"

text \<open>A thread that runs alone.\<close>

primrec solo :: "('s, 'a) thread \<Rightarrow> 's \<Rightarrow> 'a \<times> 's" where
  "solo (Ret a) = (\<lambda>st. (a, st))"
| "solo (Act f) = (\<lambda>st. case (map_prod solo (\<lambda>x. x) \<circ> f) st of (run, st') \<Rightarrow> run st')"
| "solo (Lock p) = solo p"
| "solo (Unlock p) = solo p"

lemma solo_Act: "solo (Act f) st = solo (fst (f st)) (snd (f st))"
  by (simp add: case_prod_beta)

declare solo.simps(2) [simp del]
declare solo_Act [simp]

record ('s, 'a) pool =
  p_threads :: "('s, 'a) thread list"
  p_owner :: "nat option"
  p_shared :: 's

inductive pool_step :: "('s, 'a) pool \<Rightarrow> ('s, 'a) pool \<Rightarrow> bool" where
  act: "i < length ts \<Longrightarrow> ts ! i = Act f \<Longrightarrow>
    pool_step \<lparr>p_threads = ts, p_owner = own, p_shared = st\<rparr>
      \<lparr>p_threads = ts[i := fst (f st)], p_owner = own, p_shared = snd (f st)\<rparr>"
| lock: "i < length ts \<Longrightarrow> ts ! i = Lock p \<Longrightarrow>
    pool_step \<lparr>p_threads = ts, p_owner = None, p_shared = st\<rparr>
      \<lparr>p_threads = ts[i := p], p_owner = Some i, p_shared = st\<rparr>"
| unlock: "i < length ts \<Longrightarrow> ts ! i = Unlock p \<Longrightarrow>
    pool_step \<lparr>p_threads = ts, p_owner = Some i, p_shared = st\<rparr>
      \<lparr>p_threads = ts[i := p], p_owner = None, p_shared = st\<rparr>"

definition start :: "('s, 'a) thread list \<Rightarrow> 's \<Rightarrow> ('s, 'a) pool" where
  "start ts st = \<lparr>p_threads = ts, p_owner = None, p_shared = st\<rparr>"

inductive pool_run :: "nat \<Rightarrow> ('s, 'a) pool \<Rightarrow> ('s, 'a) pool \<Rightarrow> bool" where
  none: "pool_run 0 P P"
| more: "pool_run n P Q \<Longrightarrow> pool_step Q Q' \<Longrightarrow> pool_run (Suc n) P Q'"

fun finished :: "('s, 'a) thread \<Rightarrow> bool" where
  "finished (Ret _) = True"
| "finished _ = False"

text \<open>One move of a given thread, as a function, and the moves of a schedule.\<close>

fun move :: "nat \<Rightarrow> ('s, 'a) pool \<Rightarrow> ('s, 'a) pool option" where
  "move i P = (if length (p_threads P) \<le> i then None else case p_threads P ! i of
       Ret _ \<Rightarrow> None
     | Act f \<Rightarrow> Some (P\<lparr>p_threads := (p_threads P)[i := fst (f (p_shared P))], p_shared := snd (f (p_shared P))\<rparr>)
     | Lock p \<Rightarrow> if p_owner P = None then Some (P\<lparr>p_threads := (p_threads P)[i := p], p_owner := Some i\<rparr>) else None
     | Unlock p \<Rightarrow> if p_owner P = Some i then Some (P\<lparr>p_threads := (p_threads P)[i := p], p_owner := None\<rparr>) else None)"

fun schedule :: "nat list \<Rightarrow> ('s, 'a) pool \<Rightarrow> ('s, 'a) pool option" where
  "schedule [] P = Some P"
| "schedule (i # is) P = (case move i P of None \<Rightarrow> None | Some Q \<Rightarrow> schedule is Q)"

lemma move_step: "move i P = Some Q \<Longrightarrow> pool_step P Q"
  by (cases P) (auto simp: not_le split: if_splits thread.splits intro: pool_step.intros)

lemma pool_step_move: "pool_step P Q \<Longrightarrow> \<exists>i. move i P = Some Q"
  by (induction rule: pool_step.induct) (auto simp: not_le[symmetric] intro!: exI)

lemma pool_run_Cons: "pool_run n Q R \<Longrightarrow> pool_step P Q \<Longrightarrow> pool_run (Suc n) P R"
  by (induction rule: pool_run.induct) (auto intro: pool_run.intros)

lemma schedule_run: "schedule is P = Some Q \<Longrightarrow> pool_run (length is) P Q"
  by (induction "is" arbitrary: P)
    (auto simp del: move.simps intro: pool_run.none pool_run_Cons dest: move_step split: option.splits)

text \<open>A pool of one thread does what the thread does alone.\<close>

lemma one_thread_step:
  "pool_step P Q \<Longrightarrow> p_threads P = [p] \<Longrightarrow>
   \<exists>q. p_threads Q = [q] \<and> solo q (p_shared Q) = solo p (p_shared P)"
  by (induction rule: pool_step.induct) auto

lemma one_thread_run:
  "pool_run n P Q \<Longrightarrow> p_threads P = [p] \<Longrightarrow>
   \<exists>q. p_threads Q = [q] \<and> solo q (p_shared Q) = solo p (p_shared P)"
  by (induction rule: pool_run.induct) (force dest: one_thread_step)+

section \<open>Bounded threads\<close>

inductive bounded :: "nat \<Rightarrow> ('s, 'a) thread \<Rightarrow> bool" where
  Ret: "bounded n (Ret a)"
| Act: "(\<And>st. bounded n (fst (f st))) \<Longrightarrow> bounded (Suc n) (Act f)"
| Lock: "bounded n p \<Longrightarrow> bounded (Suc n) (Lock p)"
| Unlock: "bounded n p \<Longrightarrow> bounded (Suc n) (Unlock p)"

inductive_cases bounded_ActE [elim!]: "bounded n (Act f)"
inductive_cases bounded_LockE [elim!]: "bounded n (Lock p)"
inductive_cases bounded_UnlockE [elim!]: "bounded n (Unlock p)"

lemma bounded_mono: "bounded n p \<Longrightarrow> n \<le> m \<Longrightarrow> bounded m p"
proof (induction arbitrary: m rule: bounded.induct)
  case (Act n f)
  then show ?case by (cases m) (auto intro: bounded.Act)
next
  case (Lock n p)
  then show ?case by (cases m) (auto intro: bounded.Lock)
next
  case (Unlock n p)
  then show ?case by (cases m) (auto intro: bounded.Unlock)
qed (rule bounded.Ret)

text \<open>The actions left to each thread add up to a budget every step takes from.\<close>

definition budget :: "nat list \<Rightarrow> ('s, 'a) pool \<Rightarrow> bool" where
  "budget ns P \<longleftrightarrow> list_all2 bounded ns (p_threads P)"

lemma sum_list_update_less:
  "i < length ns \<Longrightarrow> ns ! i = Suc k \<Longrightarrow> sum_list ns = Suc (sum_list (ns[i := k]))"
  by (induction ns arbitrary: i) (auto split: nat.split simp: less_Suc_eq_0_disj)

lemma budget_update:
  assumes "list_all2 bounded ns ts" "i < length ts" "ns ! i = Suc k" "bounded k q"
  shows "\<exists>ms. list_all2 bounded ms (ts[i := q]) \<and> Suc (sum_list ms) = sum_list ns"
  using assms sum_list_update_less[of i ns k]
  by (intro exI[of _ "ns[i := k]"]) (auto intro: list_all2_update_cong dest: list_all2_lengthD)

lemma budget_step:
  assumes "pool_step P Q" "budget ns P"
  shows "\<exists>ms. budget ms Q \<and> Suc (sum_list ms) = sum_list ns"
  using assms
proof (induction rule: pool_step.induct)
  case (act i ts f own st)
  then have "bounded (ns ! i) (Act f)" by (metis budget_def list_all2_nthD2 pool.select_convs(1))
  then obtain k where "ns ! i = Suc k" "bounded k (fst (f st))" by blast
  with act budget_update[of ns ts i k] show ?case by (simp add: budget_def)
next
  case (lock i ts p st)
  then have "bounded (ns ! i) (Lock p)" by (metis budget_def list_all2_nthD2 pool.select_convs(1))
  then obtain k where "ns ! i = Suc k" "bounded k p" by blast
  with lock budget_update[of ns ts i k] show ?case by (simp add: budget_def)
next
  case (unlock i ts p st)
  then have "bounded (ns ! i) (Unlock p)" by (metis budget_def list_all2_nthD2 pool.select_convs(1))
  then obtain k where "ns ! i = Suc k" "bounded k p" by blast
  with unlock budget_update[of ns ts i k] show ?case by (simp add: budget_def)
qed

lemma budget_run: "pool_run n P Q \<Longrightarrow> budget ns P \<Longrightarrow> \<exists>ms. budget ms Q \<and> n + sum_list ms = sum_list ns"
proof (induction rule: pool_run.induct)
  case (more n P Q Q')
  then obtain ms where "budget ms Q" "n + sum_list ms = sum_list ns" by blast
  with budget_step[OF more.hyps(2)] show ?case by fastforce
qed auto

section \<open>Rely and guarantee\<close>

text \<open>
  \<open>G\<close> holds always, \<open>I\<close> whenever the mutex is free; an action stays within \<open>E\<close>, and within \<open>R\<close>
  when its thread does not hold the mutex; what a thread returns satisfies \<open>A\<close>. \<open>free p st\<close>: the
  thread respects this from a point where it does not hold the mutex and has left the state \<open>st\<close>;
  \<open>held p st\<close>: from a point where it holds it.
\<close>

inductive free :: "('s \<Rightarrow> bool) \<Rightarrow> ('s \<Rightarrow> bool) \<Rightarrow> ('s \<Rightarrow> 's \<Rightarrow> bool) \<Rightarrow> ('s \<Rightarrow> 's \<Rightarrow> bool)
      \<Rightarrow> ('a \<Rightarrow> 's \<Rightarrow> bool) \<Rightarrow> ('s, 'a) thread \<Rightarrow> 's \<Rightarrow> bool"
  and held :: "('s \<Rightarrow> bool) \<Rightarrow> ('s \<Rightarrow> bool) \<Rightarrow> ('s \<Rightarrow> 's \<Rightarrow> bool) \<Rightarrow> ('s \<Rightarrow> 's \<Rightarrow> bool)
      \<Rightarrow> ('a \<Rightarrow> 's \<Rightarrow> bool) \<Rightarrow> ('s, 'a) thread \<Rightarrow> 's \<Rightarrow> bool"
  for G I R E A where
  free_Ret: "A a st \<Longrightarrow> free G I R E A (Ret a) st"
| free_Act: "(\<And>st'. G st' \<Longrightarrow> E st st' \<Longrightarrow>
      G (snd (f st')) \<and> R st' (snd (f st')) \<and> free G I R E A (fst (f st')) (snd (f st')))
    \<Longrightarrow> free G I R E A (Act f) st"
| free_Lock: "(\<And>st'. G st' \<Longrightarrow> E st st' \<Longrightarrow> I st' \<Longrightarrow> held G I R E A p st') \<Longrightarrow> free G I R E A (Lock p) st"
| held_Act: "(\<And>st'. G st' \<Longrightarrow> R st st' \<Longrightarrow>
      G (snd (f st')) \<and> E st' (snd (f st')) \<and> held G I R E A (fst (f st')) (snd (f st')))
    \<Longrightarrow> held G I R E A (Act f) st"
| held_Unlock: "(\<And>st'. G st' \<Longrightarrow> R st st' \<Longrightarrow> I st' \<and> free G I R E A p st') \<Longrightarrow> held G I R E A (Unlock p) st"

inductive_cases free_RetE [elim!]: "free G I R E A (Ret a) st"
inductive_cases free_ActE: "free G I R E A (Act f) st"
inductive_cases free_LockE: "free G I R E A (Lock p) st"
inductive_cases free_UnlockE [elim!]: "free G I R E A (Unlock p) st"
inductive_cases held_ActE: "held G I R E A (Act f) st"
inductive_cases held_UnlockE: "held G I R E A (Unlock p) st"
inductive_cases held_LockE [elim!]: "held G I R E A (Lock p) st"
inductive_cases held_RetE [elim!]: "held G I R E A (Ret a) st"

locale rely_guarantee =
  fixes G :: "'s \<Rightarrow> bool" and I :: "'s \<Rightarrow> bool" and R E :: "'s \<Rightarrow> 's \<Rightarrow> bool" and A :: "'a \<Rightarrow> 's \<Rightarrow> bool"
  assumes R_refl: "R s s"
    and R_trans: "R s t \<Longrightarrow> R t u \<Longrightarrow> R s u"
    and I_stable: "I s \<Longrightarrow> R s t \<Longrightarrow> I t"
    and E_trans: "E s t \<Longrightarrow> E t u \<Longrightarrow> E s u"
    and R_E: "R s t \<Longrightarrow> E s t"
    and A_stable: "A a s \<Longrightarrow> E s t \<Longrightarrow> A a t"
begin

abbreviation free_ok where "free_ok \<equiv> free G I R E A"
abbreviation held_ok where "held_ok \<equiv> held G I R E A"

lemma E_refl: "E s s"
  by (rule R_E[OF R_refl])

lemma free_stable: "free_ok p s \<Longrightarrow> E s t \<Longrightarrow> free_ok p t"
  by (cases p) (auto elim!: free_ActE free_LockE intro!: free_Ret free_Act free_Lock dest: E_trans intro: A_stable)

lemma held_stable: "held_ok p s \<Longrightarrow> R s t \<Longrightarrow> held_ok p t"
  by (cases p) (auto elim!: held_ActE held_UnlockE intro!: held_Act held_Unlock dest: R_trans)

definition pool_ok :: "('s, 'a) pool \<Rightarrow> bool" where
  "pool_ok P \<longleftrightarrow> G (p_shared P)
     \<and> (\<forall>i<length (p_threads P). p_owner P \<noteq> Some i \<longrightarrow> free_ok (p_threads P ! i) (p_shared P))
     \<and> (case p_owner P of
          None \<Rightarrow> I (p_shared P)
        | Some j \<Rightarrow> j < length (p_threads P) \<and> held_ok (p_threads P ! j) (p_shared P))"

lemma pool_ok_start: "G st \<Longrightarrow> I st \<Longrightarrow> (\<And>p. p \<in> set ts \<Longrightarrow> free_ok p st) \<Longrightarrow> pool_ok (start ts st)"
  by (simp add: pool_ok_def start_def)

lemma pool_ok_step: "pool_step P Q \<Longrightarrow> pool_ok P \<Longrightarrow> pool_ok Q"
proof (induction rule: pool_step.induct)
  case (act i ts f own st)
  then have G: "G st" by (simp add: pool_ok_def)
  show ?case
  proof (cases "own = Some i")
    case True
    with act have "held_ok (Act f) st" by (simp add: pool_ok_def)
    then have "G (snd (f st)) \<and> E st (snd (f st)) \<and> held_ok (fst (f st)) (snd (f st))"
      using G R_refl by (auto elim: held_ActE)
    with act True show ?thesis by (auto simp: pool_ok_def nth_list_update intro: free_stable)
  next
    case False
    with act have "free_ok (Act f) st" by (auto simp: pool_ok_def)
    then have "G (snd (f st)) \<and> R st (snd (f st)) \<and> free_ok (fst (f st)) (snd (f st))"
      using G E_refl by (auto elim: free_ActE)
    with act False show ?thesis
      by (auto simp: pool_ok_def nth_list_update intro: free_stable[OF _ R_E] held_stable I_stable split: option.splits)
  qed
next
  case (lock i ts p st)
  then have "free_ok (Lock p) st" by (auto simp: pool_ok_def)
  with lock show ?case using E_refl by (auto simp: pool_ok_def nth_list_update elim: free_LockE)
next
  case (unlock i ts p st)
  then have "held_ok (Unlock p) st" by (auto simp: pool_ok_def)
  with unlock show ?case using R_refl by (auto simp: pool_ok_def nth_list_update elim: held_UnlockE)
qed

lemma pool_ok_run: "pool_run n P Q \<Longrightarrow> pool_ok P \<Longrightarrow> pool_ok Q"
  by (induction rule: pool_run.induct) (auto intro: pool_ok_step)

lemma pool_ok_result: "pool_ok P \<Longrightarrow> Ret a \<in> set (p_threads P) \<Longrightarrow> A a (p_shared P)"
  by (auto simp: pool_ok_def in_set_conv_nth split: option.splits)

text \<open>No deadlock: a pool in which some thread has not finished can take a step.\<close>

lemma no_deadlock:
  assumes "pool_ok P" "i < length (p_threads P)" "\<not> finished (p_threads P ! i)"
  shows "\<exists>Q. pool_step P Q"
proof -
  obtain ts own st where P: "P = \<lparr>p_threads = ts, p_owner = own, p_shared = st\<rparr>" by (cases P)
  show ?thesis
  proof (cases own)
    case None
    with assms P have "free_ok (ts ! i) st" "i < length ts" "\<not> finished (ts ! i)" by (auto simp: pool_ok_def)
    then show ?thesis using pool_step.act[of i ts] pool_step.lock[of i ts] None P by (cases "ts ! i") auto
  next
    case (Some j)
    with assms(1) P have "held_ok (ts ! j) st" "j < length ts" by (auto simp: pool_ok_def)
    then show ?thesis using pool_step.act[of j ts] pool_step.unlock[of j ts] Some P by (cases "ts ! j") auto
  qed
qed

end

end
