(* ===== verification/SessionThreads.thy ===== *)
theory SessionThreads
  imports SessionSign Threads
begin

text \<open>
  The operations of a session as threads: the same code as in \<open>Session\<close>, cut at the actions that can
  interleave (a reading of the clock, a request, an access to the session or to a process-wide cell),
  with the session's mutex where \<^verbatim>\<open>session.go\<close> takes and releases it. A thread that runs alone does what
  the functions of \<open>Session\<close> do.
\<close>

section \<open>Actions\<close>

type_synonym 'a sthread = "(session \<times> world, 'a) thread"

definition action :: "(session \<Rightarrow> world \<Rightarrow> 'b \<times> session \<times> world) \<Rightarrow> ('b \<Rightarrow> 'a sthread) \<Rightarrow> 'a sthread" where
  "action g k = Act (\<lambda>(s, w). case g s w of (b, s', w') \<Rightarrow> (k b, (s', w')))"

text \<open>Reading the session, and an operation that works on the process alone.\<close>

definition peek :: "session \<Rightarrow> world \<Rightarrow> session \<times> session \<times> world" where
  "peek s w = (s, s, w)"

definition outside :: "(session \<Rightarrow> world \<Rightarrow> 'b \<times> world) \<Rightarrow> session \<Rightarrow> world \<Rightarrow> 'b \<times> session \<times> world" where
  "outside g s w = (case g s w of (b, w') \<Rightarrow> (b, s, w'))"

lemma solo_action [simp]:
  "solo (action g k) st = solo (k (fst (g (fst st) (snd st)))) (snd (g (fst st) (snd st)))"
  by (simp add: action_def split: prod.split)

lemma action_simps [simp]:
  "peek s w = (s, s, w)" "outside g s w = (fst (g s w), s, snd (g s w))"
  by (simp_all add: peek_def outside_def case_prod_beta)

section \<open>Tokens\<close>

definition store_token :: "env \<Rightarrow> string \<Rightarrow> duration \<Rightarrow> session \<Rightarrow> world \<Rightarrow> unit \<times> session \<times> world" where
  "store_token e token ttl s w =
     (case cacheExpiry e ttl (TokenTTLSeconds (Cache (s_cfg s))) w of (expiry, w1) \<Rightarrow>
        ((), s\<lparr>s_token := token, s_tokenExpiry := expiry\<rparr>, w1))"

definition record_failure :: "env \<Rightarrow> string \<Rightarrow> go_error \<Rightarrow> (unit \<Rightarrow> 'a sthread) \<Rightarrow> 'a sthread" where
  "record_failure e key err = action (outside (\<lambda>_ w. ((), recordAuthFailure e key err w)))"

definition acquire_thread :: "env \<Rightarrow> session \<Rightarrow> (string result \<Rightarrow> 'a sthread) \<Rightarrow> 'a sthread" where
  "acquire_thread e s0 k =
     (let cfg = s_cfg s0; key = auth_key cfg in
      action (outside (\<lambda>_. cachedAuthFailure e key)) (\<lambda>c. case c of
        Some err \<Rightarrow> k (Inl err)
      | None \<Rightarrow>
          if auth_ClientID (Auth cfg) = [] \<or> auth_ClientSecret (Auth cfg) = []
          then record_failure e key no_credentials (\<lambda>_. k (Inl no_credentials))
          else action (outside (\<lambda>s. Login e (s_client s) (auth_ClientID (Auth cfg)) (auth_ClientSecret (Auth cfg)))) (\<lambda>r.
            case r of
              Inl err \<Rightarrow> record_failure e key err (\<lambda>_. k (Inl err))
            | Inr (token, ttl) \<Rightarrow> action (store_token e token ttl) (\<lambda>_.
                action (outside (\<lambda>_ w. ((), clearAuthFailure key w))) (\<lambda>_. k (Inr token))))))"

definition ensure_thread :: "env \<Rightarrow> (string result \<Rightarrow> 'a sthread) \<Rightarrow> 'a sthread" where
  "ensure_thread e k = action peek (\<lambda>s0.
     if auth_Method (Auth (s_cfg s0)) = AuthMethodToken
     then k (if auth_Token (Auth (s_cfg s0)) = []
             then Inl (Errorf ''token auth selected but no token: set %s'' [FStr EnvToken])
             else Inr (auth_Token (Auth (s_cfg s0))))
     else if s_token s0 \<noteq> []
     then action (outside (\<lambda>_. time_Now e)) (\<lambda>now.
            if now < s_tokenExpiry s0 then k (Inr (s_token s0)) else acquire_thread e s0 k)
     else acquire_thread e s0 k)"

section \<open>Signers and keys\<close>

definition store_signers :: "env \<Rightarrow> signer list option \<Rightarrow> session \<Rightarrow> world \<Rightarrow> unit \<times> session \<times> world" where
  "store_signers e sgs s w =
     (case time_Now e w of (now, w1) \<Rightarrow>
        ((), s\<lparr>s_signers := sgs,
               s_signersExpiry := now + i64 (SignerTTLSeconds (Cache (s_cfg s)) * second)\<rparr>, w1))"

definition fetch_signers_thread :: "env \<Rightarrow> (signer list option result \<Rightarrow> 'a sthread) \<Rightarrow> 'a sthread" where
  "fetch_signers_thread e k = ensure_thread e (\<lambda>t. case t of
       Inl err \<Rightarrow> Unlock (k (Inl err))
     | Inr token \<Rightarrow> action (outside (\<lambda>s. ListSigners e (s_client s) token)) (\<lambda>r. case r of
           Inl err \<Rightarrow> Unlock (k (Inl err))
         | Inr sgs \<Rightarrow> action (store_signers e sgs) (\<lambda>_. Unlock (k (Inr sgs)))))"

definition Signers_thread :: "env \<Rightarrow> (signer list option result \<Rightarrow> 'a sthread) \<Rightarrow> 'a sthread" where
  "Signers_thread e k = Lock (action peek (\<lambda>s. case s_signers s of
       None \<Rightarrow> fetch_signers_thread e k
     | Some sgs \<Rightarrow> action (outside (\<lambda>_. time_Now e)) (\<lambda>now.
         if now < s_signersExpiry s then Unlock (k (Inr (Some sgs))) else fetch_signers_thread e k)))"

definition FindSigner_thread :: "env \<Rightarrow> string \<Rightarrow> (signer result \<Rightarrow> 'a sthread) \<Rightarrow> 'a sthread" where
  "FindSigner_thread e n k = Signers_thread e (\<lambda>r. k (case r of
       Inl err \<Rightarrow> Inl err
     | Inr sgs \<Rightarrow> pick_signer n (case sgs of None \<Rightarrow> [] | Some l \<Rightarrow> l)))"

definition store_key :: "env \<Rightarrow> string \<Rightarrow> public_key \<Rightarrow> session \<Rightarrow> world \<Rightarrow> unit \<times> session \<times> world" where
  "store_key e signerID key s w =
     (case time_Now e w of (now, w1) \<Rightarrow>
        ((), s\<lparr>s_pubKeys := (s_pubKeys s)(signerID \<mapsto>
                 \<lparr>pk_key = key, pk_expiresAt = now + i64 (CertTTLSeconds (Cache (s_cfg s)) * second)\<rparr>)\<rparr>, w1))"

text \<open>The mutex is released while the certificate is fetched, and taken again to store the key.\<close>

definition fetch_key_thread :: "env \<Rightarrow> string \<Rightarrow> (public_key result \<Rightarrow> 'a sthread) \<Rightarrow> 'a sthread" where
  "fetch_key_thread e signerID k = ensure_thread e (\<lambda>t. Unlock (case t of
       Inl err \<Rightarrow> k (Inl err)
     | Inr token \<Rightarrow> action (outside (\<lambda>s. GetCertificate e (s_client s) token signerID)) (\<lambda>r. case r of
           Inl err \<Rightarrow> k (Inl err)
         | Inr certPEM \<Rightarrow> (case publicKeyFromCertPEM e certPEM of
               Inl err \<Rightarrow> k (Inl err)
             | Inr key \<Rightarrow> Lock (action (store_key e signerID key) (\<lambda>_. Unlock (k (Inr key))))))))"

definition PublicKey_thread :: "env \<Rightarrow> string \<Rightarrow> (public_key result \<Rightarrow> 'a sthread) \<Rightarrow> 'a sthread" where
  "PublicKey_thread e signerID k = Lock (action peek (\<lambda>s. case s_pubKeys s signerID of
       None \<Rightarrow> fetch_key_thread e signerID k
     | Some entry \<Rightarrow> action (outside (\<lambda>_. time_Now e)) (\<lambda>now.
         if now < pk_expiresAt entry then Unlock (k (Inr (pk_key entry)))
         else fetch_key_thread e signerID k)))"

section \<open>Signing\<close>

definition autoRequest_thread ::
    "env \<Rightarrow> string \<Rightarrow> string \<Rightarrow> signing_context \<Rightarrow> bytes \<Rightarrow> go_error \<Rightarrow> (go_error \<Rightarrow> 'a sthread) \<Rightarrow> 'a sthread" where
  "autoRequest_thread e token signerID signCtx digest signErr k =
     (if \<not> approval_required signErr then k signErr
      else action peek (\<lambda>s.
        if \<not> approval_configured (s_cfg s) then k signErr
        else action (outside (\<lambda>s. approval_params_of e (s_cfg s) signCtx (payload_hash digest))) (\<lambda>r. case r of
            Inl err \<Rightarrow> k (ApprovalRequestFailed signErr err)
          | Inr params \<Rightarrow> action (outside (\<lambda>s. RequestApproval e (s_client s) token signerID params)) (\<lambda>r. case r of
              Inl err \<Rightarrow> k (ApprovalRequestFailed signErr err)
            | Inr (reqID, status) \<Rightarrow>
                k (if reqID \<noteq> [] then ApprovalRequestOpened signErr reqID status else signErr)))))"

definition Sign_thread :: "env \<Rightarrow> string \<Rightarrow> string \<Rightarrow> bytes \<Rightarrow> (bytes result \<Rightarrow> 'a sthread) \<Rightarrow> 'a sthread" where
  "Sign_thread e signerID algorithm digest k = Lock (ensure_thread e (\<lambda>t. Unlock (case t of
       Inl err \<Rightarrow> k (Inl err)
     | Inr token \<Rightarrow> action (outside (\<lambda>_. current_ctx e)) (\<lambda>signCtx.
         action (outside (\<lambda>s. Client_Sign e (s_client s) token signerID (sign_params_of signCtx algorithm digest))) (\<lambda>r.
           case r of
             Inl err \<Rightarrow> autoRequest_thread e token signerID signCtx digest err (\<lambda>err'. k (Inl err'))
           | Inr sigB64 \<Rightarrow> k (case b64_decode sigB64 of
               None \<Rightarrow> Inl (LibErr ''illegal base64 data'')
             | Some sig \<Rightarrow> Inr sig))))))"

section \<open>A thread alone\<close>

lemma solo_acquire:
  "solo (acquire_thread e s k) (s, w) = (case acquire_token e s w of (r, s', w') \<Rightarrow> solo (k r) (s', w'))"
  by (simp add: acquire_thread_def acquire_token_def Let_def record_failure_def store_token_def case_prod_beta
      cacheExpiry_def split: option.split sum.split)

lemma solo_ensure:
  "solo (ensure_thread e k) (s, w) = (case ensureToken e s w of (r, s', w') \<Rightarrow> solo (k r) (s', w'))"
  by (simp add: ensure_thread_def ensureToken_def Let_def solo_acquire case_prod_beta)

lemma solo_fetch_signers:
  "solo (fetch_signers_thread e k) (s, w) = (case fetch_signers e s w of (r, s', w') \<Rightarrow> solo (k r) (s', w'))"
  by (simp add: fetch_signers_thread_def fetch_signers_def solo_ensure store_signers_def case_prod_beta
      split: sum.split)

lemma solo_Signers:
  "solo (Signers_thread e k) (s, w) = (case Signers e s w of (r, s', w') \<Rightarrow> solo (k r) (s', w'))"
  by (simp add: Signers_thread_def Signers_def solo_fetch_signers case_prod_beta split: option.split)

lemma solo_FindSigner:
  "solo (FindSigner_thread e n k) (s, w) = (case FindSigner e n s w of (r, s', w') \<Rightarrow> solo (k r) (s', w'))"
  by (simp add: FindSigner_thread_def FindSigner_def solo_Signers case_prod_beta split: sum.split)

lemma solo_fetch_key:
  "solo (fetch_key_thread e i k) (s, w) = (case fetch_key e i s w of (r, s', w') \<Rightarrow> solo (k r) (s', w'))"
  by (simp add: fetch_key_thread_def fetch_key_def solo_ensure store_key_def case_prod_beta split: sum.split)

lemma solo_PublicKey:
  "solo (PublicKey_thread e i k) (s, w) = (case PublicKey e i s w of (r, s', w') \<Rightarrow> solo (k r) (s', w'))"
  by (simp add: PublicKey_thread_def PublicKey_def solo_fetch_key case_prod_beta split: option.split)

lemma solo_autoRequest:
  "solo (autoRequest_thread e token i c digest err k) (s, w)
     = (case autoRequestOnDenial e s token i c digest err w of (err', w') \<Rightarrow> solo (k err') (s, w'))"
  by (simp add: autoRequest_thread_def autoRequestOnDenial_def requestApprovalIfConfigured_def case_prod_beta
      split: sum.split)

lemma solo_Sign:
  "solo (Sign_thread e i alg digest k) (s, w) = (case Session_Sign e i alg digest s w of (r, s', w') \<Rightarrow> solo (k r) (s', w'))"
  by (simp add: Sign_thread_def Session_Sign_def solo_ensure solo_autoRequest case_prod_beta
      split: sum.split option.split)

end
