(* ===== verification/SessionRaces.thy ===== *)
theory SessionRaces
  imports SessionThreads
begin

text \<open>
  Any number of calls on one session, interleaved in any way: what no interleaving can break.
\<close>

section \<open>Calls\<close>

datatype session_call =
    CallSigners
  | CallFindSigner string
  | CallPublicKey string
  | CallSign string string bytes

datatype answer =
    SignersAre "signer list option result"
  | SignerIs "signer result"
  | KeyIs string "public_key result"
  | SignatureIs string string bytes "bytes result"

fun call_thread :: "env \<Rightarrow> session_call \<Rightarrow> answer sthread" where
  "call_thread e CallSigners = Signers_thread e (\<lambda>r. Ret (SignersAre r))"
| "call_thread e (CallFindSigner n) = FindSigner_thread e n (\<lambda>r. Ret (SignerIs r))"
| "call_thread e (CallPublicKey i) = PublicKey_thread e i (\<lambda>r. Ret (KeyIs i r))"
| "call_thread e (CallSign i alg d) = Sign_thread e i alg d (\<lambda>r. Ret (SignatureIs i alg d r))"

fun call_alone :: "env \<Rightarrow> session_call \<Rightarrow> session \<Rightarrow> world \<Rightarrow> answer \<times> session \<times> world" where
  "call_alone e CallSigners s w = (case Signers e s w of (r, st) \<Rightarrow> (SignersAre r, st))"
| "call_alone e (CallFindSigner n) s w = (case FindSigner e n s w of (r, st) \<Rightarrow> (SignerIs r, st))"
| "call_alone e (CallPublicKey i) s w = (case PublicKey e i s w of (r, st) \<Rightarrow> (KeyIs i r, st))"
| "call_alone e (CallSign i alg d) s w = (case Session_Sign e i alg d s w of (r, st) \<Rightarrow> (SignatureIs i alg d r, st))"

lemma solo_call: "solo (call_thread e c) (s, w) = call_alone e c s w"
  by (cases c) (simp_all add: solo_Signers solo_FindSigner solo_PublicKey solo_Sign split: prod.split)

section \<open>Every call takes a bounded number of actions\<close>

lemma bounded_nodes:
  "0 < m \<Longrightarrow> (\<And>b. bounded (m - 1) (k b)) \<Longrightarrow> bounded m (action g k)"
  "0 < m \<Longrightarrow> bounded (m - 1) p \<Longrightarrow> bounded m (Lock p)"
  "0 < m \<Longrightarrow> bounded (m - 1) p \<Longrightarrow> bounded m (Unlock p)"
  by (cases m; auto simp: action_def intro!: bounded.intros split: prod.split)+

lemma bounded_acquire:
  "4 \<le> m \<Longrightarrow> (\<And>r j. m - 4 \<le> j \<Longrightarrow> bounded j (k r)) \<Longrightarrow> bounded m (acquire_thread e s k)"
  by (auto simp: acquire_thread_def Let_def record_failure_def intro!: bounded_nodes split: option.split sum.split)

lemma bounded_ensure:
  "6 \<le> m \<Longrightarrow> (\<And>r j. m - 6 \<le> j \<Longrightarrow> bounded j (k r)) \<Longrightarrow> bounded m (ensure_thread e k)"
  by (auto simp: ensure_thread_def intro!: bounded_nodes bounded_acquire) arith+

lemma bounded_fetch:
  "9 \<le> m \<Longrightarrow> (\<And>r j. bounded j (k r)) \<Longrightarrow> bounded m (fetch_signers_thread e k)"
  "11 \<le> m \<Longrightarrow> (\<And>r j. bounded j (k' r)) \<Longrightarrow> bounded m (fetch_key_thread e i k')"
  by (auto simp: fetch_signers_thread_def fetch_key_thread_def intro!: bounded_nodes bounded_ensure split: sum.split)
    arith+

lemma bounded_autoRequest:
  "3 \<le> m \<Longrightarrow> (\<And>r j. bounded j (k r)) \<Longrightarrow> bounded m (autoRequest_thread e t i c d err k)"
  by (auto simp: autoRequest_thread_def intro!: bounded_nodes split: sum.split)

lemma bounded_call: "bounded 14 (call_thread e c)"
  by (cases c;
      auto simp: Signers_thread_def FindSigner_thread_def PublicKey_thread_def Sign_thread_def
      intro!: bounded_nodes bounded_fetch bounded_ensure bounded_autoRequest bounded.Ret
      split: option.split sum.split) arith

section \<open>Interference\<close>

definition is_login :: "http_request \<Rightarrow> bool" where
  "is_login rq \<longleftrightarrow> rq_Path rq = ''/api/v1/auth/universal-auth/login''"

definition login_count :: "world \<Rightarrow> nat" where
  "login_count w = length (filter is_login (w_sent w))"

text \<open>What a thread does to the others while it does not hold the mutex: requests that are no logins,
  readings of the clock, and the signing context.\<close>

definition quiet :: "session \<times> world \<Rightarrow> session \<times> world \<Rightarrow> bool" where
  "quiet st st' \<longleftrightarrow> fst st' = fst st \<and> w_authFail (snd st') = w_authFail (snd st)
     \<and> login_count (snd st') = login_count (snd st) \<and> grows (snd st) (snd st')"

lemma quiet_refl [simp]: "quiet st st"
  by (simp add: quiet_def)

lemma quiet_trans: "quiet a b \<Longrightarrow> quiet b c \<Longrightarrow> quiet a c"
  unfolding quiet_def using grows_trans by metis

lemma not_login [simp]:
  "\<not> is_login (list_request c t)" "\<not> is_login (cert_request c t i)" "\<not> is_login (sign_request c t i p)"
  "\<not> is_login (approval_request c t i q)" "is_login (login_request c i x)"
  by (simp_all add: is_login_def list_request_def cert_request_def sign_request_def approval_request_def
      login_request_def plain_request_def signer_path_def)

lemma quiet_simps [simp]:
  "quiet (s, w) (s, tick w)"
  "quiet (s, w) (s, logged [rq] w) = (\<not> is_login rq)"
  "quiet (s, w) (s, ctx_set e w)"
  by (auto simp: quiet_def login_count_def)

lemma quiet_ops:
  "quiet (s, w) (s, snd (time_Now e w))"
  "quiet (s, w) (s, snd (ListSigners e c t w))"
  "quiet (s, w) (s, snd (GetCertificate e c t i w))"
  "quiet (s, w) (s, snd (Client_Sign e c t i p w))"
  "quiet (s, w) (s, snd (RequestApproval e c t i q w))"
  "quiet (s, w) (s, snd (current_ctx e w))"
  "quiet (s, w) (s, snd (approval_params_of e cfg cx h w))"
  by (simp_all add: time_Now_tick frame current_ctx_eq approval_params_eq)

text \<open>What any action of a call keeps: the set-up of the session; the world only grows.\<close>

definition moved :: "session \<times> world \<Rightarrow> session \<times> world \<Rightarrow> bool" where
  "moved st st' \<longleftrightarrow> same_setup (fst st) (fst st') \<and> grows (snd st) (snd st')"

lemma moved_refl [simp]: "moved st st"
  by (simp add: moved_def)

lemma moved_trans: "moved a b \<Longrightarrow> moved b c \<Longrightarrow> moved a c"
  by (auto simp: moved_def same_setup_def intro: grows_trans)

lemma quiet_moved: "quiet a b \<Longrightarrow> moved a b"
  by (simp add: moved_def quiet_def)

section \<open>Where answers come from\<close>

text \<open>A request was sent after the state \<open>G\<close> describes, and this was the server's answer to it: a key
  parsed from the certificate of the signer, a signature for that signer, algorithm and digest.\<close>

definition key_from ::
    "env \<Rightarrow> (session \<times> world \<Rightarrow> bool) \<Rightarrow> string \<Rightarrow> public_key \<Rightarrow> session \<times> world \<Rightarrow> bool" where
  "key_from e G i key st \<longleftrightarrow> (\<exists>s w token pem. G (s, w)
     \<and> prefix (w_sent w @ [cert_request (s_client s) token i]) (w_sent (snd st))
     \<and> fst (GetCertificate e (s_client s) token i w) = Inr pem \<and> publicKeyFromCertPEM e pem = Inr key)"

definition sig_from ::
    "env \<Rightarrow> (session \<times> world \<Rightarrow> bool) \<Rightarrow> string \<Rightarrow> string \<Rightarrow> bytes \<Rightarrow> bytes \<Rightarrow> session \<times> world \<Rightarrow> bool" where
  "sig_from e G i alg d sig st \<longleftrightarrow> (\<exists>s w token c sigB64. G (s, w)
     \<and> prefix (w_sent w @ [sign_request (s_client s) token i (sign_params_of c alg d)]) (w_sent (snd st))
     \<and> fst (Client_Sign e (s_client s) token i (sign_params_of c alg d) w) = Inr sigB64
     \<and> b64_decode sigB64 = Some sig)"

lemma key_fromI:
  "G (s, w) \<Longrightarrow> fst (GetCertificate e (s_client s) token i w) = Inr pem \<Longrightarrow> publicKeyFromCertPEM e pem = Inr key \<Longrightarrow>
   key_from e G i key (s, snd (GetCertificate e (s_client s) token i w))"
  unfolding key_from_def by (fastforce simp: frame)

lemma sig_fromI:
  "G (s, w) \<Longrightarrow> fst (Client_Sign e (s_client s) token i (sign_params_of c alg d) w) = Inr sigB64 \<Longrightarrow>
   b64_decode sigB64 = Some sig \<Longrightarrow>
   sig_from e G i alg d sig (s, snd (Client_Sign e (s_client s) token i (sign_params_of c alg d) w))"
  unfolding sig_from_def by (fastforce simp: frame)

lemma from_moved:
  "key_from e G i key st \<Longrightarrow> moved st st' \<Longrightarrow> key_from e G i key st'"
  "sig_from e G i alg d sig st \<Longrightarrow> moved st st' \<Longrightarrow> sig_from e G i alg d sig st'"
  unfolding key_from_def sig_from_def moved_def grows_def by (meson prefix_order.trans)+

text \<open>The answers of concurrent calls: keys are known ones, signatures the server's.\<close>

fun answer_ok :: "env \<Rightarrow> (session \<times> world \<Rightarrow> bool) \<Rightarrow> (string \<Rightarrow> public_key \<Rightarrow> session \<times> world \<Rightarrow> bool)
    \<Rightarrow> answer \<Rightarrow> session \<times> world \<Rightarrow> bool" where
  "answer_ok e G K (KeyIs i (Inr key)) st = K i key st"
| "answer_ok e G K (SignatureIs i alg d (Inr sig)) st = sig_from e G i alg d sig st"
| "answer_ok e G K _ st = True"

lemma answer_ok_moved:
  "answer_ok e G K a st \<Longrightarrow> moved st st' \<Longrightarrow> (\<And>i key. K i key st \<Longrightarrow> K i key st') \<Longrightarrow> answer_ok e G K a st'"
  by (induction e G K a st rule: answer_ok.induct) (auto intro: from_moved)

section \<open>The rules of the session's threads\<close>

text \<open>What holds of a session under the calls of many threads: \<open>G\<close> always, \<open>I\<close> while the mutex is
  free.\<close>

locale session_frame = rely_guarantee G I quiet moved A
  for G I :: "session \<times> world \<Rightarrow> bool" and A :: "answer \<Rightarrow> session \<times> world \<Rightarrow> bool" +
  fixes e :: env
  assumes G_moved: "G st \<Longrightarrow> moved st st' \<Longrightarrow> G st'"
begin

lemma free_outside:
  assumes "\<And>s w. quiet (s, w) (s, snd (g s w))" "\<And>s w. G (s, w) \<Longrightarrow> free_ok (k (fst (g s w))) (s, snd (g s w))"
  shows "free_ok (action (outside g) k) st"
  unfolding action_def
proof (rule free_Act)
  fix st'
  assume "G st'"
  obtain s w where st': "st' = (s, w)" by (cases st')
  have "G (s, snd (g s w))" using G_moved[OF \<open>G st'\<close>] quiet_moved[OF assms(1)[of s w]] st' by simp
  with assms[of s w] \<open>G st'\<close>
  show "G (snd ((\<lambda>(s, w). case outside g s w of (b, s', w') \<Rightarrow> (k b, s', w')) st'))
      \<and> quiet st' (snd ((\<lambda>(s, w). case outside g s w of (b, s', w') \<Rightarrow> (k b, s', w')) st'))
      \<and> free_ok (fst ((\<lambda>(s, w). case outside g s w of (b, s', w') \<Rightarrow> (k b, s', w')) st'))
          (snd ((\<lambda>(s, w). case outside g s w of (b, s', w') \<Rightarrow> (k b, s', w')) st'))"
    by (simp add: st')
qed

lemma held_step_at:
  assumes "Q st" "\<And>a b. Q a \<Longrightarrow> quiet a b \<Longrightarrow> Q b"
    and "\<And>s w. G (s, w) \<Longrightarrow> Q (s, w) \<Longrightarrow> moved (s, w) (snd (g s w)) \<and> held_ok (k (fst (g s w))) (snd (g s w))"
  shows "held_ok (action g k) st"
  unfolding action_def
proof (rule held_Act)
  fix st'
  assume G: "G st'" and "quiet st st'"
  obtain s w where st': "st' = (s, w)" by (cases st')
  have "Q (s, w)" using assms(2)[OF assms(1) \<open>quiet st st'\<close>] st' by simp
  with assms(3)[of s w] G G_moved[of "(s, w)" "snd (g s w)"]
  show "G (snd ((\<lambda>(s, w). case g s w of (b, s', w') \<Rightarrow> (k b, s', w')) st'))
      \<and> moved st' (snd ((\<lambda>(s, w). case g s w of (b, s', w') \<Rightarrow> (k b, s', w')) st'))
      \<and> held_ok (fst ((\<lambda>(s, w). case g s w of (b, s', w') \<Rightarrow> (k b, s', w')) st'))
          (snd ((\<lambda>(s, w). case g s w of (b, s', w') \<Rightarrow> (k b, s', w')) st'))"
    by (simp add: st' case_prod_beta)
qed

lemmas held_step = held_step_at[where Q = I, OF _ I_stable]

lemma held_outside_at:
  assumes "Q st" "\<And>a b. Q a \<Longrightarrow> quiet a b \<Longrightarrow> Q b"
    and "\<And>s w. Q (s, w) \<Longrightarrow> grows w (snd (g s w)) \<and> held_ok (k (fst (g s w))) (s, snd (g s w))"
  shows "held_ok (action (outside g) k) st"
  using assms(3) by (intro held_step_at[where Q = Q, OF assms(1,2)]) (auto simp: moved_def)

lemma held_outside:
  assumes "I st" "\<And>s w. quiet (s, w) (s, snd (g s w))"
    and "\<And>s w. I (s, snd (g s w)) \<Longrightarrow> quiet st (s, snd (g s w)) \<Longrightarrow> held_ok (k (fst (g s w))) (s, snd (g s w))"
  shows "held_ok (action (outside g) k) st"
proof (rule held_outside_at[where Q = "\<lambda>st'. I st' \<and> quiet st st'"])
  fix s w
  assume q: "I (s, w) \<and> quiet st (s, w)"
  have "I (s, snd (g s w))" "quiet st (s, snd (g s w))"
    using q assms(2)[of s w] by (blast intro: I_stable R_trans)+
  with assms(3) show "grows w (snd (g s w)) \<and> held_ok (k (fst (g s w))) (s, snd (g s w))"
    using assms(2)[of s w] by (auto simp: quiet_def[of "(s, w)"])
qed (use assms(1) I_stable R_trans R_refl in blast)+

lemma held_peek:
  "I st \<Longrightarrow> (\<And>s w. I (s, w) \<Longrightarrow> held_ok (k s) (s, w)) \<Longrightarrow> held_ok (action peek k) st"
  by (rule held_step) auto

lemma held_release: "I st \<Longrightarrow> (\<And>st'. quiet st st' \<Longrightarrow> free_ok p st') \<Longrightarrow> held_ok (Unlock p) st"
  by (auto intro: held_Unlock I_stable)

text \<open>Acquiring a token keeps what does not depend on tokens.\<close>

lemma held_acquire:
  assumes keep: "\<And>s w s' w'. I (s, w) \<Longrightarrow> moved (s, w) (s', w') \<Longrightarrow> s_pubKeys s' = s_pubKeys s \<Longrightarrow> I (s', w')"
    and "I st" "\<And>r st'. I st' \<Longrightarrow> held_ok (k r) st'"
  shows "held_ok (acquire_thread e s0 k) st"
proof -
  have act: "held_ok (action g k') st'"
    if "I st'" "\<And>s w. moved (s, w) (snd (g s w)) \<and> s_pubKeys (fst (snd (g s w))) = s_pubKeys s"
      "\<And>b st''. I st'' \<Longrightarrow> held_ok (k' b) st''" for g :: "session \<Rightarrow> world \<Rightarrow> 'b \<times> session \<times> world" and k' st'
  proof (rule held_step[OF that(1)])
    fix s w
    assume "I (s, w)"
    then have "I (snd (g s w))"
      using keep[of s w "fst (snd (g s w))" "snd (snd (g s w))"] that(2)[of s w] by simp
    then show "moved (s, w) (snd (g s w)) \<and> held_ok (k' (fst (g s w))) (snd (g s w))"
      using that(2,3) by blast
  qed
  show ?thesis
    unfolding acquire_thread_def Let_def record_failure_def
    using assms(2,3)
    by (auto intro!: act simp: frame moved_def store_token_def cacheExpiry_def time_Now_tick same_setup_def
        split: option.split sum.split)
qed

lemma held_ensure:
  assumes keep: "\<And>s w s' w'. I (s, w) \<Longrightarrow> moved (s, w) (s', w') \<Longrightarrow> s_pubKeys s' = s_pubKeys s \<Longrightarrow> I (s', w')"
    and "I st" "\<And>r st'. I st' \<Longrightarrow> held_ok (k r) st'"
  shows "held_ok (ensure_thread e k) st"
proof -
  have a: "held_ok (acquire_thread e s0 k) st'" if "I st'" for s0 st'
    by (rule held_acquire[OF keep that assms(3)])
  show ?thesis
    unfolding ensure_thread_def using assms(2,3)
    by (auto intro!: held_peek held_outside a quiet_ops)
qed

end

text \<open>An invariant of a session: what remains to be shown of it is that acquiring a token under the
  mutex, and storing signers and keys, keep it.\<close>

locale session_guard = session_frame G I "answer_ok e G K" e
  for G I :: "session \<times> world \<Rightarrow> bool" and e :: env
    and K :: "string \<Rightarrow> public_key \<Rightarrow> session \<times> world \<Rightarrow> bool" +
  assumes ensure_held: "I st \<Longrightarrow> (\<And>r st'. I st' \<Longrightarrow> held_ok (k r) st') \<Longrightarrow> held_ok (ensure_thread e k) st"
    and I_signers: "I (s, w) \<Longrightarrow> I (s\<lparr>s_signers := x, s_signersExpiry := y\<rparr>, w)"
    and key_known: "key_from e G i key st \<Longrightarrow> K i key st"
    and I_entry: "I (s, w) \<Longrightarrow> s_pubKeys s i = Some entry \<Longrightarrow> K i (pk_key entry) (s, w)"
    and I_key: "I (s, w) \<Longrightarrow> key_from e G i key (s, w) \<Longrightarrow>
      I (s\<lparr>s_pubKeys := (s_pubKeys s)(i \<mapsto> \<lparr>pk_key = key, pk_expiresAt = t\<rparr>)\<rparr>, w)"
begin

lemmas held_rules = held_outside held_peek held_release ensure_held quiet_ops

lemma K_moved: "K i key st \<Longrightarrow> moved st st' \<Longrightarrow> K i key st'"
  using A_stable[of "KeyIs i (Inr key)"] by simp

lemma held_store_signers:
  "I st \<Longrightarrow> (\<And>st'. I st' \<Longrightarrow> held_ok (k ()) st') \<Longrightarrow> held_ok (action (store_signers e x) k) st"
proof (rule held_step)
  fix s w
  assume I: "I (s, w)" and k: "\<And>st'. I st' \<Longrightarrow> held_ok (k ()) st'"
  have "I (s, tick w)" using I_stable[OF I] by simp
  then show "moved (s, w) (snd (store_signers e x s w))
      \<and> held_ok (k (fst (store_signers e x s w))) (snd (store_signers e x s w))"
    using k I_signers by (simp add: store_signers_def time_Now_tick same_setup_def moved_def)
qed

lemma held_store_key:
  assumes "I st" "key_from e G i key st" "\<And>st'. I st' \<Longrightarrow> K i key st' \<Longrightarrow> held_ok (k ()) st'"
  shows "held_ok (action (store_key e i key) k) st"
proof (rule held_step_at[where Q = "\<lambda>st. I st \<and> key_from e G i key st"])
  fix s w
  assume q: "I (s, w) \<and> key_from e G i key (s, w)"
  have "I (s, tick w)" "key_from e G i key (s, tick w)"
    using q I_stable[of "(s, w)" "(s, tick w)"] from_moved(1)[of e G i key "(s, w)" "(s, tick w)"]
    by (auto simp: moved_def)
  then have "I (snd (store_key e i key s w))" "K i key (snd (store_key e i key s w))"
    using I_key key_known K_moved[of i key "(s, tick w)" "snd (store_key e i key s w)"]
    by (auto simp: store_key_def time_Now_tick moved_def same_setup_def)
  with assms(3) show "moved (s, w) (snd (store_key e i key s w))
      \<and> held_ok (k (fst (store_key e i key s w))) (snd (store_key e i key s w))"
    by (simp add: moved_def store_key_def time_Now_tick same_setup_def)
qed (use assms(1,2) I_stable from_moved(1) quiet_moved in blast)+

lemma held_fetch_signers:
  "I st \<Longrightarrow> (\<And>r st'. free_ok (k r) st') \<Longrightarrow> held_ok (fetch_signers_thread e k) st"
  unfolding fetch_signers_thread_def
  by (auto intro!: held_rules held_store_signers split: sum.split)

lemma free_Signers: "(\<And>r st'. free_ok (k r) st') \<Longrightarrow> free_ok (Signers_thread e k) st"
  unfolding Signers_thread_def
  by (auto intro!: free_Lock held_rules held_fetch_signers split: option.split)

text \<open>Returning a known key after the mutex is released.\<close>

lemma held_return_key:
  "I st \<Longrightarrow> K i key st \<Longrightarrow> (\<And>st'. K i key st' \<Longrightarrow> free_ok (k (Inr key)) st') \<Longrightarrow> held_ok (Unlock (k (Inr key))) st"
  by (blast intro: held_release K_moved quiet_moved)

lemma free_store_key:
  assumes "key_from e G i key st" "\<And>st'. K i key st' \<Longrightarrow> free_ok (k (Inr key)) st'"
  shows "free_ok (Lock (action (store_key e i key) (\<lambda>_. Unlock (k (Inr key))))) st"
  using assms by (blast intro: free_Lock held_store_key held_return_key from_moved)

lemma held_fetch_key:
  assumes "I st" "\<And>err st'. free_ok (k (Inl err)) st'" "\<And>key st'. K i key st' \<Longrightarrow> free_ok (k (Inr key)) st'"
  shows "held_ok (fetch_key_thread e i k) st"
  unfolding fetch_key_thread_def using assms
  by (auto intro!: held_rules free_outside free_store_key split: sum.split) (blast intro: key_fromI)

lemma free_PublicKey:
  assumes "\<And>err st'. free_ok (k (Inl err)) st'" "\<And>key st'. K i key st' \<Longrightarrow> free_ok (k (Inr key)) st'"
  shows "free_ok (PublicKey_thread e i k) st"
  unfolding PublicKey_thread_def
  using assms by (auto intro!: free_Lock held_outside held_peek held_fetch_key held_return_key quiet_ops
      split: option.split) (blast intro: K_moved I_entry quiet_moved)

lemma free_peek: "(\<And>s st'. free_ok (k s) st') \<Longrightarrow> free_ok (action peek k) st"
  using free_outside[of "\<lambda>s w. (s, w)" k] by (simp add: action_def)

lemma free_autoRequest:
  "(\<And>err st'. free_ok (k err) st') \<Longrightarrow> free_ok (autoRequest_thread e t i c d err k) st"
  unfolding autoRequest_thread_def
  by (auto intro!: free_peek free_outside quiet_ops split: sum.split)

lemma free_Sign:
  assumes "\<And>err st'. free_ok (k (Inl err)) st'" "\<And>sig st'. sig_from e G i alg d sig st' \<Longrightarrow> free_ok (k (Inr sig)) st'"
  shows "free_ok (Sign_thread e i alg d k) st"
  unfolding Sign_thread_def using assms
  by (auto intro!: free_Lock held_rules free_outside free_autoRequest split: sum.split option.split)
    (blast intro: sig_fromI)

lemma free_call: "free_ok (call_thread e c) st"
  by (cases c) (auto simp: FindSigner_thread_def intro!: free_Signers free_PublicKey free_Sign free_Ret)

text \<open>The invariant in every state that any number of calls can reach.\<close>

lemma calls_keep:
  assumes "pool_run n (start (map (call_thread e) cs) st) P" "G st" "I st"
  shows "pool_ok P"
  using assms(1) by (rule pool_ok_run) (auto intro!: pool_ok_start free_call assms(2,3))

end

end
