(* ===== verification/RaceInvariants.thy ===== *)
theory RaceInvariants
  imports SessionRaces SessionCache
begin

text \<open>
  Invariants of concurrent calls on one session, as instances of \<open>session_guard\<close>: the trivial one,
  which gives progress; that every cached key is the server's answer for its signer; and that a group
  of calls logs in at most once.
\<close>

section \<open>Progress\<close>

abbreviation true_st :: "session \<times> world \<Rightarrow> bool" where
  "true_st \<equiv> \<lambda>_. True"

abbreviation any_key :: "string \<Rightarrow> public_key \<Rightarrow> session \<times> world \<Rightarrow> bool" where
  "any_key \<equiv> \<lambda>_ _ _. True"

interpretation plain_frame: session_frame true_st true_st "answer_ok e true_st any_key" e for e
  by unfold_locales (auto intro: quiet_trans moved_trans quiet_moved answer_ok_moved)

interpretation plain: session_guard true_st true_st e any_key for e
  by unfold_locales (auto intro: plain_frame.held_ensure)

section \<open>Cached keys\<close>

definition genuine_keys :: "env \<Rightarrow> session \<times> world \<Rightarrow> session \<times> world \<Rightarrow> bool" where
  "genuine_keys e st0 st \<longleftrightarrow>
     (\<forall>i entry. s_pubKeys (fst st) i = Some entry \<longrightarrow> key_from e (moved st0) i (pk_key entry) st)"

lemma genuine_keys_moved:
  "genuine_keys e st0 st \<Longrightarrow> moved st st' \<Longrightarrow> s_pubKeys (fst st') = s_pubKeys (fst st) \<Longrightarrow> genuine_keys e st0 st'"
  by (auto simp: genuine_keys_def intro: from_moved)

interpretation keys_frame: session_frame "moved st0" "genuine_keys e st0"
    "answer_ok e (moved st0) (key_from e (moved st0))" e for st0 e
proof unfold_locales
  fix st st' assume "genuine_keys e st0 st" "quiet st st'"
  then show "genuine_keys e st0 st'"
    using genuine_keys_moved[of e st0 st st'] by (simp add: quiet_moved) (simp add: quiet_def)
qed (auto intro: quiet_trans moved_trans quiet_moved answer_ok_moved from_moved)

interpretation keys: session_guard "moved st0" "genuine_keys e st0" e "key_from e (moved st0)" for st0 e
proof unfold_locales
  fix st and k :: "string result \<Rightarrow> answer sthread"
  assume "genuine_keys e st0 st" "\<And>r st'. genuine_keys e st0 st' \<Longrightarrow> keys_frame.held_ok st0 e (k r) st'"
  then show "keys_frame.held_ok st0 e (ensure_thread e k) st"
    by (intro keys_frame.held_ensure) (auto intro: genuine_keys_moved)
next
  fix s w x y assume "genuine_keys e st0 (s, w)"
  then show "genuine_keys e st0 (s\<lparr>s_signers := x, s_signersExpiry := y\<rparr>, w)"
    by (rule genuine_keys_moved) (simp_all add: moved_def same_setup_def)
next
  fix s w i key t assume g: "genuine_keys e st0 (s, w)" "key_from e (moved st0) i key (s, w)"
  have "key_from e (moved st0) j x (s\<lparr>s_pubKeys := z\<rparr>, w)" if "key_from e (moved st0) j x (s, w)" for j x z
    using that by (rule from_moved) (simp add: moved_def same_setup_def)
  with g show "genuine_keys e st0 (s\<lparr>s_pubKeys := (s_pubKeys s)(i \<mapsto> \<lparr>pk_key = key, pk_expiresAt = t\<rparr>)\<rparr>, w)"
    by (auto simp: genuine_keys_def)
qed (auto simp: genuine_keys_def)

section \<open>Logins\<close>

text \<open>The window of \<open>authFailureCacheTTL\<close> from the reading of the clock \<open>t0\<close>. Within it, at most one
  login is sent, since its outcome is recorded, as a failure or as a token, for longer than that.\<close>

definition window :: "env \<Rightarrow> nat \<Rightarrow> instant" where
  "window e t0 = e_Clock e t0 + authFailureCacheTTL"

definition blocked :: "env \<Rightarrow> nat \<Rightarrow> session \<Rightarrow> world \<Rightarrow> bool" where
  "blocked e t0 s w \<longleftrightarrow> (\<exists>f. w_authFail w (auth_key (s_cfg s)) = Some f \<and> window e t0 \<le> af_until f)"

definition token_kept :: "env \<Rightarrow> nat \<Rightarrow> session \<Rightarrow> bool" where
  "token_kept e t0 s \<longleftrightarrow> s_token s \<noteq> [] \<and> window e t0 \<le> s_tokenExpiry s"

definition in_window :: "env \<Rightarrow> nat \<Rightarrow> world \<Rightarrow> bool" where
  "in_window e t0 w \<longleftrightarrow> e_Clock e (w_ticks w) < window e t0"

definition clock_ok :: "env \<Rightarrow> nat \<Rightarrow> world \<Rightarrow> bool" where
  "clock_ok e t0 w \<longleftrightarrow> mono (e_Clock e) \<and> t0 \<le> w_ticks w"

fun once :: "env \<Rightarrow> nat \<Rightarrow> nat \<Rightarrow> session \<times> world \<Rightarrow> bool" where
  "once e t0 b (s, w) \<longleftrightarrow> clock_ok e t0 w \<and> (in_window e t0 w \<longrightarrow>
     login_count w \<le> b \<or> login_count w = Suc b \<and> (blocked e t0 s w \<or> token_kept e t0 s))"

text \<open>The stages of \<open>ensureToken\<close> under the mutex, for a session whose fields are those of \<open>s0\<close>.\<close>

fun no_token :: "env \<Rightarrow> nat \<Rightarrow> nat \<Rightarrow> session \<Rightarrow> session \<times> world \<Rightarrow> bool" where
  "no_token e t0 b s0 (s, w) \<longleftrightarrow> s = s0 \<and> once e t0 b (s, w) \<and> (in_window e t0 w \<longrightarrow> \<not> token_kept e t0 s)"

fun unused :: "env \<Rightarrow> nat \<Rightarrow> nat \<Rightarrow> session \<Rightarrow> session \<times> world \<Rightarrow> bool" where
  "unused e t0 b s0 (s, w) \<longleftrightarrow> s = s0 \<and> clock_ok e t0 w \<and> (in_window e t0 w \<longrightarrow> login_count w \<le> b)"

fun used :: "env \<Rightarrow> nat \<Rightarrow> nat \<Rightarrow> session \<Rightarrow> session \<times> world \<Rightarrow> bool" where
  "used e t0 b s0 (s, w) \<longleftrightarrow> s = s0 \<and> clock_ok e t0 w \<and> (in_window e t0 w \<longrightarrow> login_count w \<le> Suc b)"

fun stored :: "env \<Rightarrow> nat \<Rightarrow> nat \<Rightarrow> session \<times> world \<Rightarrow> bool" where
  "stored e t0 b (s, w) \<longleftrightarrow> clock_ok e t0 w
     \<and> (in_window e t0 w \<longrightarrow> login_count w \<le> Suc b \<and> token_kept e t0 s)"

lemmas stages = once.simps no_token.simps unused.simps used.simps stored.simps
declare stages [simp del]

lemma clock_later:
  "clock_ok e t0 w \<Longrightarrow> w_ticks w \<le> w_ticks w' \<Longrightarrow> clock_ok e t0 w'"
  "clock_ok e t0 w \<Longrightarrow> w_ticks w \<le> w_ticks w' \<Longrightarrow> in_window e t0 w' \<Longrightarrow> in_window e t0 w"
  "clock_ok e t0 w \<Longrightarrow> e_Clock e t0 \<le> e_Clock e (w_ticks w)"
  by (auto simp: clock_ok_def in_window_def dest: monoD)

lemma stages_quiet:
  "once e t0 b st \<Longrightarrow> quiet st st' \<Longrightarrow> once e t0 b st'"
  "no_token e t0 b s0 st \<Longrightarrow> quiet st st' \<Longrightarrow> no_token e t0 b s0 st'"
  "unused e t0 b s0 st \<Longrightarrow> quiet st st' \<Longrightarrow> unused e t0 b s0 st'"
  "used e t0 b s0 st \<Longrightarrow> quiet st st' \<Longrightarrow> used e t0 b s0 st'"
  "stored e t0 b st \<Longrightarrow> quiet st st' \<Longrightarrow> stored e t0 b st'"
  by (cases st; cases st'; auto simp: stages quiet_def grows_def blocked_def dest: clock_later)+

interpretation logins_frame: session_frame true_st "once e t0 b" "answer_ok e true_st any_key" e for e t0 b
  by unfold_locales (auto intro: quiet_trans moved_trans quiet_moved answer_ok_moved stages_quiet)

abbreviation in_once :: "env \<Rightarrow> nat \<Rightarrow> nat \<Rightarrow> answer sthread \<Rightarrow> session \<times> world \<Rightarrow> bool" where
  "in_once e t0 b \<equiv> logins_frame.held_ok e t0 b"

lemma login_count_simps [simp]:
  "login_count (logged [rq] w) = login_count w + (if is_login rq then 1 else 0)"
  "login_count (tick w) = login_count w"
  "login_count (clearAuthFailure key w) = login_count w"
  "login_count (recordAuthFailure e key err w) = login_count w"
  "login_count (snd (cachedAuthFailure e key w)) = login_count w"
  by (simp_all add: login_count_def frame)

text \<open>The throttle: a lookup that finds nothing means that nothing blocks; no lookup unblocks.\<close>

lemma cached_free:
  "fst (cachedAuthFailure e (auth_key (s_cfg s)) w) = None \<Longrightarrow> clock_ok e t0 w \<Longrightarrow>
   in_window e t0 (snd (cachedAuthFailure e (auth_key (s_cfg s)) w)) \<Longrightarrow> \<not> blocked e t0 s w"
  by (auto simp: cachedAuthFailure_def blocked_def time_Now_tick in_window_def clock_ok_def
      split: option.splits if_splits dest!: monoD[of "e_Clock e" "w_ticks w" "Suc (w_ticks w)"])

lemma cached_keeps:
  "fst (cachedAuthFailure e (auth_key (s_cfg s)) w) = Some err \<Longrightarrow> once e t0 b (s, w) \<Longrightarrow>
   once e t0 b (s, snd (cachedAuthFailure e (auth_key (s_cfg s)) w))"
  by (auto simp: stages cachedAuthFailure_def blocked_def time_Now_tick
      split: option.splits if_splits dest: clock_later(1,2)[of e t0 w "tick w"])

lemma held_failure:
  assumes "used e t0 b s0 st" "\<And>st'. once e t0 b st' \<Longrightarrow> in_once e t0 b (k ()) st'"
  shows "in_once e t0 b (record_failure e (auth_key (s_cfg s0)) err k) st"
  unfolding record_failure_def
proof (rule logins_frame.held_outside_at[where Q = "used e t0 b s0"])
  fix s w
  assume u: "used e t0 b s0 (s, w)"
  then have "once e t0 b (s, recordAuthFailure e (auth_key (s_cfg s0)) err w)"
    using clock_later(1)[of e t0 w "tick w"] clock_later(2)[of e t0 w "tick w"] clock_later(3)[of e t0 w]
    by (auto simp: stages recordAuthFailure_def time_Now_tick blocked_def window_def in_window_def clock_ok_def login_count_def)
  with assms(2) show "grows w (snd ((), recordAuthFailure e (auth_key (s_cfg s0)) err w))
      \<and> in_once e t0 b (k (fst ((), recordAuthFailure e (auth_key (s_cfg s0)) err w)))
          (s, snd ((), recordAuthFailure e (auth_key (s_cfg s0)) err w))"
    by simp
qed (use assms(1) stages_quiet(4) in blast)+

lemma held_stored:
  assumes "stored e t0 b st" "\<And>st'. once e t0 b st' \<Longrightarrow> in_once e t0 b (k ()) st'"
  shows "in_once e t0 b (action (outside (\<lambda>_ w. ((), clearAuthFailure key w))) k) st"
proof (rule logins_frame.held_outside_at[where Q = "stored e t0 b"])
  fix s w
  assume "stored e t0 b (s, w)"
  then have "once e t0 b (s, clearAuthFailure key w)"
    by (auto simp: stages clock_ok_def in_window_def frame)
  with assms(2) show "grows w (snd ((), clearAuthFailure key w))
      \<and> in_once e t0 b (k (fst ((), clearAuthFailure key w))) (s, snd ((), clearAuthFailure key w))"
    by simp
qed (use assms(1) stages_quiet(5) in blast)+

lemma cache_ttl_lower: "authFailureCacheTTL \<le> cache_ttl r c"
  by (simp add: cache_ttl_def Let_def tokenSafetyMargin_def authFailureCacheTTL_def second_def)

lemma held_store_token:
  assumes "used e t0 b s0 st" "token \<noteq> []" "\<And>st'. stored e t0 b st' \<Longrightarrow> in_once e t0 b (k ()) st'"
  shows "in_once e t0 b (action (store_token e token ttl) k) st"
proof (rule logins_frame.held_step_at[where Q = "used e t0 b s0"])
  fix s w
  assume u: "used e t0 b s0 (s, w)"
  have "stored e t0 b (snd (store_token e token ttl s w))"
    using u clock_later(1)[of e t0 w "tick w"] clock_later(2)[of e t0 w "tick w"] clock_later(3)[of e t0 w] assms(2)
      cache_ttl_lower[of ttl "TokenTTLSeconds (Cache (s_cfg s))"]
    by (auto simp: stages store_token_def cacheExpiry_def time_Now_tick token_kept_def window_def)
  moreover have "moved (s, w) (snd (store_token e token ttl s w))"
    by (simp add: moved_def store_token_def cacheExpiry_def time_Now_tick same_setup_def)
  ultimately show "moved (s, w) (snd (store_token e token ttl s w))
      \<and> in_once e t0 b (k (fst (store_token e token ttl s w))) (snd (store_token e token ttl s w))"
    using assms(3) by simp
qed (use assms(1) stages_quiet(4) in blast)+

lemma held_Login:
  assumes "unused e t0 b s0 st" "\<And>r st'. used e t0 b s0 st' \<Longrightarrow> (\<And>t d. r = Inr (t, d) \<Longrightarrow> t \<noteq> []) \<Longrightarrow> in_once e t0 b (k r) st'"
  shows "in_once e t0 b (action (outside (\<lambda>s. Login e (s_client s) i x)) k) st"
proof (rule logins_frame.held_outside_at[where Q = "unused e t0 b s0"])
  fix s w
  assume "unused e t0 b s0 (s, w)"
  then have "used e t0 b s0 (s, snd (Login e (s_client s) i x w))"
    by (auto simp: stages frame clock_ok_def in_window_def)
  then show "grows w (snd (Login e (s_client s) i x w))
      \<and> in_once e t0 b (k (fst (Login e (s_client s) i x w))) (s, snd (Login e (s_client s) i x w))"
    by (auto simp: frame intro: assms(2) dest: Login_token)
qed (use assms(1) stages_quiet(3) in blast)+

lemma unused_used: "unused e t0 b s0 st \<Longrightarrow> used e t0 b s0 st"
  by (cases st) (auto simp: stages)

lemma held_lookup:
  assumes "no_token e t0 b s0 st"
    and "\<And>err st'. once e t0 b st' \<Longrightarrow> in_once e t0 b (k (Some err)) st'"
    and "\<And>st'. unused e t0 b s0 st' \<Longrightarrow> in_once e t0 b (k None) st'"
  shows "in_once e t0 b (action (outside (\<lambda>_. cachedAuthFailure e (auth_key (s_cfg s0)))) k) st"
proof (rule logins_frame.held_outside_at[where Q = "no_token e t0 b s0"])
  fix s w
  let ?c = "cachedAuthFailure e (auth_key (s_cfg s0)) w"
  assume n: "no_token e t0 b s0 (s, w)"
  show "grows w (snd ?c) \<and> in_once e t0 b (k (fst ?c)) (s, snd ?c)"
  proof (cases "fst ?c")
    case None
    have "unused e t0 b s0 (s, snd ?c)"
      using n cached_free[of e s w t0] None clock_later(1)[of e t0 w "snd ?c"] clock_later(2)[of e t0 w "snd ?c"]
      by (auto simp: stages frame)
    with assms(3) None show ?thesis by simp
  next
    case (Some err)
    moreover have "s = s0" "once e t0 b (s, w)" using n by (auto simp: stages)
    ultimately have "once e t0 b (s, snd ?c)" using cached_keeps[of e s w err t0 b] Some by blast
    with assms(2) Some show ?thesis by simp
  qed
qed (use assms(1) stages_quiet(2) in blast)+

lemma held_Login_outcome:
  assumes "unused e t0 b s0 st" "\<And>r st'. once e t0 b st' \<Longrightarrow> in_once e t0 b (k r) st'"
  shows "in_once e t0 b (action (outside (\<lambda>s. Login e (s_client s) i x)) (\<lambda>r. case r of
      Inl err \<Rightarrow> record_failure e (auth_key (s_cfg s0)) err (\<lambda>_. k (Inl err))
    | Inr (token, ttl) \<Rightarrow> action (store_token e token ttl) (\<lambda>_.
        action (outside (\<lambda>_ w. ((), clearAuthFailure (auth_key (s_cfg s0)) w))) (\<lambda>_. k (Inr token))))) st"
proof (rule held_Login[OF assms(1)])
  fix r :: "(string \<times> duration) result" and st' assume u: "used e t0 b s0 st'" and t: "\<And>t d. r = Inr (t, d) \<Longrightarrow> t \<noteq> []"
  show "in_once e t0 b (case r of
      Inl err \<Rightarrow> record_failure e (auth_key (s_cfg s0)) err (\<lambda>_. k (Inl err))
    | Inr (token, ttl) \<Rightarrow> action (store_token e token ttl) (\<lambda>_.
        action (outside (\<lambda>_ w. ((), clearAuthFailure (auth_key (s_cfg s0)) w))) (\<lambda>_. k (Inr token)))) st'"
    using t by (auto intro!: held_failure[OF u] held_store_token[OF u] assms(2) dest: held_stored[OF _ assms(2)] split: sum.split)
qed

lemma once_acquire:
  assumes "no_token e t0 b s0 st" "\<And>r st'. once e t0 b st' \<Longrightarrow> in_once e t0 b (k r) st'"
  shows "in_once e t0 b (acquire_thread e s0 k) st"
  unfolding acquire_thread_def Let_def
proof (rule held_lookup[OF assms(1)])
  fix st' assume u: "unused e t0 b s0 st'"
  show "in_once e t0 b (case None of None \<Rightarrow>
        if auth_ClientID (Auth (s_cfg s0)) = [] \<or> auth_ClientSecret (Auth (s_cfg s0)) = []
        then record_failure e (auth_key (s_cfg s0)) no_credentials (\<lambda>_. k (Inl no_credentials))
        else action (outside (\<lambda>s. Login e (s_client s) (auth_ClientID (Auth (s_cfg s0)))
               (auth_ClientSecret (Auth (s_cfg s0))))) (\<lambda>r. case r of
            Inl err \<Rightarrow> record_failure e (auth_key (s_cfg s0)) err (\<lambda>_. k (Inl err))
          | Inr (token, ttl) \<Rightarrow> action (store_token e token ttl) (\<lambda>_.
              action (outside (\<lambda>_ w. ((), clearAuthFailure (auth_key (s_cfg s0)) w))) (\<lambda>_. k (Inr token))))
      | Some err \<Rightarrow> k (Inl err)) st'"
    using assms(2) by (simp add: held_failure[OF unused_used[OF u]] held_Login_outcome[OF u])
qed (simp add: assms(2))

lemma held_clock:
  assumes "s_token s0 \<noteq> []" "once e t0 b (s0, w0)" "\<And>r st'. once e t0 b st' \<Longrightarrow> in_once e t0 b (k r) st'"
  shows "in_once e t0 b (action (outside (\<lambda>_. time_Now e)) (\<lambda>now.
     if now < s_tokenExpiry s0 then k (Inr (s_token s0)) else acquire_thread e s0 k)) (s0, w0)"
proof (rule logins_frame.held_outside_at[where Q = "\<lambda>st. fst st = s0 \<and> once e t0 b st"])
  fix s w
  assume s: "fst (s, w) = s0 \<and> once e t0 b (s, w)"
  then have o: "once e t0 b (s, tick w)" using stages_quiet(1)[of e t0 b "(s, w)" "(s, tick w)"] by auto
  have "no_token e t0 b s0 (s, tick w)" if "\<not> e_Clock e (w_ticks w) < s_tokenExpiry s0"
    using s o that clock_later(2)[of e t0 w "tick w"] by (auto simp: stages token_kept_def in_window_def)
  then show "grows w (snd (time_Now e w)) \<and> in_once e t0 b
      (if fst (time_Now e w) < s_tokenExpiry s0 then k (Inr (s_token s0)) else acquire_thread e s0 k)
      (s, snd (time_Now e w))"
    using o once_acquire[OF _ assms(3)] assms(3) by (auto simp: time_Now_tick)
qed (use assms(2) stages_quiet(1) in \<open>auto simp: quiet_def\<close>)

lemma once_ensure:
  assumes "once e t0 b st" "\<And>r st'. once e t0 b st' \<Longrightarrow> in_once e t0 b (k r) st'"
  shows "in_once e t0 b (ensure_thread e k) st"
  unfolding ensure_thread_def
proof (rule logins_frame.held_peek[OF assms(1)])
  fix s0 w
  assume o: "once e t0 b (s0, w)"
  have "in_once e t0 b (acquire_thread e s0 k) (s0, w)" if "s_token s0 = []"
    using o that by (intro once_acquire assms(2)) (auto simp: stages token_kept_def)
  with o assms(2) held_clock[of s0 e t0 b w k, OF _ o assms(2)]
  show "in_once e t0 b
      (if auth_Method (Auth (s_cfg s0)) = AuthMethodToken
       then k (if auth_Token (Auth (s_cfg s0)) = []
               then Inl (Errorf ''token auth selected but no token: set %s'' [FStr EnvToken])
               else Inr (auth_Token (Auth (s_cfg s0))))
       else if s_token s0 \<noteq> []
       then action (outside (\<lambda>_. time_Now e)) (\<lambda>now.
              if now < s_tokenExpiry s0 then k (Inr (s_token s0)) else acquire_thread e s0 k)
       else acquire_thread e s0 k) (s0, w)"
    by simp
qed

interpretation logins: session_guard true_st "once e t0 b" e any_key for e t0 b
  by unfold_locales (auto simp: stages blocked_def token_kept_def intro: once_ensure)

end
