(* ===== verification/SessionConcurrent.thy ===== *)
theory SessionConcurrent
  imports RaceInvariants SessionProps
begin

text \<open>
  The properties of a session that several threads use at once, whatever the order of their actions,
  each with an interleaving on the surroundings of \<open>Scenario\<close>.
\<close>

definition calls_on :: "env \<Rightarrow> session_call list \<Rightarrow> session \<Rightarrow> world \<Rightarrow> (session \<times> world, answer) pool" where
  "calls_on e cs s w = start (map (call_thread e) cs) (s, w)"

section \<open>Two interleavings\<close>

text \<open>A call for a key and one for a signature, on a session with a token: the second thread signs
  while the first waits for the certificate.\<close>

definition key_and_sign :: "(session \<times> world, answer) pool" where
  "key_and_sign = calls_on (demo_env ok_answers)
     [CallPublicKey ''s1'', CallSign ''s1'' ''ECDSA_SHA_256'' (replicate 32 7)] (demo_session token_config) demo_world"

text \<open>Two signatures on a session without a token: the second thread finds the token of the first.\<close>

definition two_signs :: "(session \<times> world, answer) pool" where
  "two_signs = calls_on (demo_env ok_answers)
     [CallSign ''s1'' ''a'' [], CallSign ''s1'' ''a'' [7]] (demo_session demo_config) demo_world"

lemma demo_key_parsed: "publicKeyFromCertPEM (demo_env ok_answers) pem = Inr demo_key"
  by (simp add: publicKeyFromCertPEM_def demo_x509_def)

lemma demo_ttl_later: "second < 270 * second"
  by (simp add: second_def)

lemmas run_simps = calls_on_def start_def Sign_thread_def PublicKey_thread_def fetch_key_thread_def
  ensure_thread_def action_def acquire_thread_def store_key_def store_token_def cacheExpiry_def
  demo_key_parsed demo_signature demo_ttl demo_ttl_later current_ctx_eq frame Let_def time_Now_tick case_prod_beta

lemma key_and_sign_ends:
  "\<exists>P. pool_run 13 key_and_sign P \<and> p_threads P = [Ret (KeyIs ''s1'' (Inr demo_key)),
     Ret (SignatureIs ''s1'' ''ECDSA_SHA_256'' (replicate 32 7) (Inr demo_sig))]"
proof -
  obtain P where P: "schedule [0, 0, 0, 0, 1, 1, 1, 1, 0, 1, 0, 0, 0] key_and_sign = Some P"
    "p_threads P = [Ret (KeyIs ''s1'' (Inr demo_key)),
        Ret (SignatureIs ''s1'' ''ECDSA_SHA_256'' (replicate 32 7) (Inr demo_sig))]"
    by (simp add: key_and_sign_def run_simps)
  show ?thesis using schedule_run[OF P(1)] P(2-) by (auto simp: numeral_eq_Suc)
qed

lemma two_signs_end:
  "\<exists>P. pool_run 15 two_signs P \<and> p_owner P = None \<and> w_ticks (snd (p_shared P)) = 2
     \<and> p_threads P = [Ret (SignatureIs ''s1'' ''a'' [] (Inr demo_sig)), Ret (SignatureIs ''s1'' ''a'' [7] (Inr demo_sig))]"
proof -
  obtain P where P: "schedule [0, 0, 0, 0, 0, 0, 0, 1, 1, 1, 1, 0, 1, 1, 0] two_signs = Some P"
    "p_owner P = None" "w_ticks (snd (p_shared P)) = 2"
    "p_threads P = [Ret (SignatureIs ''s1'' ''a'' [] (Inr demo_sig)), Ret (SignatureIs ''s1'' ''a'' [7] (Inr demo_sig))]"
    by (simp add: two_signs_def run_simps)
  show ?thesis using schedule_run[OF P(1)] P(2-) by (auto simp: numeral_eq_Suc)
qed

lemma key_from_moved:
  "key_from e (moved (s, w)) i key st \<Longrightarrow> \<exists>w1 token pem. prefix (w_sent w) (w_sent w1)
     \<and> prefix (w_sent w1 @ [cert_request (s_client s) token i]) (w_sent (snd st))
     \<and> fst (GetCertificate e (s_client s) token i w1) = Inr pem \<and> publicKeyFromCertPEM e pem = Inr key"
  unfolding key_from_def moved_def same_setup_def grows_def by fastforce

lemma sig_from_moved:
  "sig_from e (moved (s, w)) i alg d sig st \<Longrightarrow> \<exists>w1 token c sigB64. prefix (w_sent w) (w_sent w1)
     \<and> prefix (w_sent w1 @ [sign_request (s_client s) token i (sign_params_of c alg d)]) (w_sent (snd st))
     \<and> fst (Client_Sign e (s_client s) token i (sign_params_of c alg d) w1) = Inr sigB64
     \<and> b64_decode sigB64 = Some sig"
  unfolding sig_from_def moved_def same_setup_def grows_def by fastforce

section \<open>What no interleaving can break\<close>


text \<open>C12: concurrent calls neither deadlock nor run forever: under every schedule a group of calls has
  taken at most fourteen actions per call, and when no thread can go on, every call has returned.\<close>

theorem concurrent_calls_finish:
  assumes "pool_run n (calls_on e cs s w) P"
  shows "n \<le> 14 * length cs
     \<and> ((\<forall>Q. \<not> pool_step P Q) \<longrightarrow> list_all finished (p_threads P))"
proof -
  have "budget (replicate (length cs) 14) (calls_on e cs s w)"
    by (simp add: budget_def calls_on_def start_def list_all2_conv_all_nth bounded_call)
  from budget_run[OF assms this] have "n \<le> 14 * length cs" by (auto simp: sum_list_replicate)
  moreover have "plain_frame.pool_ok e P"
    using assms by (auto simp: calls_on_def intro: plain.calls_keep)
  ultimately show ?thesis
    using plain_frame.no_deadlock[of e P] by (auto simp: list_all_length)
qed

text \<open>C10: concurrent calls do not mix up their answers. Every key that a call returns, or that is in the
  cache while no thread holds the mutex, was parsed from the server's answer to a request for the
  certificate of that very signer, and every signature a call returns is the decoded answer to a
  request with that call's own signer, algorithm and digest; all these requests were sent after the
  calls began.\<close>

theorem concurrent_answers_genuine:
  assumes "pool_run n (calls_on e cs s w) P" "s_pubKeys s = Map.empty"
  shows "(\<forall>i key. Ret (KeyIs i (Inr key)) \<in> set (p_threads P)
            \<or> p_owner P = None \<and> map_option pk_key (s_pubKeys (fst (p_shared P)) i) = Some key \<longrightarrow>
         (\<exists>w1 token pem. prefix (w_sent w) (w_sent w1)
            \<and> prefix (w_sent w1 @ [cert_request (s_client s) token i]) (w_sent (snd (p_shared P)))
            \<and> fst (GetCertificate e (s_client s) token i w1) = Inr pem
            \<and> publicKeyFromCertPEM e pem = Inr key))
     \<and> (\<forall>i alg d sig. Ret (SignatureIs i alg d (Inr sig)) \<in> set (p_threads P) \<longrightarrow>
         (\<exists>w1 token c sigB64. prefix (w_sent w) (w_sent w1)
            \<and> prefix (w_sent w1 @ [sign_request (s_client s) token i (sign_params_of c alg d)])
                (w_sent (snd (p_shared P)))
            \<and> fst (Client_Sign e (s_client s) token i (sign_params_of c alg d) w1) = Inr sigB64
            \<and> b64_decode sigB64 = Some sig))"
proof -
  have ok: "keys_frame.pool_ok (s, w) e P"
    using assms by (intro keys.calls_keep) (auto simp: calls_on_def genuine_keys_def moved_def)
  have "genuine_keys e (s, w) (p_shared P)" if "p_owner P = None"
    using ok that by (simp add: keys_frame.pool_ok_def)
  then have "key_from e (moved (s, w)) i key (p_shared P)"
    if "Ret (KeyIs i (Inr key)) \<in> set (p_threads P)
      \<or> p_owner P = None \<and> map_option pk_key (s_pubKeys (fst (p_shared P)) i) = Some key" for i key
    using that keys_frame.pool_ok_result[OF ok] by (fastforce simp: genuine_keys_def)
  moreover have "sig_from e (moved (s, w)) i alg d sig (p_shared P)"
    if "Ret (SignatureIs i alg d (Inr sig)) \<in> set (p_threads P)" for i alg d sig
    using keys_frame.pool_ok_result[OF ok that] by simp
  ultimately show ?thesis
    by (intro conjI allI impI; blast intro: key_from_moved sig_from_moved)
qed

theorem concurrent_answers_genuine_witness:
  "\<exists>P (w1 :: world) token c sigB64. pool_run 13 key_and_sign P
     \<and> prefix (w_sent w1 @ [sign_request demo_client token ''s1'' (sign_params_of c ''ECDSA_SHA_256'' (replicate 32 7))])
         (w_sent (snd (p_shared P)))
     \<and> b64_decode sigB64 = Some demo_sig"
proof -
  obtain P where P: "pool_run 13 key_and_sign P" "p_threads P = [Ret (KeyIs ''s1'' (Inr demo_key)),
     Ret (SignatureIs ''s1'' ''ECDSA_SHA_256'' (replicate 32 7) (Inr demo_sig))]"
    using key_and_sign_ends by blast
  from concurrent_answers_genuine[OF P(1)[unfolded key_and_sign_def], THEN conjunct2, rule_format,
      of "''s1''" "''ECDSA_SHA_256''" "replicate 32 7" demo_sig]
  obtain w1 :: world and token c sigB64 where "prefix (w_sent w1 @ [sign_request demo_client token ''s1''
      (sign_params_of c ''ECDSA_SHA_256'' (replicate 32 7))]) (w_sent (snd (p_shared P)))"
    "b64_decode sigB64 = Some demo_sig"
    using P(2) by auto
  with P(1) show ?thesis by blast
qed

text \<open>C11: however many threads use a session, with a clock that does not run backwards at most one login
  is sent within the ten seconds that a failed login is remembered, whatever becomes of it.\<close>

theorem concurrent_single_login:
  assumes "pool_run n (calls_on e cs s w) P" "mono (e_Clock e)" "p_owner P = None"
    and "e_Clock e (w_ticks (snd (p_shared P))) < e_Clock e (w_ticks w) + authFailureCacheTTL"
  shows "login_count (snd (p_shared P)) \<le> Suc (login_count w)"
proof -
  have "logins_frame.pool_ok e (w_ticks w) (login_count w) P"
    using assms(1,2) by (intro logins.calls_keep) (auto simp: calls_on_def stages clock_ok_def)
  then have "once e (w_ticks w) (login_count w) (p_shared P)"
    using assms(3) by (simp add: logins_frame.pool_ok_def)
  then show ?thesis
    using assms(4) by (cases "p_shared P") (auto simp: stages in_window_def window_def)
qed

theorem concurrent_single_login_witness:
  "\<exists>P. pool_run 15 two_signs P \<and> list_all finished (p_threads P) \<and> login_count (snd (p_shared P)) \<le> 1"
proof -
  obtain P where P: "pool_run 15 two_signs P" "p_owner P = None" "w_ticks (snd (p_shared P)) = 2"
    "p_threads P = [Ret (SignatureIs ''s1'' ''a'' [] (Inr demo_sig)), Ret (SignatureIs ''s1'' ''a'' [7] (Inr demo_sig))]"
    using two_signs_end by blast
  have "mono (e_Clock (demo_env ok_answers))" by (simp add: mono_def second_def)
  from concurrent_single_login[OF P(1)[unfolded two_signs_def] this P(2)] P show ?thesis
    by (auto simp: authFailureCacheTTL_def second_def login_count_def)
qed


theorem concurrent_calls_finish_witness:
  "\<exists>P. pool_run 15 two_signs P \<and> (15::nat) \<le> 14 * 2 \<and> list_all finished (p_threads P)"
proof -
  obtain P where P: "pool_run 15 two_signs P"
    "p_threads P = [Ret (SignatureIs ''s1'' ''a'' [] (Inr demo_sig)), Ret (SignatureIs ''s1'' ''a'' [7] (Inr demo_sig))]"
    using two_signs_end by blast
  have "\<not> pool_step P Q" for Q
    using pool_step_move[of P Q] P(2) by (auto simp: less_Suc_eq not_le split: if_splits)
  with concurrent_calls_finish[OF P(1)[unfolded two_signs_def]] P(1) show ?thesis by auto
qed

end
