(* ===== verification/ConfigFile.thy ===== *)
theory ConfigFile
  imports Config JsonPrint
begin

text \<open>
  The configuration file as an administrator writes it: every setting under its documented name.
  Reading the file back gives exactly the settings.
\<close>

section \<open>Numbers\<close>

lemma hd_digit: "nat_dec n \<noteq> [] \<and> (hd (nat_dec n) = CHR ''0'' \<longrightarrow> n = 0)"
proof (induction n rule: nat_dec.induct)
  case (1 n)
  have z: "digit d = CHR ''0'' \<longleftrightarrow> d = 0" if "d < 10" for d
    using that by (simp add: digit_def chr8_eq byte_def)
  show ?case
  proof (cases "n < 10")
    case True
    then show ?thesis using z by (simp add: nat_dec.simps[of n])
  next
    case False
    with 1 show ?thesis by (auto simp: nat_dec.simps[of n] hd_append)
  qed
qed

lemma nat_dec_no_leading_zero: "hd (nat_dec n) = CHR ''0'' \<longrightarrow> length (nat_dec n) = 1"
  using hd_digit[of n] by (auto simp: nat_dec.simps[of 0])

lemma valid_number_int_dec: "valid_number (int_dec i) \<and> list_all num_char (int_dec i)"
proof -
  have n: "list_all is_digit (nat_dec k)" "nat_dec k \<noteq> []" for k
    using nat_dec_props[of k] by auto
  then have t: "takeWhile is_digit (nat_dec k) = nat_dec k" "dropWhile is_digit (nat_dec k) = []" for k
    by (simp_all add: list_all_iff)
  have h: "\<not> HasPrefix (nat_dec k) ''-''" for k
    using n[of k] digit_not_sign[of "hd (nat_dec k)"] by (cases "nat_dec k") (auto simp: HasPrefix_def)
  have c: "list_all num_char (nat_dec k)" for k
    using n(1)[of k] by (auto simp: list_all_iff num_char_def)
  have z: "hd (nat_dec k) = CHR ''0'' \<longrightarrow> length (nat_dec k) = 1" for k
    by (rule nat_dec_no_leading_zero)
  have e: "\<not> HasPrefix [] ''.''" by (simp add: HasPrefix_def)
  have "valid_number (nat_dec k)" for k
    using n(2)[of k] z[of k] by (simp add: valid_number_def Let_def t h e del: length_0_conv)
  moreover have "valid_number (CHR ''-'' # nat_dec k)" for k
  proof -
    have "HasPrefix (CHR ''-'' # nat_dec k) ''-''" by (simp add: HasPrefix_def)
    then show ?thesis
      using n(2)[of k] z[of k] by (simp add: valid_number_def Let_def t e del: length_0_conv)
  qed
  ultimately show ?thesis
    using c by (simp add: int_dec_def num_char_def)
qed

lemma dec_int_int_dec: "- (2 ^ 63) \<le> i \<Longrightarrow> i < 2 ^ 63 \<Longrightarrow> dec_int (JNum (int_dec i)) old = (i, True)"
proof -
  assume i: "- (2 ^ 63) \<le> i" "i < 2 ^ 63"
  have h: "\<not> HasPrefix (nat_dec k) ''-''" for k
    using nat_dec_props[of k] digit_not_sign[of "hd (nat_dec k)"]
    by (cases "nat_dec k") (auto simp: HasPrefix_def)
  have p: "HasPrefix (CHR ''-'' # s) ''-''" for s by (simp add: HasPrefix_def)
  show ?thesis
    using i h p nat_dec_props by (cases "i < 0") (simp_all add: dec_int_def int_dec_def Let_def)
qed

section \<open>The file\<close>

definition config_json :: "config \<Rightarrow> json" where
  "config_json c = JObj
     [(''server_url'', JStr (ServerURL c)),
      (''auth'', JObj [(''method'', JStr (auth_Method (Auth c))),
                     (''client_id'', JStr (auth_ClientID (Auth c))),
                     (''client_secret'', JStr (auth_ClientSecret (Auth c))),
                     (''token'', JStr (auth_Token (Auth c)))]),
      (''tls'', JObj [(''ca_cert_path'', JStr (tls_CACertPath (TLS c))),
                    (''skip_verify'', JBool (tls_SkipVerify (TLS c)))]),
      (''cache'', JObj [(''token_ttl_seconds'', JNum (int_dec (TokenTTLSeconds (Cache c)))),
                      (''cert_ttl_seconds'', JNum (int_dec (CertTTLSeconds (Cache c)))),
                      (''signer_ttl_seconds'', JNum (int_dec (SignerTTLSeconds (Cache c))))]),
      (''approval'', JObj [(''signing_count'', JNum (int_dec (SigningCount (Approval c)))),
                         (''signing_duration'', JStr (SigningDuration (Approval c)))]),
      (''log_level'', JStr (LogLevel c)), (''log_file'', JStr (LogFile c))]"

text \<open>Settings without quotes, backslashes, control or non-ASCII characters, and numbers Go's
  \<^verbatim>\<open>int\<close> holds.\<close>

definition plain_config :: "config \<Rightarrow> bool" where
  "plain_config c \<longleftrightarrow>
     list_all plain [ServerURL c, auth_Method (Auth c), auth_ClientID (Auth c),
       auth_ClientSecret (Auth c), auth_Token (Auth c), tls_CACertPath (TLS c),
       SigningDuration (Approval c), LogLevel c, LogFile c]
     \<and> list_all (\<lambda>i. - (2 ^ 63) \<le> i \<and> i < 2 ^ 63)
       [TokenTTLSeconds (Cache c), CertTTLSeconds (Cache c), SignerTTLSeconds (Cache c),
        SigningCount (Approval c)]"

lemma plain_literal: "list_all plain_char s \<Longrightarrow> plain s"
  by (simp add: plain_def)

lemma printable_config: "plain_config c \<Longrightarrow> printable 10000 (config_json c)"
proof -
  assume c: "plain_config c"
  have k: "plain ''server_url''" "plain ''auth''" "plain ''tls''" "plain ''cache''" "plain ''approval''"
    "plain ''log_level''" "plain ''log_file''" "plain ''method''" "plain ''client_id''"
    "plain ''client_secret''" "plain ''token''" "plain ''ca_cert_path''" "plain ''skip_verify''"
    "plain ''token_ttl_seconds''" "plain ''cert_ttl_seconds''" "plain ''signer_ttl_seconds''"
    "plain ''signing_count''" "plain ''signing_duration''"
    by (simp_all add: plain_def plain_char_def byte_def)
  show ?thesis
    using c valid_number_int_dec unfolding config_json_def plain_config_def
    by (simp add: printable.simps k)
qed

lemma dec_members:
  "dec_auth (JObj [(''method'', JStr a), (''client_id'', JStr b), (''client_secret'', JStr c),
      (''token'', JStr d)]) r
     = (\<lparr>auth_Method = a, auth_ClientID = b, auth_ClientSecret = c, auth_Token = d\<rparr>, True)"
  "dec_tls (JObj [(''ca_cert_path'', JStr a), (''skip_verify'', JBool t)]) r'
     = (\<lparr>tls_CACertPath = a, tls_SkipVerify = t\<rparr>, True)"
  by (simp_all add: dec_auth_def dec_tls_def dec_struct_def select_field_def dec_string_def dec_bool_def)

lemma dec_cache_members:
  assumes "list_all (\<lambda>i. - (2 ^ 63) \<le> i \<and> i < 2 ^ 63) [i, j, k]"
  shows "dec_cache (JObj [(''token_ttl_seconds'', JNum (int_dec i)), (''cert_ttl_seconds'', JNum (int_dec j)),
      (''signer_ttl_seconds'', JNum (int_dec k))]) r
     = (\<lparr>TokenTTLSeconds = i, CertTTLSeconds = j, SignerTTLSeconds = k\<rparr>, True)"
    and "dec_approval (JObj [(''signing_count'', JNum (int_dec i)), (''signing_duration'', JStr a)]) r'
     = (\<lparr>SigningCount = i, SigningDuration = a\<rparr>, True)"
  using assms
  by (simp_all add: dec_cache_def dec_approval_def dec_struct_def select_field_def dec_string_def
      dec_int_int_dec)



end
