(* ===== verification/Spec2Isabelle.thy ===== *)
theory Spec2Isabelle
  imports KspTraces HostScenario SessionProps SessionConcurrent ConfigFile
begin

text \<open>
  \<^bold>\<open>Infisical KSP\<close>: a Windows CNG key storage provider, a DLL that signing tools load, whose private
  keys stay on an Infisical server. This development models the Go code of the repository and the C
  functions through which the host enters it.

  \<^bold>\<open>The program.\<close> The host (signtool, jarsigner) calls the C functions of
  \<^verbatim>\<open>cmd/ksp/bridge_windows.c\<close>. They call the Go functions exported by \<^verbatim>\<open>bridge_windows.go\<close>, which
  look a handle up in the registry of \<^verbatim>\<open>provider_windows.go\<close> and work on a provider (a session) or a
  key (a signer with its public key). A session (\<^verbatim>\<open>internal/infisical/session.go\<close>) holds an access
  token and caches, and uses the REST client (\<^verbatim>\<open>client.go\<close>); configuration comes from
  \<^verbatim>\<open>config.go\<close>, the description of the host process from \<^verbatim>\<open>signing_context.go\<close>. Formats of CNG are
  produced by \<^verbatim>\<open>internal/cng\<close>.

  \<^bold>\<open>Theories\<close>, in the order they build on each other:
  \<^item> \<open>Prelude\<close>: machine types, instants and durations in nanoseconds with the wrap-around of
    \<^verbatim>\<open>int64\<close> written out (\<open>i64\<close>), fact collections, and the interfaces \<open>codec\<close>,
    \<open>guarded_system\<close>, \<open>growing_system\<close>.
  \<^item> \<open>GoStrings\<close>, \<open>Encoding\<close>, \<open>Sha256\<close>, \<open>GoUrl\<close>, \<open>Duration\<close>, \<open>Json\<close>, \<open>JsonPrint\<close>: what the code uses
    of Go's standard library (strings as byte sequences, UTF-8, base64 and hexadecimal, big-endian
    integers, SHA-256, \<^verbatim>\<open>url.Parse\<close> and \<^verbatim>\<open>url.PathEscape\<close>, \<^verbatim>\<open>time.ParseDuration\<close> and RFC 3339,
    \<^verbatim>\<open>encoding/json\<close>), each with its round trip.
  \<^item> \<open>GoErrors\<close>: \<^verbatim>\<open>errors.go\<close>; error values, their texts, \<^verbatim>\<open>errors.As\<close> and \<^verbatim>\<open>errors.Is\<close>, and the
    interface of a wrapper that hides nothing.
  \<^item> \<open>GoOs\<close>: what the operating system answers (a parameter).
  \<^item> \<open>CngAlgorithm\<close>, \<open>CngEcdsa\<close>, \<open>CngPubkey\<close>: \<^verbatim>\<open>internal/cng\<close> and \<^verbatim>\<open>internal/infisical/algorithm.go\<close>.
  \<^item> \<open>SigningContext\<close>: \<^verbatim>\<open>signing_context.go\<close> and its two variants per operating system.
  \<^item> \<open>Config\<close>, \<open>ConfigFile\<close>: \<^verbatim>\<open>config.go\<close>.
  \<^item> \<open>Client\<close>: \<^verbatim>\<open>client.go\<close>. An operation maps a \<open>world\<close> (clock readings taken, requests sent, the two
    process-wide cells of the package) to a result and a world.
  \<^item> \<open>Session\<close>, \<open>SessionCache\<close>, \<open>SessionSign\<close>: \<^verbatim>\<open>session.go\<close>; an operation maps a session and a world
    to a result, a session and a world. \<open>SessionCache\<close> states the interface of a cache with an expiry
    and interprets it for token, signers and keys.
  \<^item> \<open>Scenario\<close>, \<open>SessionProps\<close>: concrete surroundings, and the properties of sessions.
  \<^item> \<open>Threads\<close>: threads that share a state and one mutex, and rely-guarantee rules for pools of them.
    \<open>SessionThreads\<close>: the operations of \<^verbatim>\<open>session.go\<close> as threads, cut at every reading of the clock,
    every request and every access to shared state, with the mutex where the code takes it.
    \<open>SessionRaces\<close>: the interface of an invariant of such threads; \<open>RaceInvariants\<close>: three invariants
    as its interpretations; \<open>SessionConcurrent\<close>: the properties of concurrent calls.
  \<^item> \<open>Provider\<close>: \<^verbatim>\<open>provider_windows.go\<close>, \<^verbatim>\<open>properties_windows.go\<close>, \<^verbatim>\<open>logging_windows.go\<close>. The
    \<open>machine\<close> is the process: the world, a heap of sessions (keys share the session of their
    provider), the handle table with its 64-bit counter, and the log.
  \<^item> \<open>Bridge\<close>: \<^verbatim>\<open>bridge_windows.go\<close> and \<^verbatim>\<open>bridge_windows.c\<close>; \<open>host_step\<close> is one call of the function
    table.
  \<^item> \<open>HostCalls\<close>: what every call keeps of the machine. \<open>KspSpec\<close>: an abstract key storage provider
    and the proof that the machine implements it. \<open>KspTraces\<close>: consequences for whole histories.
    \<open>HostScenario\<close>: a host that opens a provider and a key and signs.

  This theory holds the properties that span components.

  \<^bold>\<open>What is shown.\<close> A signature the host receives is the server's answer to a request that carried
  exactly the host's digest, for the signer of the key, with the algorithm the host's padding and
  hash mean; handles are never reused and keys are usable only while open; every call returns,
  stays within the host's buffers and reports failures without writing; sizes reported are the
  sizes delivered. Sessions send no request beyond those their caches require, do not repeat failed logins,
  and open an approval request exactly when one is due. Calls that several threads make on one
  session neither deadlock nor mix up their answers, and send at most one login in ten seconds. Secrets of listed flags do not reach the
  server. Conversions of keys, signatures, durations and configuration files are exact.

  \<^bold>\<open>Results.\<close> \<open>None\<close> of \<open>host_step\<close> is the end of the process: the panic of \<^verbatim>\<open>C.GoBytes\<close> on a negative
  length, or a \<^verbatim>\<open>memcpy\<close> outside its objects. Errors are the left summand of \<open>'a result\<close>. Every
  function is total: loops are structural recursions or decrease the text that is left. The only bound
  is the nesting depth of 10000 of \<open>json_parse\<close>, which is the limit of \<^verbatim>\<open>encoding/json\<close> itself; the texts
  of the round trips stay below it by hypothesis.

  \<^bold>\<open>Parameters.\<close> Sending a request and deciding which responses are decoded (resty), certificate pools,
  PEM and X.509 parsing, the UTF-16 conversions and command-line splitting of \<^verbatim>\<open>x/sys\<close>, the operating
  system's answers, the clock, and Unicode's case and printability tables from code point 128 on.
  Nothing is assumed of them beyond what a theorem states.

  \<^bold>\<open>Not modelled.\<close> The interleaving of host calls from several threads: a \<open>host_step\<close> is atomic, and
  concurrency is modelled for the session below it, whose mutex is released during some network calls
  (one session at a time). The format of log time stamps and the log file's contents on disk; the
  memory the C side frees; \<^verbatim>\<open>main_stub.go\<close>, which is empty, the tests and the build files.
\<close>

section \<open>The machine along every history\<close>

text \<open>C4: whatever the host calls, in whatever order and whatever files, environment and servers
  answer at each call, the machine stays well formed (handles point to live sessions, the type and
  curve of a key are those of its certificate, every session runs on a validated configuration),
  and no request that was sent is ever forgotten or replaced.\<close>

theorem machine_stays_well_formed:
  "machine_ok (after_calls cs loaded)
   \<and> sent_count (after_calls cs loaded) \<le> sent_count (after_calls (cs @ more_calls) loaded)"
proof -
  have ok: "machine_ok (after_calls cs loaded)"
    unfolding after_calls_def by (rule host.run_inv[OF machine_ok_loaded])
  then show ?thesis
    using host.run_level[OF ok, of more_calls] by (simp add: after_calls_append) (simp add: after_calls_def)
qed

text \<open>A trace the host can produce, for the instances below.\<close>

definition demo_trace :: "host_event list" where
  "demo_trace = [(demo_dll ok_answers, OpenProvider, Opened 0 (Some 1)),
     (demo_dll ok_answers, OpenKey 1 (Some (wide ''one'')), Opened 0 (Some 2)),
     (demo_dll ok_answers, demo_sign_call, Output demo_sign_result)]"

lemma demo_trace_runs: "runs host_event demo_trace loaded signed_machine"
  unfolding demo_trace_def
  by (simp del: host_step.simps add: demo_open_provider key_machine_opened demo_signs)

text \<open>C2: the DLL implements the specification of a key storage provider: every history of calls and
  replies from loading the DLL, shorter than the handle counter's range, is a history the
  specification allows from the empty set of handles. Sessions, caches, configuration and network
  influence the host only through what the specification leaves open.\<close>

theorem dll_refines_specification:
  assumes "runs host_event ls loaded m" "length ls + 1 < 2 ^ 64"
  shows "runs spec_event ls no_handles (abs_ksp m)"
  by (rule loaded_traces[OF assms])

theorem dll_refines_specification_witness:
  "runs spec_event demo_trace no_handles (abs_ksp signed_machine)"
  by (rule dll_refines_specification[OF demo_trace_runs]) (simp add: demo_trace_def)

text \<open>C25: no handle is given out twice, and none is zero, along any history: a freed handle never
  comes back to life as another object.\<close>

theorem handles_never_reused:
  assumes "runs host_event ls loaded m" "length ls + 1 < 2 ^ 64"
  shows "distinct (handles_given ls) \<and> 0 \<notin> set (handles_given ls)"
  by (rule host_handles[OF assms])

theorem handles_never_reused_witness: "distinct (handles_given demo_trace)"
  using handles_never_reused[OF demo_trace_runs] by (simp add: demo_trace_def)

text \<open>C3: a call on a key handle (reading a property, exporting, signing or asking for a size) can
  succeed only between the \<open>OpenKey\<close> call that returned the handle and the first call that frees
  it.\<close>

theorem key_used_only_while_open:
  assumes "runs host_event (ls @ [(d, c, Output res)]) loaded m" "length ls + 2 < 2 ^ 64"
    and "key_of c = Some k" "c_status res = 0"
  shows "key_open k ls"
  by (rule host_use[OF assms])

theorem key_used_only_while_open_witness: "key_open 2 (butlast demo_trace)"
proof -
  have "runs host_event (butlast demo_trace @ [(demo_dll ok_answers, demo_sign_call, Output demo_sign_result)])
      loaded signed_machine"
    using demo_trace_runs by (simp add: demo_trace_def)
  from key_used_only_while_open[OF this] show ?thesis
    by (simp add: demo_trace_def demo_sign_call_def demo_sign_result_def)
qed

section \<open>The host's memory\<close>

text \<open>C6: no call changes a byte past the size the host declared for its buffer, and a call that
  reports failure has changed nothing at all in it.\<close>

theorem output_within_buffer:
  assumes "reached n m" "n + 2 < 2 ^ 64" "host_step d c m = Some (Output r, m')"
    and "output_buffer c = Some (out, cb)"
  shows "within cb out (c_memory r) \<and> (c_status r \<noteq> 0 \<longrightarrow> c_memory r = out)"
proof -
  have "host_inv (Suc 0) m"
    using reached_ok[OF assms(1)] reached_below[OF assms(1)] assms(2) by (auto simp: host_inv_def)
  from host_step_sim[OF this assms(3)] have s: "ksp_spec d c (Output r) (abs_ksp m) (abs_ksp m')" .
  have "c_status r \<noteq> 0 \<longrightarrow> c_memory r = out"
    using spec_failure_silent[OF s] assms(4) by (cases c) auto
  with host_step_within[OF assms(3,4)] show ?thesis by blast
qed

theorem output_within_buffer_witness:
  "within 64 (Some (replicate 64 0)) (Some (fixed_be 32 200 @ fixed_be 32 7))"
  using output_within_buffer[OF key_machine_reached _ demo_signs, of "Some (replicate 64 0)" 64]
  by (simp add: demo_sign_call_def demo_sign_result_def)



section \<open>Sizing, reading and signing\<close>

text \<open>C26: reading takes two calls. When a property or the public blob of a live key is asked for without
  a buffer, the length reported is that of the data, and the same call with a buffer of that
  length succeeds and fills it with exactly the data.\<close>

theorem two_call_protocol:
  assumes "m_handles m k = Some (KeyObj ks)" "reads d k ks v c" "length v < 2 ^ 31" "length mem = length v"
  shows "host_step d (c None cb0) m
      = Some (Output \<lparr>c_status = 0, c_memory = None, c_cbResult = Some (of_nat (length v))\<rparr>, m)
    \<and> host_step d (c (Some mem) (of_nat (length v))) m
      = Some (Output \<lparr>c_status = 0, c_memory = Some v, c_cbResult = Some (of_nat (length v))\<rparr>, m)"
  using assms(3,4) read_replies[OF assms(1-3)] by (simp add: deliver_def Let_def unat_of_nat)

theorem two_call_protocol_witness:
  "host_step (demo_dll ok_answers) (GetKeyProperty 2 (Some (wide ''Length'')) (Some [0, 0, 0, 0]) 4 True) key_machine
   = Some (Output \<lparr>c_status = 0, c_memory = Some (le32 256), c_cbResult = Some 4\<rparr>, key_machine)"
proof -
  have "reads (demo_dll ok_answers) 2 demo_ks (le32 256)
      (\<lambda>out cb. GetKeyProperty 2 (Some (wide ''Length'')) out cb True)"
    unfolding reads_def
    by (intro disjI1 exI[of _ "Some (wide ''Length'')"])
      (simp add: keyProperty_def demo_ks_def demo_key_def keyLengthBits_def dwordLE_def)
  from two_call_protocol[OF _ this, of key_machine "[0, 0, 0, 0]"] show ?thesis
    by (simp add: key_machine_opened)
qed

text \<open>C14: for an ECDSA key the size reported before signing is the size of the signature: asking
  for it changes nothing and sends nothing, a buffer of that size is never too small, and a
  signature fills it exactly.\<close>

theorem ecdsa_size_exact:
  assumes "reached n m" "m_handles m k = Some (KeyObj ks)" "ks_keyType ks = KeyECDSA"
    and "ks_curveBits ks < 2 ^ 31" "length mem = 2 * coord_size (ks_curveBits ks)"
    and "host_step d (SignHash k pad hash (Some mem) (of_nat (length mem)) pcb fl) m = Some (Output r, m')"
  shows "host_step d0 (SignHash k pad0 hash0 None cb0 True fl0) m
       = Some (Output \<lparr>c_status = 0, c_memory = None, c_cbResult = Some (of_nat (length mem))\<rparr>, m)
     \<and> c_status r \<noteq> NTE_BUFFER_TOO_SMALL
     \<and> (c_status r = 0 \<longrightarrow> (\<exists>padding hn. fst (signHash d ks padding hn hash m) = Inr (the (c_memory r))
          \<and> length (the (c_memory r)) = length mem))"
proof -
  have ok: "key_ok m ks"
    using machine_okD(1)[OF reached_ok[OF assms(1)] assms(2)] by (simp add: object_ok_def)
  have big: "length mem < 2 ^ 32" using assms(4,5) by (simp add: coord_size_def)
  have "host_step d0 (SignHash k pad0 hash0 None cb0 True fl0) m
      = Some (Output \<lparr>c_status = 0, c_memory = None, c_cbResult = Some (of_nat (length mem))\<rparr>, m)"
    by (simp add: ksp_SignHash_def max_size_ecdsa[OF assms(2) ok assms(3)] ERROR_SUCCESS_def assms(5))
  moreover have "c_status r \<in> failures \<or> (\<exists>padding hn sig. signHash d ks padding hn hash m = (Inr sig, m')
      \<and> r = deliver sig (Some mem) (of_nat (length mem)) pcb)"
    using SignHash_reply[of d k pad hash mem _ pcb fl m r m', OF _ assms(2)] assms(6) by force
  then have "c_status r \<noteq> NTE_BUFFER_TOO_SMALL \<and> (c_status r = 0 \<longrightarrow> (\<exists>padding hn.
      fst (signHash d ks padding hn hash m) = Inr (the (c_memory r)) \<and> length (the (c_memory r)) = length mem))"
  proof
    assume "\<exists>padding hn sig. signHash d ks padding hn hash m = (Inr sig, m')
      \<and> r = deliver sig (Some mem) (of_nat (length mem)) pcb"
    then obtain padding hn sig where s: "signHash d ks padding hn hash m = (Inr sig, m')"
      "r = deliver sig (Some mem) (of_nat (length mem)) pcb" by blast
    have "length sig = length mem" using ecdsa_signature_length[OF s(1) assms(3)] assms(5) by simp
    with big have "r = \<lparr>c_status = 0, c_memory = Some sig, c_cbResult = (if pcb then Some (of_nat (length sig)) else None)\<rparr>"
      by (simp add: s(2) deliver_def Let_def unat_of_nat)
    with s(1) \<open>length sig = length mem\<close> show ?thesis
      by (auto simp: NTE_BUFFER_TOO_SMALL_def intro!: exI[of _ padding] exI[of _ hn])
  qed (use failures_iff in blast)
  ultimately show ?thesis by blast
qed

theorem ecdsa_size_exact_witness:
  "host_step (demo_dll []) (SignHash 2 None [] None 0 True 0) key_machine
     = Some (Output \<lparr>c_status = 0, c_memory = None, c_cbResult = Some 64\<rparr>, key_machine)"
  using ecdsa_size_exact[OF key_machine_reached, of 2 demo_ks "replicate 64 0" "demo_dll ok_answers" None
      "replicate 32 7" True 0 demo_sign_result signed_machine "demo_dll []" None "[]" 0 0] demo_signs
  by (simp add: key_machine_opened demo_ks_def coord_size_def demo_sign_call_def)



text \<open>C13: opening an approval request, or failing to, never hides the denial: the error handed to the
  caller still shows the same API error, is an invalid-handle error only if the denial was, is
  an opened-request error with the server's identifier when the request was opened, and the status
  the host sees is that of the denial, never success.\<close>

theorem denial_stays_visible:
  "errors_As sel_api (fst (autoRequestOnDenial e s token i c digest err w)) = errors_As sel_api err
   \<and> errors_Is_BadHandle (fst (autoRequestOnDenial e s token i c digest err w)) = errors_Is_BadHandle err
   \<and> (fst (autoRequestOnDenial e s token i c digest err w)
      \<in> {err} \<union> range (ApprovalRequestFailed err) \<union> {ApprovalRequestOpened err r st |r st. r \<noteq> []})
   \<and> statusFromError (fst (autoRequestOnDenial e s token i c digest err w)) = statusFromError err
   \<and> statusFromError err \<noteq> 0"
proof -
  have "statusFromError (fst (autoRequestOnDenial e s token i c digest err w)) = statusFromError err"
    by (simp add: statusFromError_def chain)
  then show ?thesis
    using autoRequest_transparent[of e s token i c digest err w] autoRequest_wraps[of e s token i c digest err w]
      statusFromError_failure[of err]
    by blast
qed

text \<open>A digest of two gigabytes or more ends the process: the Go function that copies it panics on
  the negative length.\<close>

theorem huge_digest_panics:
  assumes "m_handles m k = Some (KeyObj ks)" "2 ^ 31 \<le> length digest" "length digest < 2 ^ 32"
  shows "host_step d (SignHash k pad digest (Some mem) cb pcb fl) m = None"
proof -
  have "(int (length digest) + 2 ^ 31) mod 2 ^ 32 = (int (length digest) - 2 ^ 31) mod 2 ^ 32"
    by (simp add: mod_eq_dvd_iff)
  also have "\<dots> = int (length digest) - 2 ^ 31" using assms(2,3) by (intro mod_pos_pos_trivial) auto
  finally have "i32 (int (length digest)) < 0" using assms(3) by (simp add: i32_def)
  then show ?thesis
    using assms(1) by (simp add: ksp_SignHash_def GoSignHash_def keyByHandle_Inr [THEN iffD2])
qed

end
